(* ===== verification/PAS_Prelude.thy ===== *)
theory PAS_Prelude
  imports Main "HOL-Library.Word" "HOL-Library.AList" "HOL-Library.Monad_Syntax"
    "HOL-Library.Multiset" "HOL-Library.Signed_Division"
begin

text \<open>
  Shared vocabulary of the development: Go maps, Go's fixed-width integers, panics, error
  results, and the loops that stop early.

  \<^item> A Go \<^verbatim>\<open>map[K]V\<close> is an association list with one entry per key (\<open>gomap\<close>). Its order
    stands for the order in which the runtime ranges over the map, which Go leaves open: a
    theorem about every list is a theorem about every iteration order. Look-ups go through
    \<^const>\<open>map_of\<close>, stores through \<^const>\<open>AList.update\<close>, \<^verbatim>\<open>delete\<close> through \<^const>\<open>AList.delete\<close>. A map that
    may be nil (annotations, labels) is an optional one.
  \<^item> A \<^verbatim>\<open>map[K]bool\<close> that only ever stores \<^verbatim>\<open>true\<close> (a search map) is the list of its keys.
  \<^item> \<^verbatim>\<open>int64\<close> is \<open>64 word\<close> read with \<^const>\<open>sint\<close>, so that sums wrap as they do in Go.
  \<^item> A computation that may panic has an \<^typ>\<open>'a option\<close> result, \<^const>\<open>None\<close> being the panic, and is
    written with \<^verbatim>\<open>do\<close>. A Go result \<open>(value, error)\<close> is a sum, \<^const>\<open>Inl\<close> being the error.
\<close>

subsection \<open>Collections of rewrite rules\<close>

named_theorems gomap_simps \<open>look-ups after updates of Go maps\<close>
named_theorems int64_simps \<open>signed readings of 64-bit arithmetic\<close>

subsection \<open>Maps\<close>

type_synonym ('k, 'v) gomap = "('k \<times> 'v) list"
type_synonym 'k search_map = "'k list"
type_synonym int64 = "64 word"

definition wf_map :: "('k, 'v) gomap \<Rightarrow> bool" where
  "wf_map m \<longleftrightarrow> distinct (map fst m)"

definition gm_getd :: "'v \<Rightarrow> ('k, 'v) gomap \<Rightarrow> 'k \<Rightarrow> 'v" where
  "gm_getd d m k = (case map_of m k of None \<Rightarrow> d | Some v \<Rightarrow> v)"

definition gm_append :: "'k \<Rightarrow> 'a list \<Rightarrow> ('k, 'a list) gomap \<Rightarrow> ('k, 'a list) gomap" where
  "gm_append k xs m = AList.update k (gm_getd [] m k @ xs) m"

definition nil_get :: "('k, 'v) gomap option \<Rightarrow> 'k \<Rightarrow> 'v option" where
  "nil_get m k = (case m of None \<Rightarrow> None | Some es \<Rightarrow> map_of es k)"

definition nil_entries :: "('k, 'v) gomap option \<Rightarrow> ('k \<times> 'v) list" where
  "nil_entries m = (case m of None \<Rightarrow> [] | Some es \<Rightarrow> es)"

lemma map_of_update [simp, gomap_simps]:
  "map_of (AList.update k v m) = (map_of m)(k \<mapsto> v)"
  by (simp add: update_conv')

lemma map_of_delete [simp, gomap_simps]:
  "map_of (AList.delete k m) = (map_of m)(k := None)"
  by (rule ext) (simp add: delete_conv')

lemma wf_map_Nil [simp]: "wf_map []"
  by (simp add: wf_map_def)

lemma wf_map_Cons: "wf_map ((k, v) # m) \<longleftrightarrow> k \<notin> fst ` set m \<and> wf_map m"
  by (simp add: wf_map_def)

lemma wf_map_update [simp, intro]: "wf_map m \<Longrightarrow> wf_map (AList.update k v m)"
  by (simp add: wf_map_def distinct_update)

lemma wf_map_delete [simp, intro]: "wf_map m \<Longrightarrow> wf_map (AList.delete k m)"
  by (simp add: wf_map_def distinct_delete)

lemma wf_map_lookup: "wf_map m \<Longrightarrow> (k, v) \<in> set m \<longleftrightarrow> map_of m k = Some v"
  by (simp add: wf_map_def)

lemma keys_update [simp]: "fst ` set (AList.update k v m) = insert k (fst ` set m)"
  by (simp add: dom_update)

lemma keys_delete [simp]: "fst ` set (AList.delete k m) = fst ` set m - {k}"
  by (induction m) auto

lemma map_of_None_keys: "map_of m k = None \<longleftrightarrow> k \<notin> fst ` set m"
  by (simp add: map_of_eq_None_iff)

lemma map_of_Some_keys: "k \<in> fst ` set m \<longleftrightarrow> (\<exists>v. map_of m k = Some v)"
  using map_of_None_keys [of m k] by (metis not_None_eq)

lemma gm_getd_update [simp, gomap_simps]:
  "gm_getd d (AList.update k v m) j = (if j = k then v else gm_getd d m j)"
  by (simp add: gm_getd_def)

lemma gm_getd_Nil [simp]: "gm_getd d [] k = d"
  by (simp add: gm_getd_def)

lemma gm_getd_Cons [simp]: "gm_getd d ((k, v) # m) j = (if j = k then v else gm_getd d m j)"
  by (simp add: gm_getd_def)

lemma gm_getd_Some: "map_of m k = Some v \<Longrightarrow> gm_getd d m k = v"
  by (simp add: gm_getd_def)

lemma gm_getd_missing: "k \<notin> fst ` set m \<Longrightarrow> gm_getd d m k = d"
  using map_of_None_keys [of m k] by (simp add: gm_getd_def)

lemma gm_getd_in_set: "k \<in> fst ` set m \<Longrightarrow> (k, gm_getd d m k) \<in> set m"
  by (auto simp: gm_getd_def map_of_Some_keys dest: map_of_SomeD)

lemma gm_getd_append [simp, gomap_simps]:
  "gm_getd [] (gm_append k xs m) j = (if j = k then gm_getd [] m k @ xs else gm_getd [] m j)"
  by (simp add: gm_append_def)

lemma wf_map_append [simp, intro]: "wf_map m \<Longrightarrow> wf_map (gm_append k xs m)"
  by (simp add: gm_append_def)

lemma keys_append [simp]: "fst ` set (gm_append k xs m) = insert k (fst ` set m)"
  by (simp add: gm_append_def)

text \<open>Updates in any order agree as maps: copying a map entry by entry reproduces it.\<close>

lemma update_snoc_fresh: "k \<notin> fst ` set m \<Longrightarrow> AList.update k v m = m @ [(k, v)]"
  by (induction m) auto

lemma update_same [simp]: "map_of m k = Some v \<Longrightarrow> AList.update k v m = m"
  by (induction m) (auto split: if_splits)

lemma wf_map_snocD: "wf_map (m @ [(k, v)]) \<Longrightarrow> wf_map m \<and> k \<notin> fst ` set m"
  by (auto simp: wf_map_def)

lemma nil_get_entries: "nil_get m k = map_of (nil_entries m) k"
  by (simp add: nil_get_def nil_entries_def split: option.splits)

subsection \<open>What a loop does to one key\<close>

text \<open>A projection \<open>P\<close> of the state that every round maps by itself, and one that only the entry of a
  key changes: a loop over a map then acts on it at most once.\<close>

lemma fold_projection:
  "(\<And>x s. P (f x s) = h x (P s)) \<Longrightarrow> P (fold f xs s) = fold h xs (P s)"
  by (induction xs arbitrary: s) simp_all

lemma fold_own_key:
  assumes "wf_map xs"
    and "\<And>k v s. k \<noteq> n \<Longrightarrow> P (f (k, v) s) = P s" "\<And>v s. P (f (n, v) s) = g v (P s)"
  shows "P (fold f xs s) = (case map_of xs n of None \<Rightarrow> P s | Some v \<Rightarrow> g v (P s))"
  using assms(1)
proof (induction xs arbitrary: s)
  case (Cons x xs)
  obtain k v where x: "x = (k, v)" by (cases x)
  with Cons.prems have "wf_map xs" "map_of xs k = None" by (simp_all add: wf_map_Cons map_of_None_keys)
  then show ?case using Cons.IH [of "f (k, v) s"] x by (cases "k = n") (simp_all add: assms(2,3) split: option.splits)
qed simp

subsection \<open>Loops that may fail or panic\<close>

text \<open>
  \<open>efold\<close> is a loop whose body returns an error to stop; \<open>ofold\<close> is a loop whose body may
  panic. Both thread the loop's state.
\<close>

primrec efold :: "('a \<Rightarrow> 's \<Rightarrow> 'e + 's) \<Rightarrow> 'a list \<Rightarrow> 's \<Rightarrow> 'e + 's" where
  "efold f [] s = Inr s"
| "efold f (x # xs) s = (case f x s of Inl e \<Rightarrow> Inl e | Inr s' \<Rightarrow> efold f xs s')"

primrec ofold :: "('a \<Rightarrow> 's \<Rightarrow> 's option) \<Rightarrow> 'a list \<Rightarrow> 's \<Rightarrow> 's option" where
  "ofold f [] s = Some s"
| "ofold f (x # xs) s = f x s \<bind> ofold f xs"

lemma efold_invariant:
  assumes "efold f xs s = Inr t" and "I s"
    and "\<And>x s s'. x \<in> set xs \<Longrightarrow> I s \<Longrightarrow> f x s = Inr s' \<Longrightarrow> I s'"
  shows "I t"
  using assms
proof (induction xs arbitrary: s)
  case Nil
  then show ?case by simp
next
  case (Cons x xs)
  from Cons.prems(1) obtain s' where s': "f x s = Inr s'" and "efold f xs s' = Inr t"
    by (auto split: sum.splits)
  moreover from Cons.prems(2,3) s' have "I s'" by auto
  ultimately show ?case using Cons.IH [of s'] Cons.prems(3) by auto
qed

lemma ofold_invariant:
  assumes "ofold f xs s = Some t" and "I s"
    and "\<And>x s s'. x \<in> set xs \<Longrightarrow> I s \<Longrightarrow> f x s = Some s' \<Longrightarrow> I s'"
  shows "I t"
  using assms
proof (induction xs arbitrary: s)
  case Nil
  then show ?case by simp
next
  case (Cons x xs)
  from Cons.prems(1) obtain s' where s': "f x s = Some s'" and "ofold f xs s' = Some t"
    by (auto split: bind_splits)
  moreover from Cons.prems(2,3) s' have "I s'" by auto
  ultimately show ?case using Cons.IH [of s'] Cons.prems(3) by auto
qed

lemma ofold_returns:
  "(\<And>x s. x \<in> set xs \<Longrightarrow> \<exists>s'. f x s = Some s') \<Longrightarrow> \<exists>t. ofold f xs s = Some t"
proof (induction xs arbitrary: s)
  case Nil
  then show ?case by simp
next
  case (Cons x xs)
  from Cons.prems obtain s' where "f x s = Some s'" by auto
  with Cons show ?case by auto
qed

subsection \<open>64-bit integers\<close>

definition max_int64 :: int where
  "max_int64 = 2 ^ 63 - 1"

text \<open>Go's \<^verbatim>\<open>int64\<close> division truncates towards zero.\<close>

definition div_int64 :: "int64 \<Rightarrow> int \<Rightarrow> int64" where
  "div_int64 v d = word_of_int (sint v sdiv d)"

lemma sint_le_max [simp, int64_simps]: "sint (v :: int64) \<le> max_int64"
  using sint_lt [of v] by (simp add: max_int64_def)

lemma sint_ge_min: "- (2 ^ 63) \<le> sint (v :: int64)"
  using sint_ge [of v] by simp

lemma sint_of_int64: "- (2 ^ 63) \<le> x \<Longrightarrow> x \<le> max_int64 \<Longrightarrow> sint (word_of_int x :: int64) = x"
  by (simp add: max_int64_def sint_sbintrunc' signed_take_bit_int_eq_self)

lemma add_int64_nonneg:
  assumes "0 \<le> sint (a :: int64)" "0 \<le> sint b"
  shows "0 \<le> sint (a + b) \<longleftrightarrow> sint a + sint b \<le> max_int64"
    and "sint a + sint b \<le> max_int64 \<Longrightarrow> sint (a + b) = sint a + sint b"
proof -
  let ?s = "sint a + sint b"
  have eq: "sint (a + b) = signed_take_bit 63 ?s"
    by (simp add: sint_word_add)
  have ub: "?s < 2 ^ 64"
    using sint_lt [of a] sint_lt [of b] by simp
  have big: "signed_take_bit 63 ?s < 0" if "?s > max_int64"
  proof -
    have "signed_take_bit 63 ?s = (?s + 2 ^ 63) mod 2 ^ 64 - 2 ^ 63"
      by (simp add: signed_take_bit_eq_take_bit_shift take_bit_eq_mod)
    also have "(?s + 2 ^ 63) mod 2 ^ 64 = (?s + 2 ^ 63 - 2 ^ 64) mod 2 ^ 64"
      by (metis minus_mod_self2)
    also have "\<dots> = ?s + 2 ^ 63 - 2 ^ 64"
      using that ub by (intro mod_pos_pos_trivial) (simp_all add: max_int64_def)
    finally show ?thesis using ub by simp
  qed
  show small: "sint (a + b) = ?s" if "?s \<le> max_int64"
    using that assms eq by (simp add: signed_take_bit_int_eq_self max_int64_def)
  show "0 \<le> sint (a + b) \<longleftrightarrow> ?s \<le> max_int64"
    using big small eq assms by (cases "?s \<le> max_int64") auto
qed

lemma sub_int64_nonneg:
  assumes "0 \<le> sint (a :: int64)" "0 \<le> sint b"
  shows "sint (a - b) = sint a - sint b"
  using assms sint_lt [of a] sint_lt [of b]
  by (simp add: sint_word_diff signed_take_bit_int_eq_self)

lemma sint_div_int64:
  assumes "1 \<le> d" "0 \<le> sint v"
  shows "sint (div_int64 v d) = sint v div d"
proof -
  have "sint v sdiv d = sint v div d"
    using assms by (simp add: signed_divide_int_def sgn_if)
  moreover have "0 \<le> sint v div d" "sint v div d \<le> sint v"
    using assms zdiv_mono2 [of "sint v" 1 d] by (simp_all add: pos_imp_zdiv_nonneg_iff)
  moreover from this have "sint v div d \<le> max_int64"
    using sint_le_max [of v] by linarith
  ultimately show ?thesis
    by (simp add: div_int64_def sint_of_int64)
qed

text \<open>The durations of package \<^verbatim>\<open>time\<close>, in nanoseconds.\<close>

definition time_Second :: int64 where "time_Second = 1000000000"
definition time_Minute :: int64 where "time_Minute = 60 * time_Second"

subsection \<open>Orders of ranging and sorting that Go leaves open\<close>

definition range_order :: "('a list \<Rightarrow> 'a list) \<Rightarrow> bool" where
  "range_order ord \<longleftrightarrow> (\<forall>xs. mset (ord xs) = mset xs)"

lemma range_order_id [simp]: "range_order id"
  by (simp add: range_order_def)

lemma range_order_mset: "range_order ord \<Longrightarrow> mset (ord xs) = mset xs"
  by (simp add: range_order_def)

lemma range_order_set: "range_order ord \<Longrightarrow> set (ord xs) = set xs"
  unfolding range_order_def by (metis set_mset_mset)

end
