(* ===== verification/Resource_Map.thy ===== *)
theory Resource_Map
  imports PAS_Prelude
begin

text \<open>
  \<^verbatim>\<open>gpu-aware-scheduling/pkg/gpuscheduler/resource_map.go\<close>: the arithmetic on resource maps
  (resource name to \<^verbatim>\<open>int64\<close> amount) that all of GAS's book keeping rests on. \<^verbatim>\<open>addRM\<close> and
  \<^verbatim>\<open>subtractRM\<close> work on a copy first, so that they either apply to every resource or change
  nothing: an error result stands for an unchanged receiver. The interface \<open>rm_operation\<close>
  is what the node cache relies on when it applies either of them card by card.
\<close>

subsection \<open>Data\<close>

text \<open>
  The error values of the package. \<open>ErrLib\<close> stands for an error of the Kubernetes client, of
  its caches or of \<^verbatim>\<open>strconv\<close>, which the sources only wrap and pass on.
\<close>

datatype gas_error =
    ErrOverflow | ErrInput
  | ErrUnknownAction | ErrBadArgs
  | ErrNotFound | ErrEmptyBody | ErrDecode | ErrWontFit | ErrExtractFail | ErrBadUID | ErrAnnotation
  | ErrResConflict
  | ErrLib string

type_synonym resource_map = "(string, int64) gomap"

subsection \<open>Operations\<close>

definition minAllowedInput :: int where
  "minAllowedInput = 0"

definition copyFrom :: "resource_map \<Rightarrow> resource_map \<Rightarrow> resource_map" where
  "copyFrom rm src = fold (\<lambda>key m. AList.update key (gm_getd 0 src key) m) (map fst src) rm"

definition newCopy :: "resource_map \<Rightarrow> resource_map" where
  "newCopy rm = copyFrom [] rm"

definition rm_add :: "resource_map \<Rightarrow> string \<Rightarrow> int64 \<Rightarrow> gas_error + resource_map" where
  "rm_add rm key value =
     (if sint value < minAllowedInput then Inl ErrInput
      else case map_of rm key of
             Some oldVal \<Rightarrow>
               (let value = value + oldVal
                in if sint value < 0 then Inl ErrOverflow else Inr (AList.update key value rm))
           | None \<Rightarrow> Inr (AList.update key value rm))"

definition rm_subtract :: "resource_map \<Rightarrow> string \<Rightarrow> int64 \<Rightarrow> gas_error + resource_map" where
  "rm_subtract rm key value =
     (if sint value < minAllowedInput then Inl ErrInput
      else case map_of rm key of
             Some oldVal \<Rightarrow>
               (let newVal = oldVal - value
                in Inr (AList.update key (if sint newVal < 0 then 0 else newVal) rm))
           | None \<Rightarrow> Inl ErrInput)"

definition addRM :: "resource_map \<Rightarrow> resource_map \<Rightarrow> gas_error + resource_map" where
  "addRM rm src =
     (case efold (\<lambda>(key, value) mapCopy. rm_add mapCopy key value) src (newCopy rm) of
        Inl err \<Rightarrow> Inl err
      | Inr mapCopy \<Rightarrow> Inr (copyFrom rm mapCopy))"

definition subtractRM :: "resource_map \<Rightarrow> resource_map \<Rightarrow> gas_error + resource_map" where
  "subtractRM rm src =
     (case efold (\<lambda>(key, value) mapCopy. rm_subtract mapCopy key value) src (newCopy rm) of
        Inl err \<Rightarrow> Inl err
      | Inr mapCopy \<Rightarrow> Inr (copyFrom rm mapCopy))"

definition rm_divide :: "resource_map \<Rightarrow> int \<Rightarrow> gas_error + resource_map" where
  "rm_divide rm divider =
     (if divider < 1 then Inl ErrInput
      else if divider = 1 then Inr rm
      else Inr (map (\<lambda>(key, value). (key, div_int64 value divider)) rm))"

subsection \<open>Amounts and sane maps\<close>

text \<open>
  The amount of a resource, a missing one counting 0, and the maps the sources call sane:
  one entry per resource, no negative amount.
\<close>

definition amount :: "resource_map \<Rightarrow> string \<Rightarrow> int" where
  "amount rm key = sint (gm_getd 0 rm key)"

definition sane :: "resource_map \<Rightarrow> bool" where
  "sane rm \<longleftrightarrow> wf_map rm \<and> (\<forall>(key, value) \<in> set rm. 0 \<le> sint value)"

lemma sane_Nil [simp, intro]: "sane []"
  by (simp add: sane_def)

lemma sane_wf [dest]: "sane rm \<Longrightarrow> wf_map rm"
  by (simp add: sane_def)

lemma sane_nonneg: "sane rm \<Longrightarrow> map_of rm k = Some v \<Longrightarrow> 0 \<le> sint v"
  by (auto simp: sane_def dest: map_of_SomeD)

lemma sane_iff: "sane rm \<longleftrightarrow> wf_map rm \<and> (\<forall>k v. map_of rm k = Some v \<longrightarrow> 0 \<le> sint v)"
  by (auto simp: sane_def wf_map_lookup)

lemma amount_nonneg [simp]: "sane rm \<Longrightarrow> 0 \<le> amount rm k"
  by (auto simp: amount_def gm_getd_def sane_nonneg split: option.splits)

lemma amount_Nil [simp]: "amount [] k = 0"
  by (simp add: amount_def)

lemma amount_Cons [simp]: "amount ((k, v) # m) j = (if j = k then sint v else amount m j)"
  by (simp add: amount_def)

lemma amount_missing [simp]: "k \<notin> fst ` set rm \<Longrightarrow> amount rm k = 0"
  by (simp add: amount_def gm_getd_missing)

lemma amount_update [simp]: "amount (AList.update k v m) j = (if j = k then sint v else amount m j)"
  by (simp add: amount_def)

lemma amount_le_max [simp]: "amount rm k \<le> max_int64"
  by (simp add: amount_def)

lemma set_updateD: "(a, b) \<in> set (AList.update k v m) \<Longrightarrow> (a, b) = (k, v) \<or> (a, b) \<in> set m"
  by (induction m) (auto split: if_splits)

lemma sane_update [intro]: "sane rm \<Longrightarrow> 0 \<le> sint v \<Longrightarrow> sane (AList.update k v rm)"
  by (auto simp: sane_def dest: set_updateD)

lemma sane_ConsD: "sane ((k, v) # m) \<Longrightarrow> k \<notin> fst ` set m \<and> sane m \<and> 0 \<le> sint v"
  by (auto simp: sane_def wf_map_Cons)

subsection \<open>Copies\<close>

lemma map_of_copy_loop:
  "map_of (fold (\<lambda>key m. AList.update key (f key) m) ks rm) k =
     (if k \<in> set ks then Some (f k) else map_of rm k)"
  by (induction ks arbitrary: rm) auto

lemma keys_copy_loop:
  "fst ` set (fold (\<lambda>key m. AList.update key (f key) m) ks rm) = set ks \<union> fst ` set rm"
  by (induction ks arbitrary: rm) auto

lemma wf_copy_loop: "wf_map rm \<Longrightarrow> wf_map (fold (\<lambda>key m. AList.update key (f key) m) ks rm)"
  by (induction ks arbitrary: rm) auto

lemma map_of_copyFrom [gomap_simps]:
  "map_of (copyFrom rm src) k = (case map_of src k of Some v \<Rightarrow> Some v | None \<Rightarrow> map_of rm k)"
  by (auto simp: copyFrom_def map_of_copy_loop map_of_None_keys gm_getd_def split: option.splits)
    (metis map_of_None_keys option.simps(3))

lemma keys_copyFrom [simp]: "fst ` set (copyFrom rm src) = fst ` set src \<union> fst ` set rm"
  by (simp add: copyFrom_def keys_copy_loop)

lemma wf_copyFrom [intro]: "wf_map rm \<Longrightarrow> wf_map (copyFrom rm src)"
  by (simp add: copyFrom_def wf_copy_loop)

lemma amount_copyFrom:
  "amount (copyFrom rm src) k = (if k \<in> fst ` set src then amount src k else amount rm k)"
  by (auto simp: amount_def gm_getd_def map_of_copyFrom map_of_Some_keys split: option.splits)

lemma sane_copyFrom [intro]: "sane rm \<Longrightarrow> sane src \<Longrightarrow> sane (copyFrom rm src)"
  by (auto simp: sane_iff wf_copyFrom map_of_copyFrom split: option.splits)

lemma copy_loop_fresh:
  "distinct (map fst (xs @ ys)) \<Longrightarrow> (\<And>k v. (k, v) \<in> set ys \<Longrightarrow> f k = v) \<Longrightarrow>
     fold (\<lambda>key m. AList.update key (f key) m) (map fst ys) xs = xs @ ys"
proof (induction ys arbitrary: xs)
  case Nil
  then show ?case by simp
next
  case (Cons y ys)
  obtain k v where y: "y = (k, v)" by (cases y)
  with Cons.prems have "k \<notin> fst ` set xs" "f k = v" by auto
  moreover have "fold (\<lambda>key m. AList.update key (f key) m) (map fst ys) (xs @ [y]) = (xs @ [y]) @ ys"
    using Cons.prems by (intro Cons.IH) auto
  ultimately show ?case using y by (simp add: update_snoc_fresh)
qed

lemma newCopy_wf [simp]: "wf_map rm \<Longrightarrow> newCopy rm = rm"
  unfolding newCopy_def copyFrom_def
  by (subst copy_loop_fresh) (auto simp: wf_map_def gm_getd_def)

subsection \<open>One resource\<close>

lemma rm_add_cases:
  assumes "sane rm"
  shows "rm_add rm k v =
    (if sint v < 0 then Inl ErrInput
     else if amount rm k + sint v > max_int64 then Inl ErrOverflow
     else Inr (AList.update k (v + gm_getd 0 rm k) rm))"
proof (cases "sint v < 0")
  case True
  then show ?thesis by (simp add: rm_add_def minAllowedInput_def)
next
  case False
  show ?thesis
  proof (cases "map_of rm k")
    case None
    with False show ?thesis
      by (simp add: rm_add_def minAllowedInput_def amount_def gm_getd_def)
        (metis linorder_not_less sint_le_max)
  next
    case (Some old)
    with assms have "0 \<le> sint old" by (rule sane_nonneg)
    with False Some show ?thesis
      using add_int64_nonneg(1) [of v old]
      by (auto simp: rm_add_def minAllowedInput_def amount_def gm_getd_def Let_def)
  qed
qed

lemma rm_add_amount:
  assumes "sane rm" "rm_add rm k v = Inr rm'"
  shows "sane rm'" "fst ` set rm' = insert k (fst ` set rm)"
    "amount rm' j = amount rm j + (if j = k then sint v else 0)"
proof -
  from assms have v: "0 \<le> sint v" and le: "amount rm k + sint v \<le> max_int64"
    and rm': "rm' = AList.update k (v + gm_getd 0 rm k) rm"
    by (auto simp: rm_add_cases split: if_splits)
  have "sint (v + gm_getd 0 rm k) = sint v + amount rm k"
    using v le assms(1) add_int64_nonneg(2) [of v "gm_getd 0 rm k"] amount_nonneg [of rm k]
    by (simp add: amount_def)
  with rm' v assms(1) show "amount rm' j = amount rm j + (if j = k then sint v else 0)"
    and "sane rm'" and "fst ` set rm' = insert k (fst ` set rm)"
    by auto
qed

lemma rm_subtract_cases:
  assumes "sane rm"
  shows "rm_subtract rm k v =
    (if sint v < 0 \<or> k \<notin> fst ` set rm then Inl ErrInput
     else Inr (AList.update k (if amount rm k < sint v then 0 else gm_getd 0 rm k - v) rm))"
proof (cases "sint v < 0 \<or> k \<notin> fst ` set rm")
  case True
  then show ?thesis
    by (auto simp: rm_subtract_def minAllowedInput_def split: option.splits)
      (metis map_of_None_keys option.distinct(1))
next
  case False
  then obtain old where Some: "map_of rm k = Some old"
    by (auto simp: map_of_Some_keys)
  with assms have "0 \<le> sint old" by (rule sane_nonneg)
  with False Some show ?thesis
    by (auto simp: rm_subtract_def minAllowedInput_def amount_def gm_getd_def Let_def
        sub_int64_nonneg)
qed

lemma rm_subtract_amount:
  assumes "sane rm" "rm_subtract rm k v = Inr rm'"
  shows "sane rm'" "fst ` set rm' = fst ` set rm"
    "amount rm' j = (if j = k then max 0 (amount rm j - sint v) else amount rm j)"
proof -
  from assms have v: "0 \<le> sint v" and k: "k \<in> fst ` set rm"
    and rm': "rm' = AList.update k (if amount rm k < sint v then 0 else gm_getd 0 rm k - v) rm"
    by (auto simp: rm_subtract_cases split: if_splits)
  have "sint (gm_getd 0 rm k - v) = amount rm k - sint v"
    using v assms(1) amount_nonneg [of rm k] by (simp add: amount_def sub_int64_nonneg)
  with rm' v k assms(1)
  show "sane rm'" "fst ` set rm' = fst ` set rm"
    "amount rm' j = (if j = k then max 0 (amount rm j - sint v) else amount rm j)"
    by auto
qed

subsection \<open>All resources of a request\<close>

text \<open>
  The contract of the operation on one resource, from which the contract of the operation on
  a whole request follows: \<open>eff\<close> is its effect on the amount, \<open>admits\<close> the requests it accepts.
\<close>

locale rm_step =
  fixes step :: "resource_map \<Rightarrow> string \<Rightarrow> int64 \<Rightarrow> gas_error + resource_map"
    and eff :: "int \<Rightarrow> int \<Rightarrow> int"
    and admits :: "resource_map \<Rightarrow> string \<Rightarrow> int64 \<Rightarrow> bool"
  assumes step_iff: "sane m \<Longrightarrow> (\<exists>m'. step m k v = Inr m') \<longleftrightarrow> admits m k v"
    and step_sane: "sane m \<Longrightarrow> step m k v = Inr m' \<Longrightarrow> sane m'"
    and step_keys: "sane m \<Longrightarrow> step m k v = Inr m' \<Longrightarrow> fst ` set m' = insert k (fst ` set m)"
    and step_amount: "sane m \<Longrightarrow> step m k v = Inr m' \<Longrightarrow>
      amount m' j = (if j = k then eff (amount m k) (sint v) else amount m j)"
    and admits_other: "sane m \<Longrightarrow> step m k v = Inr m' \<Longrightarrow> j \<noteq> k \<Longrightarrow> admits m' j w \<longleftrightarrow> admits m j w"
    and eff_zero: "0 \<le> a \<Longrightarrow> eff a 0 = a"
begin

lemma loop_result:
  assumes "efold (\<lambda>(key, value) m. step m key value) src m = Inr m'" "sane m" "wf_map src"
  shows "sane m' \<and> fst ` set m' = fst ` set src \<union> fst ` set m \<and>
    (\<forall>k. amount m' k = eff (amount m k) (amount src k))"
  using assms
proof (induction src arbitrary: m)
  case Nil
  then show ?case by (simp add: eff_zero)
next
  case (Cons kv src)
  obtain j v where kv: "kv = (j, v)" by (cases kv)
  with Cons.prems obtain m1 where m1: "step m j v = Inr m1"
    and rest: "efold (\<lambda>(key, value) m. step m key value) src m1 = Inr m'"
    by (auto split: sum.splits)
  from Cons.prems kv have j: "j \<notin> fst ` set src" and src: "wf_map src" and m: "sane m"
    by (auto simp: wf_map_Cons)
  have s1: "sane m1" using m m1 by (rule step_sane)
  then have "eff (amount m1 j) 0 = amount m1 j" by (simp add: eff_zero)
  with Cons.IH [OF rest s1 src] step_keys [OF m m1] step_amount [OF m m1] j show ?case
    by (auto simp: kv)
qed

lemma loop_iff:
  assumes "sane m" "wf_map src"
  shows "(\<exists>m'. efold (\<lambda>(key, value) m. step m key value) src m = Inr m') \<longleftrightarrow>
    (\<forall>(k, v) \<in> set src. admits m k v)"
  using assms
proof (induction src arbitrary: m)
  case Nil
  then show ?case by simp
next
  case (Cons kv src)
  obtain j v where kv: "kv = (j, v)" by (cases kv)
  from Cons.prems kv have j: "j \<notin> fst ` set src" and src: "wf_map src" and m: "sane m"
    by (auto simp: wf_map_Cons)
  show ?case
  proof (cases "step m j v")
    case (Inl e)
    then have "\<not> admits m j v" using step_iff [OF m, of j v] by simp
    with Inl kv show ?thesis by simp
  next
    case (Inr m1)
    then have "admits m j v" using step_iff [OF m, of j v] by simp
    moreover have "(\<forall>(k, v) \<in> set src. admits m1 k v) \<longleftrightarrow> (\<forall>(k, v) \<in> set src. admits m k v)"
    proof (rule ball_cong [OF refl])
      fix x assume "x \<in> set src"
      with j have "fst x \<noteq> j" by auto
      then show "(case x of (k, v) \<Rightarrow> admits m1 k v) \<longleftrightarrow> (case x of (k, v) \<Rightarrow> admits m k v)"
        using admits_other [OF m Inr] by (cases x) simp
    qed
    ultimately show ?thesis
      using Inr kv Cons.IH [OF step_sane [OF m Inr] src] by simp
  qed
qed

end

text \<open>
  The contract of a whole request, which the node cache and the scheduler rely on. A second
  request adds to the effect of the first (\<open>eff_eff\<close>).
\<close>

locale rm_operation =
  fixes upd :: "resource_map \<Rightarrow> resource_map \<Rightarrow> gas_error + resource_map"
    and eff :: "int \<Rightarrow> int \<Rightarrow> int"
    and admits :: "resource_map \<Rightarrow> string \<Rightarrow> int64 \<Rightarrow> bool"
  assumes upd_iff: "sane rm \<Longrightarrow> wf_map req \<Longrightarrow>
      (\<exists>rm'. upd rm req = Inr rm') \<longleftrightarrow> (\<forall>(k, v) \<in> set req. admits rm k v)"
    and upd_result: "sane rm \<Longrightarrow> wf_map req \<Longrightarrow> upd rm req = Inr rm' \<Longrightarrow>
      sane rm' \<and> fst ` set rm' = fst ` set req \<union> fst ` set rm \<and>
      (\<forall>k. amount rm' k = eff (amount rm k) (amount req k))"
    and eff_zero: "0 \<le> a \<Longrightarrow> eff a 0 = a"
    and eff_eff: "0 \<le> a \<Longrightarrow> 0 \<le> b \<Longrightarrow> 0 \<le> c \<Longrightarrow> eff (eff a b) c = eff a (b + c)"
    and eff_nonneg: "0 \<le> a \<Longrightarrow> 0 \<le> b \<Longrightarrow> 0 \<le> eff a b"
begin

lemma upd_sane [intro]: "sane rm \<Longrightarrow> wf_map req \<Longrightarrow> upd rm req = Inr rm' \<Longrightarrow> sane rm'"
  using upd_result by blast

lemma upd_keys: "sane rm \<Longrightarrow> wf_map req \<Longrightarrow> upd rm req = Inr rm' \<Longrightarrow>
    fst ` set rm' = fst ` set req \<union> fst ` set rm"
  using upd_result by blast

lemma upd_amount: "sane rm \<Longrightarrow> wf_map req \<Longrightarrow> upd rm req = Inr rm' \<Longrightarrow>
    amount rm' k = eff (amount rm k) (amount req k)"
  using upd_result by blast

end

lemma rm_operation_from_step:
  assumes st: "rm_step step eff admits"
    and ee: "\<And>a b c. 0 \<le> a \<Longrightarrow> 0 \<le> b \<Longrightarrow> 0 \<le> c \<Longrightarrow> eff (eff a b) c = eff a (b + c)"
    and en: "\<And>a b. 0 \<le> a \<Longrightarrow> 0 \<le> b \<Longrightarrow> 0 \<le> eff a b"
    and op: "\<And>rm src. upd rm src =
      (case efold (\<lambda>(key, value) mapCopy. step mapCopy key value) src (newCopy rm) of
         Inl err \<Rightarrow> Inl err | Inr mapCopy \<Rightarrow> Inr (copyFrom rm mapCopy))"
  shows "rm_operation upd eff admits"
proof
  fix rm req :: resource_map
  assume s: "sane rm" and w: "wf_map req"
  then have nc: "newCopy rm = rm" by auto
  show "(\<exists>rm'. upd rm req = Inr rm') \<longleftrightarrow> (\<forall>(k, v) \<in> set req. admits rm k v)"
    using rm_step.loop_iff [OF st s w] by (auto simp: op nc split: sum.splits)
  fix rm' assume "upd rm req = Inr rm'"
  then obtain mc where mc: "efold (\<lambda>(key, value) m. step m key value) req rm = Inr mc"
    and rm': "rm' = copyFrom rm mc"
    by (auto simp: op nc split: sum.splits)
  from rm_step.loop_result [OF st mc s w] s
  show "sane rm' \<and> fst ` set rm' = fst ` set req \<union> fst ` set rm \<and>
      (\<forall>k. amount rm' k = eff (amount rm k) (amount req k))"
    by (auto simp: rm' amount_copyFrom rm_step.eff_zero [OF st])
next
  fix a :: int assume "0 \<le> a" then show "eff a 0 = a" by (rule rm_step.eff_zero [OF st])
next
  fix a b c :: int assume "0 \<le> a" "0 \<le> b" "0 \<le> c"
  then show "eff (eff a b) c = eff a (b + c)" by (rule ee)
next
  fix a b :: int assume "0 \<le> a" "0 \<le> b"
  then show "0 \<le> eff a b" by (rule en)
qed

definition add_admits :: "resource_map \<Rightarrow> string \<Rightarrow> int64 \<Rightarrow> bool" where
  "add_admits rm k v \<longleftrightarrow> 0 \<le> sint v \<and> amount rm k + sint v \<le> max_int64"

definition sub_admits :: "resource_map \<Rightarrow> string \<Rightarrow> int64 \<Rightarrow> bool" where
  "sub_admits rm k v \<longleftrightarrow> 0 \<le> sint v \<and> k \<in> fst ` set rm"

definition sub_eff :: "int \<Rightarrow> int \<Rightarrow> int" where
  "sub_eff a b = max 0 (a - b)"

interpretation add_step: rm_step rm_add "(+)" add_admits
proof
  fix m m' :: resource_map and k j v w
  assume m: "sane m"
  then show "(\<exists>m'. rm_add m k v = Inr m') \<longleftrightarrow> add_admits m k v"
    by (auto simp: rm_add_cases add_admits_def)
  assume st: "rm_add m k v = Inr m'"
  note am = rm_add_amount [OF m st]
  show "sane m'" "fst ` set m' = insert k (fst ` set m)"
    "amount m' j = (if j = k then amount m k + sint v else amount m j)"
    using am by simp_all
  assume "j \<noteq> k"
  then show "add_admits m' j w \<longleftrightarrow> add_admits m j w"
    using am by (simp add: add_admits_def)
qed simp

interpretation sub_step: rm_step rm_subtract sub_eff sub_admits
proof
  fix m m' :: resource_map and k j v w
  assume m: "sane m"
  then show "(\<exists>m'. rm_subtract m k v = Inr m') \<longleftrightarrow> sub_admits m k v"
    by (auto simp: rm_subtract_cases sub_admits_def)
  assume st: "rm_subtract m k v = Inr m'"
  note am = rm_subtract_amount [OF m st]
  have "k \<in> fst ` set m"
    using st m by (auto simp: rm_subtract_cases split: if_splits)
  then show "sane m'" "fst ` set m' = insert k (fst ` set m)"
    "amount m' j = (if j = k then sub_eff (amount m k) (sint v) else amount m j)"
    using am by (auto simp: sub_eff_def)
  show "sub_admits m' j w \<longleftrightarrow> sub_admits m j w"
    using am by (simp add: sub_admits_def)
qed (simp add: sub_eff_def)

interpretation addrm: rm_operation addRM "(+)" add_admits
  by (rule rm_operation_from_step [OF add_step.rm_step_axioms]) (simp_all add: addRM_def)

interpretation subrm: rm_operation subtractRM sub_eff sub_admits
  by (rule rm_operation_from_step [OF sub_step.rm_step_axioms])
    (simp_all add: subtractRM_def sub_eff_def)

text \<open>
  Releasing what was added restores the amounts: every resource of the request is then
  present and large enough.
\<close>

lemma subtract_after_add:
  assumes "sane rm" "wf_map req" "addRM rm req = Inr rm1"
  shows "\<exists>rm2. subtractRM rm1 req = Inr rm2 \<and> sane rm2 \<and> (\<forall>k. amount rm2 k = amount rm k)"
proof -
  have s1: "sane rm1" and keys: "fst ` set rm1 = fst ` set req \<union> fst ` set rm"
    and am1: "\<And>k. amount rm1 k = amount rm k + amount req k"
    using addrm.upd_result [OF assms] by auto
  have req: "\<forall>(k, v) \<in> set req. 0 \<le> sint v"
    using addrm.upd_iff [OF assms(1,2)] assms(3) by (auto simp: add_admits_def)
  have "\<forall>(k, v) \<in> set req. sub_admits rm1 k v"
    using req by (force simp: sub_admits_def keys)
  then obtain rm2 where rm2: "subtractRM rm1 req = Inr rm2"
    using subrm.upd_iff [OF s1 assms(2)] by blast
  have "sane req"
    using assms(2) req by (simp add: sane_def)
  then have "amount rm2 k = amount rm k" for k
    using subrm.upd_amount [OF s1 assms(2) rm2, of k] am1 assms(1) amount_nonneg
    by (simp add: sub_eff_def)
  then show ?thesis
    using rm2 subrm.upd_sane [OF s1 assms(2) rm2] by blast
qed

subsection \<open>Sharing a request between cards\<close>

lemma map_of_divide:
  "map_of (map (\<lambda>(key, value). (key, f value)) rm) k = map_option f (map_of rm k)"
  by (induction rm) auto

lemma rm_divide_Inr_iff: "(\<exists>rm'. rm_divide rm d = Inr rm') \<longleftrightarrow> 1 \<le> d"
  by (simp add: rm_divide_def)

lemma rm_divide_keys: "rm_divide rm d = Inr rm' \<Longrightarrow> map fst rm' = map fst rm"
  by (auto simp: rm_divide_def split: if_splits prod.splits intro: map_cong)

lemma rm_divide_wf: "rm_divide rm d = Inr rm' \<Longrightarrow> wf_map rm' = wf_map rm"
  by (simp add: wf_map_def rm_divide_keys)

lemma rm_divide_amount:
  assumes "sane rm" "rm_divide rm d = Inr rm'"
  shows "sane rm'" "amount rm' k = amount rm k div d"
proof -
  have d: "1 \<le> d" using assms(2) by (auto simp: rm_divide_def split: if_splits)
  have mo: "map_of rm' k = map_option (\<lambda>v. div_int64 v d) (map_of rm k)" if "d \<noteq> 1" for k
    using assms(2) that by (auto simp: rm_divide_def map_of_divide split: if_splits)
  have one: "d = 1 \<Longrightarrow> rm' = rm"
    using assms(2) by (simp add: rm_divide_def)
  have nn: "map_of rm k = Some v \<Longrightarrow> 0 \<le> sint v" for k v
    using assms(1) by (rule sane_nonneg)
  show "sane rm'"
    using assms one mo d nn rm_divide_wf [OF assms(2)]
    by (cases "d = 1") (auto simp: sane_iff sint_div_int64 pos_imp_zdiv_nonneg_iff)
  show "amount rm' k = amount rm k div d"
    using one mo [of k] d nn [of k]
    by (cases "d = 1") (auto simp: amount_def gm_getd_def sint_div_int64 split: option.splits)
qed

subsection \<open>Properties\<close>

text \<open>C40: adding a request to a sane resource map either adds every amount exactly, without
  wrapping and keeping the map sane, or fails because some amount of the request is negative or
  some sum exceeds the largest \<^verbatim>\<open>int64\<close>; the order in which the request is ranged over plays no
  part.\<close>

theorem addRM_spec:
  assumes "sane rm" "wf_map src"
  shows "case addRM rm src of
      Inr rm' \<Rightarrow> sane rm' \<and> (\<forall>k. amount rm' k = amount rm k + amount src k)
    | Inl err \<Rightarrow> \<exists>(k, v) \<in> set src. sint v < 0 \<or> max_int64 < amount rm k + sint v"
proof (cases "addRM rm src")
  case (Inl err)
  with addrm.upd_iff [OF assms] show ?thesis
    by (force simp: add_admits_def not_le split_beta)
next
  case (Inr rm')
  with addrm.upd_result [OF assms Inr] show ?thesis by simp
qed

theorem addRM_spec_witness:
  "addRM [(''tiles'', 2)] [(''i915'', 1), (''tiles'', 3)] = Inr [(''tiles'', 5), (''i915'', 1)] \<and>
   amount [(''tiles'', 5), (''i915'', 1)] ''tiles'' = 2 + 3 \<and>
   addRM [(''tiles'', 2)] [(''tiles'', 9223372036854775807)] = Inl ErrOverflow"
proof -
  have eval: "addRM [(''tiles'', 2)] [(''i915'', 1), (''tiles'', 3)] = Inr [(''tiles'', 5), (''i915'', 1)]"
    "addRM [(''tiles'', 2)] [(''tiles'', 9223372036854775807)] = Inl ErrOverflow"
    by code_simp+
  have "sane [(''tiles'', 2)]" "wf_map [(''i915'', 1 :: int64), (''tiles'', 3)]"
    by (simp_all add: sane_def wf_map_def)
  from addRM_spec [OF this] eval show ?thesis by simp
qed

text \<open>Subtracting a request from a sane resource map either lowers every amount by the
  amount requested, stopping at zero, and keeps the map sane, or fails because some amount of the
  request is negative or names a resource the map does not have.\<close>

theorem subtractRM_spec:
  assumes "sane rm" "wf_map src"
  shows "case subtractRM rm src of
      Inr rm' \<Rightarrow> sane rm' \<and> (\<forall>k. amount rm' k = max 0 (amount rm k - amount src k))
    | Inl err \<Rightarrow> \<exists>(k, v) \<in> set src. sint v < 0 \<or> map_of rm k = None"
proof (cases "subtractRM rm src")
  case (Inl err)
  with subrm.upd_iff [OF assms] show ?thesis
    by (force simp: sub_admits_def map_of_None_keys not_le split_beta)
next
  case (Inr rm')
  with subrm.upd_result [OF assms Inr] show ?thesis by (simp add: sub_eff_def)
qed

theorem subtractRM_spec_witness:
  "subtractRM [(''tiles'', 2), (''i915'', 4)] [(''i915'', 1), (''tiles'', 3)] =
     Inr [(''tiles'', 0), (''i915'', 3)] \<and>
   amount [(''tiles'', 0), (''i915'', 3)] ''tiles'' = max 0 (2 - 3)"
proof -
  have eval: "subtractRM [(''tiles'', 2), (''i915'', 4)] [(''i915'', 1), (''tiles'', 3)] =
     Inr [(''tiles'', 0), (''i915'', 3)]"
    by code_simp
  have "sane [(''tiles'', 2), (''i915'', 4)]" "wf_map [(''i915'', 1 :: int64), (''tiles'', 3)]"
    by (simp_all add: sane_def wf_map_def)
  from subtractRM_spec [OF this] eval show ?thesis by simp
qed

end
