(* ===== verification/Go_Strings.thy ===== *)
theory Go_Strings
  imports PAS_Prelude "HOL-Library.Sublist" "HOL-Library.List_Lexorder" "HOL-Library.Char_ord"
begin

text \<open>
  The part of Go's \<^verbatim>\<open>strings\<close>, \<^verbatim>\<open>strconv\<close>, \<^verbatim>\<open>sort\<close> and \<^verbatim>\<open>regexp\<close> packages that the sources use.
  A Go string is a list of bytes. \<^verbatim>\<open>sort.Strings\<close> is \<^const>\<open>sort\<close> for the bytewise lexicographic
  order (\<^verbatim>\<open>List_Lexorder\<close>, \<^verbatim>\<open>Char_ord\<close>).
\<close>

subsection \<open>strings\<close>

definition trim_prefix :: "string \<Rightarrow> string \<Rightarrow> string" where
  "trim_prefix p s = (if prefix p s then drop (length p) s else s)"

text \<open>\<^verbatim>\<open>strings.Split\<close> for a separator of one byte.\<close>

fun split_on :: "char \<Rightarrow> string \<Rightarrow> string list" where
  "split_on c [] = [[]]"
| "split_on c (x # xs) =
     (if x = c then [] # split_on c xs
      else (case split_on c xs of [] \<Rightarrow> [[x]] | y # ys \<Rightarrow> (x # y) # ys))"

text \<open>The strings the sources build piece by piece, a delimiter before every piece but the first.\<close>

fun join_with :: "char \<Rightarrow> string list \<Rightarrow> string" where
  "join_with c [] = []"
| "join_with c [x] = x"
| "join_with c (x # y # ys) = x @ c # join_with c (y # ys)"

lemma split_on_not_Nil [simp]: "split_on c s \<noteq> []"
  by (cases s) (auto split: list.splits)

lemma length_split_on [simp]: "0 < length (split_on c s)"
  by simp

lemma split_on_no_sep: "c \<notin> set s \<Longrightarrow> split_on c s = [s]"
  by (induction s) auto

lemma split_on_append: "c \<notin> set x \<Longrightarrow> split_on c (x @ c # s) = x # split_on c s"
  by (induction x) auto

lemma split_on_elem: "x \<in> set (split_on c s) \<Longrightarrow> c \<notin> set x"
  by (induction s arbitrary: x) (auto split: if_splits list.splits)

lemma split_on_join:
  "xs \<noteq> [] \<Longrightarrow> (\<And>x. x \<in> set xs \<Longrightarrow> c \<notin> set x) \<Longrightarrow> split_on c (join_with c xs) = xs"
  by (induction c xs rule: join_with.induct) (auto simp: split_on_no_sep split_on_append)

lemma join_with_Cons: "xs \<noteq> [] \<Longrightarrow> join_with c (x # xs) = x @ c # join_with c xs"
  by (cases xs) auto

lemma join_split_on: "join_with c (split_on c s) = s"
proof (induction s)
  case Nil
  then show ?case by simp
next
  case (Cons x xs)
  obtain y ys where y: "split_on c xs = y # ys"
    by (cases "split_on c xs") auto
  with Cons show ?case by (cases ys) auto
qed

lemma set_join_with: "set (join_with c xs) \<subseteq> insert c (\<Union> (set ` set xs))"
  by (induction c xs rule: join_with.induct) auto

subsection \<open>strconv\<close>

definition digit_char :: "nat \<Rightarrow> char" where
  "digit_char d = char_of (48 + d)"

definition is_digit :: "char \<Rightarrow> bool" where
  "is_digit c \<longleftrightarrow> 48 \<le> (of_char c :: nat) \<and> (of_char c :: nat) \<le> 57"

definition digit_val :: "char \<Rightarrow> nat" where
  "digit_val c = of_char c - 48"

fun itoa_nat :: "nat \<Rightarrow> string" where
  "itoa_nat n = (if n < 10 then [digit_char n] else itoa_nat (n div 10) @ [digit_char (n mod 10)])"

declare itoa_nat.simps [simp del]

definition itoa :: "int \<Rightarrow> string" where
  "itoa i = (if i < 0 then CHR ''-'' # itoa_nat (nat (- i)) else itoa_nat (nat i))"

definition parse_digits :: "string \<Rightarrow> nat" where
  "parse_digits s = foldl (\<lambda>n c. 10 * n + digit_val c) 0 s"

text \<open>
  \<^verbatim>\<open>strconv.ParseInt(s, 10, bits)\<close>: the value and whether the conversion succeeded. Out of range
  the value is the nearest bound, on a syntax error it is 0. The sources look at the value of
  a failed conversion for strings of digits only, where it is exact.
\<close>

definition parse_int :: "nat \<Rightarrow> string \<Rightarrow> int \<times> bool" where
  "parse_int bits s =
     (let neg = (s \<noteq> [] \<and> hd s = CHR ''-'');
          ds = (if s \<noteq> [] \<and> (hd s = CHR ''-'' \<or> hd s = CHR ''+'') then tl s else s);
          cutoff = 2 ^ (bits - 1)
      in if ds = [] \<or> \<not> list_all is_digit ds then (0, False)
         else let n = int (parse_digits ds)
              in if \<not> neg \<and> cutoff \<le> n then (cutoff - 1, False)
                 else if neg \<and> cutoff < n then (- cutoff, False)
                 else (if neg then - n else n, True))"

definition atoi :: "string \<Rightarrow> int \<times> bool" where
  "atoi s = parse_int 64 s"

lemma of_char_digit: "d < 10 \<Longrightarrow> of_char (digit_char d) = 48 + d"
  by (simp add: digit_char_def)

lemma is_digit_char [simp]: "d < 10 \<Longrightarrow> is_digit (digit_char d)"
  by (simp add: is_digit_def of_char_digit)

lemma digit_val_char [simp]: "d < 10 \<Longrightarrow> digit_val (digit_char d) = d"
  by (simp add: digit_val_def of_char_digit)

lemma itoa_nat_digits: "list_all is_digit (itoa_nat n)"
proof (induction n rule: itoa_nat.induct)
  case (1 n)
  then show ?case by (cases "n < 10") (simp_all add: itoa_nat.simps [of n])
qed

lemma itoa_nat_not_Nil [simp]: "itoa_nat n \<noteq> []"
  by (simp add: itoa_nat.simps [of n])

lemma parse_digits_snoc: "parse_digits (s @ [c]) = 10 * parse_digits s + digit_val c"
  by (simp add: parse_digits_def)

lemma parse_digits_itoa_nat [simp]: "parse_digits (itoa_nat n) = n"
proof (induction n rule: itoa_nat.induct)
  case (1 n)
  show ?case
  proof (cases "n < 10")
    case True
    then show ?thesis by (simp add: itoa_nat.simps [of n] parse_digits_def)
  next
    case False
    with 1 show ?thesis by (simp add: itoa_nat.simps [of n] parse_digits_snoc)
  qed
qed

lemma itoa_nat_inject [simp]: "itoa_nat m = itoa_nat n \<longleftrightarrow> m = n"
  by (metis parse_digits_itoa_nat)

lemma digit_not_sign: "is_digit c \<Longrightarrow> c \<noteq> CHR ''-'' \<and> c \<noteq> CHR ''+''"
  by (auto simp: is_digit_def)

lemma hd_itoa_nat: "is_digit (hd (itoa_nat n))"
  using itoa_nat_digits [of n] by (cases "itoa_nat n") (auto simp: itoa_nat_not_Nil)

lemma itoa_nonneg: "0 \<le> i \<Longrightarrow> itoa i = itoa_nat (nat i)"
  by (simp add: itoa_def)

lemma itoa_inject: "itoa i = itoa j \<longleftrightarrow> i = j"
proof -
  have neq: "CHR ''-'' # s \<noteq> itoa_nat n" for s n
    using hd_itoa_nat [of n] digit_not_sign by (metis list.sel(1))
  show ?thesis
    using neq neq [symmetric] by (auto simp: itoa_def split: if_splits)
qed

lemma parse_int_digits:
  assumes "ds \<noteq> []" "list_all is_digit ds"
  shows "parse_int bits ds =
    (if 2 ^ (bits - 1) \<le> int (parse_digits ds) then (2 ^ (bits - 1) - 1, False)
     else (int (parse_digits ds), True))"
proof -
  have "hd ds \<noteq> CHR ''-''" "hd ds \<noteq> CHR ''+''"
    using assms digit_not_sign by (cases ds; force)+
  with assms show ?thesis by (simp add: parse_int_def Let_def)
qed

lemma parse_int_itoa:
  assumes "- (2 ^ (bits - 1)) \<le> i" "i < 2 ^ (bits - 1)"
  shows "parse_int bits (itoa i) = (i, True)"
proof (cases "i < 0")
  case True
  with assms show ?thesis
    using itoa_nat_digits [of "nat (- i)"] by (simp add: itoa_def parse_int_def Let_def)
next
  case False
  with assms show ?thesis
    by (simp add: itoa_nonneg parse_int_digits itoa_nat_digits)
qed

lemma atoi_itoa: "- (2 ^ 63) \<le> i \<Longrightarrow> i < 2 ^ 63 \<Longrightarrow> atoi (itoa i) = (i, True)"
  by (simp add: atoi_def parse_int_itoa)

lemma itoa_nonneg_chars: "0 \<le> i \<Longrightarrow> c \<in> set (itoa i) \<Longrightarrow> is_digit c"
  using itoa_nat_digits [of "nat i"] by (auto simp: itoa_nonneg list_all_iff)

subsection \<open>Leading runs of digits, for the regular expressions\<close>

text \<open>
  Both expressions the sources compile are sequences of literals and \<^verbatim>\<open>([0-9]+)\<close> groups, every
  group followed by a literal that is no digit or by the end of the text, so that a match
  takes the longest run of digits.
\<close>

definition digits_then :: "string \<Rightarrow> string \<Rightarrow> (string \<times> string) option" where
  "digits_then lit s =
     (let ds = takeWhile is_digit s; rest = dropWhile is_digit s
      in if ds \<noteq> [] \<and> prefix lit rest then Some (ds, drop (length lit) rest) else None)"

lemma digits_then_app:
  assumes "ds \<noteq> []" "list_all is_digit ds" "\<not> is_digit c"
  shows "digits_then (c # lit) (ds @ c # lit @ s) = Some (ds, s)"
proof -
  have "takeWhile is_digit (ds @ c # lit @ s) = ds"
    using assms by (simp add: list_all_iff takeWhile_append)
  moreover have "dropWhile is_digit (ds @ c # lit @ s) = c # lit @ s"
    using assms by (simp add: list_all_iff dropWhile_append)
  ultimately show ?thesis using assms by (simp add: digits_then_def Let_def)
qed

lemma digits_then_end:
  assumes "ds \<noteq> []" "list_all is_digit ds"
  shows "digits_then [] ds = Some (ds, [])"
  using assms by (cases ds) (auto simp: digits_then_def Let_def list_all_iff)

lemma digits_then_digits:
  "digits_then lit s = Some (ds, r) \<Longrightarrow> ds \<noteq> [] \<and> list_all is_digit ds \<and> s = ds @ lit @ r"
proof -
  assume a: "digits_then lit s = Some (ds, r)"
  then have ds: "ds = takeWhile is_digit s" "ds \<noteq> []" and p: "prefix lit (dropWhile is_digit s)"
    and r: "r = drop (length lit) (dropWhile is_digit s)"
    by (auto simp: digits_then_def Let_def split: if_splits)
  from p r have "dropWhile is_digit s = lit @ r"
    by (auto elim: prefixE)
  with ds have "s = ds @ lit @ r"
    by (metis takeWhile_dropWhile_id)
  moreover have "list_all is_digit ds"
    unfolding list_all_iff ds(1) by (auto dest: set_takeWhileD)
  ultimately show ?thesis using ds(2) by simp
qed

end
