(* ===== verification/Kube_Objects.thy ===== *)
theory Kube_Objects
  imports Resource_Map Go_Strings
begin

text \<open>
  The fields of the Kubernetes API objects that \<^verbatim>\<open>gpuscheduler\<close> reads. A resource quantity is
  represented by the value \<^verbatim>\<open>AsInt64\<close> gives for it, which is all the sources look at.
  Annotations and labels may be nil.
\<close>

subsection \<open>Pods\<close>

datatype pod_phase = PodPending | PodRunning | PodSucceeded | PodFailed | PodUnknown

record container =
  container_name :: string
  requests :: resource_map

record pod =
  pod_name :: string
  pod_namespace :: string
  pod_uid :: string
  pod_annotations :: "(string, string) gomap option"
  deletion_timestamp :: bool
  phase :: pod_phase
  pod_node_name :: string
  containers :: "container list"

subsection \<open>Nodes\<close>

record node =
  node_name :: string
  node_labels :: "(string, string) gomap option"
  node_capacity :: resource_map
  node_allocatable :: resource_map

subsection \<open>Well-formedness\<close>

text \<open>The maps of an object have one entry per key, as every Go map does.\<close>

definition wf_pod :: "pod \<Rightarrow> bool" where
  "wf_pod p \<longleftrightarrow> wf_map (nil_entries (pod_annotations p)) \<and>
     (\<forall>c \<in> set (containers p). wf_map (requests c))"

definition wf_node :: "node \<Rightarrow> bool" where
  "wf_node n \<longleftrightarrow> wf_map (nil_entries (node_labels n)) \<and>
     wf_map (node_capacity n) \<and> wf_map (node_allocatable n)"

end
