(* ===== verification/Gpu_Labels.thy ===== *)
theory Gpu_Labels
  imports Kube_Objects
begin

text \<open>
  \<^verbatim>\<open>gpu-aware-scheduling/pkg/gpuscheduler/utils.go\<close>: what GAS reads out of node labels, pod specs
  and annotations. Labels hold lists in ad-hoc syntaxes (dots, underscores, regular
  expressions); long values are split over several labels. Functions that can panic on a
  malformed value return \<^const>\<open>None\<close> there.
\<close>

subsection \<open>Constants\<close>

definition resourcePrefix :: string where "resourcePrefix = ''gpu.intel.com/''"
definition gpuPrefix :: string where "gpuPrefix = ''gpu.intel.com/''"
definition pciGroupLabel :: string where "pciGroupLabel = ''gpu.intel.com/pci-groups''"
definition xeLinksLabel :: string where "xeLinksLabel = ''gpu.intel.com/xe-links''"
definition labelControlChar :: string where "labelControlChar = ''Z''"
definition desiredIntBits :: nat where "desiredIntBits = 16"
definition tasNSPrefix :: string where "tasNSPrefix = ''telemetry.aware.scheduling.''"
definition tileDisableLabelPrefix :: string where "tileDisableLabelPrefix = ''gas-tile-disable-''"
definition tileDeschedLabelPrefix :: string where "tileDeschedLabelPrefix = ''gas-tile-deschedule-''"
definition tilePrefLabelPrefix :: string where "tilePrefLabelPrefix = ''gas-tile-preferred-''"
definition cardPrefix :: string where "cardPrefix = ''card''"
definition gpuNumbersLabel :: string where "gpuNumbersLabel = gpuPrefix @ ''gpu-numbers''"
definition i915PluginResource :: string where "i915PluginResource = gpuPrefix @ ''i915''"
definition xePluginResource :: string where "xePluginResource = gpuPrefix @ ''xe''"
definition gpuTileResource :: string where "gpuTileResource = gpuPrefix @ ''tiles''"

lemmas label_consts = resourcePrefix_def gpuPrefix_def pciGroupLabel_def xeLinksLabel_def
  labelControlChar_def tasNSPrefix_def tileDisableLabelPrefix_def tileDeschedLabelPrefix_def
  tilePrefLabelPrefix_def cardPrefix_def gpuNumbersLabel_def i915PluginResource_def
  xePluginResource_def gpuTileResource_def

type_synonym tiles_map = "(string, int list) gomap"

subsection \<open>Slices\<close>

primrec index_of :: "'a list \<Rightarrow> 'a \<Rightarrow> nat option" where
  "index_of [] value = None"
| "index_of (v # values) value =
     (if v = value then Some 0 else map_option Suc (index_of values value))"

definition containsInt :: "int list \<Rightarrow> int \<Rightarrow> bool \<times> int" where
  "containsInt values value =
     (case index_of values value of Some index \<Rightarrow> (True, int index) | None \<Rightarrow> (False, -1))"

definition containsString :: "string list \<Rightarrow> string \<Rightarrow> bool" where
  "containsString values value \<longleftrightarrow> list_ex (\<lambda>v. v = value) values"

definition reorder_step :: "int \<Rightarrow> int list \<times> nat \<Rightarrow> int list \<times> nat" where
  "reorder_step pref st =
     (case st of (tiles, indexNow) \<Rightarrow>
        (case index_of tiles pref of
           None \<Rightarrow> (tiles, indexNow)
         | Some index \<Rightarrow>
             (if indexNow < index then tiles[indexNow := pref, index := tiles ! indexNow] else tiles,
              Suc indexNow)))"

definition reorderPreferredTilesFirst :: "int list \<Rightarrow> int list \<Rightarrow> int list" where
  "reorderPreferredTilesFirst tiles preferred = fst (fold reorder_step preferred (tiles, 0))"

subsection \<open>Pod specs\<close>

text \<open>The index set of the containers in the same-gpu list, and all requests of GPU resources.\<close>

definition container_request :: "container \<Rightarrow> resource_map" where
  "container_request c =
     fold (\<lambda>(name, value) resMap.
         if prefix gpuPrefix name then AList.update name value resMap else resMap)
       (requests c) []"

definition containerRequests ::
  "pod \<Rightarrow> string search_map \<Rightarrow> nat search_map \<times> resource_map list" where
  "containerRequests pod samegpuContainerNames =
     (filter (\<lambda>idx. container_name (containers pod ! idx) \<in> set samegpuContainerNames)
        [0..<length (containers pod)],
      map container_request (containers pod))"

definition hasGPUCapacity :: "node option \<Rightarrow> bool" where
  "hasGPUCapacity nodeptr =
     (case nodeptr of
        None \<Rightarrow> False
      | Some node \<Rightarrow>
          list_ex (\<lambda>pluginResourceName.
              case map_of (node_capacity node) pluginResourceName of
                Some quantity \<Rightarrow> 0 < sint quantity | None \<Rightarrow> False)
            [i915PluginResource, xePluginResource])"

definition hasGPUResources :: "pod option \<Rightarrow> bool" where
  "hasGPUResources podptr =
     (case podptr of
        None \<Rightarrow> False
      | Some pod \<Rightarrow>
          list_ex (\<lambda>container. list_ex (\<lambda>(name, _). prefix resourcePrefix name) (requests container))
            (containers pod))"

definition isCompletedPod :: "pod \<Rightarrow> bool" where
  "isCompletedPod pod =
     (if deletion_timestamp pod then True
      else case phase pod of
             PodFailed \<Rightarrow> True | PodSucceeded \<Rightarrow> True
           | PodPending \<Rightarrow> False | PodRunning \<Rightarrow> False | PodUnknown \<Rightarrow> False)"

subsection \<open>Labels whose value is split\<close>

text \<open>
  The loop of \<^verbatim>\<open>concatenateSplitLabel\<close>: chunks after the first carry a control character. When
  the character is missing the warning prints the chunk's first byte, so that an empty chunk
  is a slice error. The loop ends because there are finitely many labels.
\<close>

lemma finite_split_labels:
  "finite {j. postFix \<le> j \<and> labelName @ itoa_nat j \<in> fst ` set (nil_entries labels)}"
proof -
  have "inj (\<lambda>j. labelName @ itoa_nat j)" by (simp add: inj_on_def)
  then have "finite ((\<lambda>j. labelName @ itoa_nat j) -` (fst ` set (nil_entries labels)))"
    by (intro finite_vimageI) auto
  then show ?thesis by (rule rev_finite_subset) auto
qed

function concat_split_loop ::
  "(string, string) gomap option \<Rightarrow> string \<Rightarrow> nat \<Rightarrow> string \<Rightarrow> string option" where
  "concat_split_loop labels labelName postFix value =
     (case nil_get labels (labelName @ itoa_nat postFix) of
        None \<Rightarrow> Some value
      | Some chunk \<Rightarrow>
          if \<not> prefix labelControlChar chunk
          then (if length chunk < length labelControlChar then None else Some [])
          else concat_split_loop labels labelName (Suc postFix)
                 (value @ drop (length labelControlChar) chunk))"
  by pat_completeness auto
termination
proof (relation "measure (\<lambda>(labels, labelName, postFix, value).
    card {j. postFix \<le> j \<and> labelName @ itoa_nat j \<in> fst ` set (nil_entries labels)})", simp)
  fix labels labelName postFix and acc chunk :: string
  assume "nil_get labels (labelName @ itoa_nat postFix) = Some chunk"
  then have "labelName @ itoa_nat postFix \<in> fst ` set (nil_entries labels)"
    by (auto simp: nil_get_entries map_of_Some_keys)
  then have "postFix \<in> {j. postFix \<le> j \<and> labelName @ itoa_nat j \<in> fst ` set (nil_entries labels)}"
    by simp
  moreover have "postFix \<notin> {j. Suc postFix \<le> j \<and> labelName @ itoa_nat j \<in> fst ` set (nil_entries labels)}"
    by simp
  moreover have "{j. Suc postFix \<le> j \<and> labelName @ itoa_nat j \<in> fst ` set (nil_entries labels)} \<subseteq>
      {j. postFix \<le> j \<and> labelName @ itoa_nat j \<in> fst ` set (nil_entries labels)}"
    by auto
  ultimately have "{j. Suc postFix \<le> j \<and> labelName @ itoa_nat j \<in> fst ` set (nil_entries labels)} \<subset>
      {j. postFix \<le> j \<and> labelName @ itoa_nat j \<in> fst ` set (nil_entries labels)}"
    by blast
  then show "((labels, labelName, Suc postFix, acc @ drop (length labelControlChar) chunk),
      labels, labelName, postFix, acc) \<in> measure (\<lambda>(labels, labelName, postFix, value).
    card {j. postFix \<le> j \<and> labelName @ itoa_nat j \<in> fst ` set (nil_entries labels)})"
    by (simp add: psubset_card_mono finite_split_labels)
qed

declare concat_split_loop.simps [simp del]

definition concatenateSplitLabel :: "node \<Rightarrow> string \<Rightarrow> string option" where
  "concatenateSplitLabel node labelName =
     concat_split_loop (node_labels node) labelName 2
       (case nil_get (node_labels node) labelName of Some value \<Rightarrow> value | None \<Rightarrow> [])"

subsection \<open>PCI groups\<close>

definition getPCIGroup :: "node \<Rightarrow> string \<Rightarrow> string list option" where
  "getPCIGroup node gpuName = do {
     pciGroups \<leftarrow> concatenateSplitLabel node pciGroupLabel;
     Some (if pciGroups = [] then []
           else (case find (\<lambda>gpuNums. list_ex (\<lambda>gpuNum. cardPrefix @ gpuNum = gpuName) gpuNums)
                        (map (split_on CHR ''.'') (split_on CHR ''_'' pciGroups)) of
                   Some gpuNums \<Rightarrow> gpuNums | None \<Rightarrow> []))
   }"

definition isGPUInPCIGroup :: "string \<Rightarrow> string \<Rightarrow> node \<Rightarrow> bool option" where
  "isGPUInPCIGroup gpuName pciGroupGPUName node = do {
     gpuNums \<leftarrow> getPCIGroup node pciGroupGPUName;
     Some (list_ex (\<lambda>gpuNum. gpuName = cardPrefix @ gpuNum) gpuNums)
   }"

definition addPCIGroupGPUs :: "node \<Rightarrow> string \<Rightarrow> string list \<Rightarrow> string list option" where
  "addPCIGroupGPUs node cardName cards = do {
     pciGroupGPUNums \<leftarrow> getPCIGroup node cardName;
     Some (fold (\<lambda>gpuNum cards.
             let groupedCard = cardPrefix @ gpuNum
             in if containsString cards groupedCard then cards else cards @ [groupedCard])
           pciGroupGPUNums cards)
   }"

subsection \<open>Tiles named in labels\<close>

definition labelWithoutTASNS :: "string \<Rightarrow> string option" where
  "labelWithoutTASNS label =
     (if prefix tasNSPrefix label
      then (case split_on CHR ''/'' label of [_, name] \<Rightarrow> Some name | _ \<Rightarrow> None)
      else None)"

text \<open>\<^verbatim>\<open>^card([0-9]+)_gt([0-9]+)$\<close>\<close>

definition cardTileReg :: "string \<Rightarrow> (string \<times> string) option" where
  "cardTileReg s =
     (if prefix ''card'' s
      then do {
        (cardName, rest) \<leftarrow> digits_then ''_gt'' (drop 4 s);
        (tile, rest) \<leftarrow> digits_then [] rest;
        if rest = [] then Some (cardName, tile) else None
      }
      else None)"

definition extractCardAndTile :: "string \<Rightarrow> gas_error + string \<times> int" where
  "extractCardAndTile cardTileCombo =
     (case cardTileReg cardTileCombo of
        None \<Rightarrow> Inl ErrExtractFail
      | Some (cardName, tile) \<Rightarrow> Inr (cardPrefix @ cardName, fst (atoi tile)))"

definition add_tile :: "string \<Rightarrow> tiles_map \<Rightarrow> tiles_map" where
  "add_tile cardTileCombo m =
     (case extractCardAndTile cardTileCombo of
        Inl err \<Rightarrow> m
      | Inr (cardName, tile) \<Rightarrow> gm_append cardName [tile] m)"

definition tile_mapping_step ::
  "string \<times> string \<Rightarrow> tiles_map \<times> tiles_map \<times> tiles_map \<Rightarrow> tiles_map \<times> tiles_map \<times> tiles_map" where
  "tile_mapping_step entry maps =
     (case (entry, maps) of ((label, value), (disabled, descheduled, preferred)) \<Rightarrow>
        (case labelWithoutTASNS label of
           None \<Rightarrow> (disabled, descheduled, preferred)
         | Some stripped \<Rightarrow>
             if prefix tileDisableLabelPrefix stripped
             then (add_tile (trim_prefix tileDisableLabelPrefix stripped) disabled, descheduled, preferred)
             else if prefix tileDeschedLabelPrefix stripped
             then (disabled, add_tile (trim_prefix tileDeschedLabelPrefix stripped) descheduled, preferred)
             else if prefix tilePrefLabelPrefix stripped
             then (disabled, descheduled,
                   add_tile (trim_prefix tilePrefLabelPrefix stripped @ ''_'' @ value) preferred)
             else (disabled, descheduled, preferred)))"

definition createTileMapping ::
  "(string, string) gomap option \<Rightarrow> tiles_map \<times> tiles_map \<times> tiles_map" where
  "createTileMapping labels = fold tile_mapping_step (nil_entries labels) ([], [], [])"

definition combineMappings :: "tiles_map \<Rightarrow> tiles_map \<Rightarrow> tiles_map" where
  "combineMappings source dest = fold (\<lambda>(cardName, tiles) dest. gm_append cardName tiles dest) source dest"

definition createDisabledTileMapping :: "(string, string) gomap option \<Rightarrow> tiles_map" where
  "createDisabledTileMapping labels =
     (case createTileMapping labels of (dis, des, _) \<Rightarrow> combineMappings des dis)"

definition createDisabledAndPreferredTileMapping ::
  "(string, string) gomap option \<Rightarrow> tiles_map \<times> tiles_map" where
  "createDisabledAndPreferredTileMapping labels =
     (case createTileMapping labels of (dis, des, pref) \<Rightarrow> (combineMappings des dis, pref))"

definition sanitizeTiles :: "tiles_map \<Rightarrow> int \<Rightarrow> tiles_map" where
  "sanitizeTiles tilesMap tilesPerGpu =
     map (\<lambda>(cardName, tiles). (cardName, filter (\<lambda>tile. tile < tilesPerGpu) tiles)) tilesMap"

subsection \<open>GPU numbers and Xe links\<close>

text \<open>
  \<^verbatim>\<open>sort.Slice\<close> compares every element of a slice of two or more at least once, so one malformed
  number makes the whole result nil (here empty). Numbers that are equal but written differently
  may come in any order after \<^verbatim>\<open>sort.Slice\<close>; the model keeps the label's.
\<close>

definition numSortedGpuNums :: "node \<Rightarrow> string list option" where
  "numSortedGpuNums node = do {
     gpuNums \<leftarrow> concatenateSplitLabel node gpuNumbersLabel;
     let gpuNumSlice = split_on CHR ''.'' gpuNums;
     Some (if length gpuNumSlice \<le> 1 then gpuNumSlice
           else if list_ex (\<lambda>gpuNum. \<not> snd (atoi gpuNum)) gpuNumSlice then []
           else sort_key (\<lambda>gpuNum. fst (atoi gpuNum)) gpuNumSlice)
   }"

definition gpuNameToLZeroDeviceID :: "string \<Rightarrow> node \<Rightarrow> int option" where
  "gpuNameToLZeroDeviceID gpuName node = do {
     gpuNumSlice \<leftarrow> numSortedGpuNums node;
     Some (case index_of (map (\<lambda>gpuNum. cardPrefix @ gpuNum) gpuNumSlice) gpuName of
             Some i \<Rightarrow> int i | None \<Rightarrow> -1)
   }"

definition lZeroDeviceIDToGpuName :: "int \<Rightarrow> node \<Rightarrow> string option" where
  "lZeroDeviceIDToGpuName lZeroID node = do {
     gpuNumSlice \<leftarrow> numSortedGpuNums node;
     Some (if int (length gpuNumSlice) \<le> lZeroID \<or> lZeroID < 0 \<or> gpuNumSlice ! nat lZeroID = []
           then [] else cardPrefix @ gpuNumSlice ! nat lZeroID)
   }"

text \<open>\<^verbatim>\<open>^([0-9]+)\.([0-9]+)-([0-9]+)\.([0-9]+)$\<close>\<close>

definition xeLinkReg :: "string \<Rightarrow> (string \<times> string \<times> string \<times> string) option" where
  "xeLinkReg s = do {
     (m1, rest) \<leftarrow> digits_then ''.'' s;
     (m2, rest) \<leftarrow> digits_then ''-'' rest;
     (m3, rest) \<leftarrow> digits_then ''.'' rest;
     (m4, rest) \<leftarrow> digits_then [] rest;
     if rest = [] then Some (m1, m2, m3, m4) else None
   }"

fun xe_linked_tiles_loop :: "int \<Rightarrow> string list \<Rightarrow> int search_map \<Rightarrow> int search_map" where
  "xe_linked_tiles_loop lZeroDeviceID [] xeLinkedTiles = xeLinkedTiles"
| "xe_linked_tiles_loop lZeroDeviceID (linkPair # xeLinkSlice) xeLinkedTiles =
     (case xeLinkReg linkPair of
        None \<Rightarrow> xeLinkedTiles
      | Some (m1, m2, m3, m4) \<Rightarrow>
          xe_linked_tiles_loop lZeroDeviceID xeLinkSlice
            (if m1 = itoa lZeroDeviceID
             then (case atoi m2 of (tileNumber, ok) \<Rightarrow>
                     if ok then List.insert tileNumber xeLinkedTiles else xeLinkedTiles)
             else if m3 = itoa lZeroDeviceID
             then (case atoi m4 of (tileNumber, ok) \<Rightarrow>
                     if ok then List.insert tileNumber xeLinkedTiles else xeLinkedTiles)
             else xeLinkedTiles))"

definition getXeLinkedTiles :: "string \<Rightarrow> node \<Rightarrow> int search_map option" where
  "getXeLinkedTiles gpuName node = do {
     xeLinkLabelValue \<leftarrow> concatenateSplitLabel node xeLinksLabel;
     lZeroDeviceID \<leftarrow> gpuNameToLZeroDeviceID gpuName node;
     Some (if lZeroDeviceID = -1 \<or> xeLinkLabelValue = [] then []
           else xe_linked_tiles_loop lZeroDeviceID (split_on CHR ''_'' xeLinkLabelValue) [])
   }"

record linkInfo =
  lZeroDeviceID :: int
  lZeroSubdeviceID :: int
  linkedLZeroDeviceID :: int
  linkedLZeroSubdeviceID :: int

definition parseXeLink :: "string \<Rightarrow> gas_error + linkInfo" where
  "parseXeLink link =
     (case xeLinkReg link of
        None \<Rightarrow> Inl ErrBadArgs
      | Some (m1, m2, m3, m4) \<Rightarrow>
          if \<not> list_all (\<lambda>m. snd (atoi m)) [m1, m2, m3, m4] then Inl (ErrLib ''bad xe-link string'')
          else Inr \<lparr>lZeroDeviceID = fst (atoi m1), lZeroSubdeviceID = fst (atoi m2),
                    linkedLZeroDeviceID = fst (atoi m3), linkedLZeroSubdeviceID = fst (atoi m4)\<rparr>)"

fun xe_linked_gpu_loop :: "node \<Rightarrow> int \<Rightarrow> int \<Rightarrow> string list \<Rightarrow> (string \<times> int) option" where
  "xe_linked_gpu_loop node deviceID tileIndex [] = Some ([], -1)"
| "xe_linked_gpu_loop node deviceID tileIndex (linkPair # xeLinkSlice) =
     (case parseXeLink linkPair of
        Inl err \<Rightarrow> Some ([], -1)
      | Inr lInfo \<Rightarrow>
          if lZeroDeviceID lInfo = deviceID \<and> lZeroSubdeviceID lInfo = tileIndex
          then do {
            linkedName \<leftarrow> lZeroDeviceIDToGpuName (linkedLZeroDeviceID lInfo) node;
            Some (linkedName, linkedLZeroSubdeviceID lInfo)
          }
          else xe_linked_gpu_loop node deviceID tileIndex xeLinkSlice)"

definition getXeLinkedGPUInfo :: "string \<Rightarrow> int \<Rightarrow> node \<Rightarrow> (string \<times> int) option" where
  "getXeLinkedGPUInfo gpuName tileIndex node = do {
     xeLinkLabelValue \<leftarrow> concatenateSplitLabel node xeLinksLabel;
     deviceID \<leftarrow> gpuNameToLZeroDeviceID gpuName node;
     if deviceID = -1 \<or> xeLinkLabelValue = [] then Some ([], -1)
     else xe_linked_gpu_loop node deviceID tileIndex (split_on CHR ''_'' xeLinkLabelValue)
   }"

subsection \<open>The tile annotation of a pod\<close>

text \<open>
  \<^verbatim>\<open>cardTileSplit[0][len(cardPrefix):]\<close> is a slice error when the card's name is shorter than the
  prefix; the prefix itself is not checked.
\<close>

definition tile_entry_step :: "string \<Rightarrow> string search_map \<Rightarrow> string search_map option" where
  "tile_entry_step cardTileCombos cardTileIndices =
     (case split_on CHR '':'' cardTileCombos of
        [cardPart, tilePart] \<Rightarrow>
          if length cardPart < length cardPrefix then None
          else (let cardIndexStr = drop (length cardPrefix) cardPart
                in if \<not> snd (parse_int desiredIntBits cardIndexStr) then Some cardTileIndices
                   else Some (fold (\<lambda>tile indices.
                          let tileNoStr = trim_prefix ''gt'' tile
                          in if snd (parse_int desiredIntBits tileNoStr)
                             then List.insert (cardIndexStr @ ''.'' @ tileNoStr) indices
                             else indices)
                        (split_on CHR ''+'' tilePart) cardTileIndices))
      | _ \<Rightarrow> Some cardTileIndices)"

definition convertPodTileAnnotationToCardTileMap :: "string \<Rightarrow> string search_map option" where
  "convertPodTileAnnotationToCardTileMap podTileAnnotation =
     ofold (\<lambda>contAnnotation. ofold tile_entry_step (split_on CHR '','' contAnnotation))
       (split_on CHR ''|'' podTileAnnotation) []"

subsection \<open>Slices: facts\<close>

lemma index_of_None [simp]: "index_of xs v = None \<longleftrightarrow> v \<notin> set xs"
  by (induction xs) auto

lemma index_of_Some:
  "index_of xs v = Some i \<Longrightarrow> i < length xs \<and> xs ! i = v \<and> (\<forall>j < i. xs ! j \<noteq> v)"
  by (induction xs arbitrary: i) (auto split: if_splits simp: nth_Cons split: nat.splits)

lemma containsInt_iff [simp]: "fst (containsInt xs v) \<longleftrightarrow> v \<in> set xs"
  by (auto simp: containsInt_def split: option.splits dest: index_of_Some)

lemma containsString_iff [simp]: "containsString xs v \<longleftrightarrow> v \<in> set xs"
  by (auto simp: containsString_def list_ex_iff)

lemma reorder_step_mset:
  "reorder_step pref (tiles, n) = (tiles', n') \<Longrightarrow> mset tiles' = mset tiles"
  by (auto simp: reorder_step_def split: option.splits if_splits
      dest!: index_of_Some intro: mset_swap)

lemma reorder_fold_mset: "mset (fst (fold reorder_step preferred (tiles, n))) = mset tiles"
proof (induction preferred arbitrary: tiles n)
  case Nil
  then show ?case by simp
next
  case (Cons p ps)
  obtain tiles' n' where st: "reorder_step p (tiles, n) = (tiles', n')"
    by (cases "reorder_step p (tiles, n)")
  with Cons.IH [of tiles' n'] reorder_step_mset [OF st] show ?case by simp
qed

lemma reorder_step_take:
  assumes "reorder_step p (tiles, n) = (tiles', n')" "p \<notin> set (take n tiles)" "n \<le> length tiles"
  shows "take n' tiles' = take n tiles @ (if p \<in> set tiles then [p] else []) \<and> n' \<le> length tiles'"
proof (cases "index_of tiles p")
  case None
  with assms show ?thesis by (auto simp: reorder_step_def split: if_splits)
next
  case (Some i)
  from index_of_Some [OF Some] have i: "i < length tiles" "tiles ! i = p" by auto
  have "n \<le> i"
  proof (rule ccontr)
    assume "\<not> n \<le> i"
    with i have "p \<in> set (take n tiles)" by (auto simp: in_set_conv_nth)
    with assms(2) show False ..
  qed
  with i assms(1) Some have "n' = Suc n"
    and t: "tiles' = (if n < i then tiles[n := p, i := tiles ! n] else tiles)"
    by (auto simp: reorder_step_def)
  moreover have "p \<in> set tiles" using i by auto
  moreover have "tiles' ! n = p" "take n tiles' = take n tiles" "length tiles' = length tiles"
    using t i \<open>n \<le> i\<close> by (auto simp: le_eq_less_or_eq)
  ultimately show ?thesis
    using i \<open>n \<le> i\<close> by (simp add: take_Suc_conv_app_nth)
qed

lemma reorder_fold_take:
  assumes "distinct preferred" "set preferred \<inter> set (take n tiles) = {}" "n \<le> length tiles"
  shows "take (n + length (filter (\<lambda>p. p \<in> set tiles) preferred))
      (fst (fold reorder_step preferred (tiles, n))) =
    take n tiles @ filter (\<lambda>p. p \<in> set tiles) preferred"
  using assms
proof (induction preferred arbitrary: tiles n)
  case Nil
  then show ?case by simp
next
  case (Cons p ps)
  obtain tiles' n' where st: "reorder_step p (tiles, n) = (tiles', n')"
    by (cases "reorder_step p (tiles, n)")
  have tk: "take n' tiles' = take n tiles @ (if p \<in> set tiles then [p] else [])" and le: "n' \<le> length tiles'"
    using reorder_step_take [OF st] Cons.prems by auto
  have s: "set tiles' = set tiles"
    using reorder_step_mset [OF st] by (metis set_mset_mset)
  have n': "n' = n + (if p \<in> set tiles then 1 else 0)"
    using st by (auto simp: reorder_step_def split: option.splits if_splits dest: index_of_Some)
  have "set ps \<inter> set (take n' tiles') = {}"
    using Cons.prems tk by auto
  with Cons.IH [of n' tiles'] Cons.prems le st s tk n' show ?case by (simp split: if_splits)
qed

text \<open>Moving the preferred tiles to the front permutes the tiles, whatever the arguments, and
  the preferred tiles that occur come first, in the order of preference.\<close>

theorem reorderPreferredTilesFirst_spec:
  assumes "distinct preferred"
  shows "mset (reorderPreferredTilesFirst tiles preferred) = mset tiles \<and>
    prefix (filter (\<lambda>tile. tile \<in> set tiles) preferred) (reorderPreferredTilesFirst tiles preferred)"
proof -
  have "take (length (filter (\<lambda>tile. tile \<in> set tiles) preferred))
      (reorderPreferredTilesFirst tiles preferred) = filter (\<lambda>tile. tile \<in> set tiles) preferred"
    using reorder_fold_take [OF assms, of 0 tiles] by (simp add: reorderPreferredTilesFirst_def)
  then show ?thesis
    by (metis reorderPreferredTilesFirst_def reorder_fold_mset take_is_prefix)
qed

theorem reorderPreferredTilesFirst_spec_witness:
  "reorderPreferredTilesFirst [0, 1, 2, 3] [3, 7, 1] = [3, 1, 2, 0] \<and>
   prefix [3, 1] (reorderPreferredTilesFirst [0, 1, 2, 3] [3, 7, 1 :: int])"
proof -
  have "distinct [3, 7, 1 :: int]" by simp
  from reorderPreferredTilesFirst_spec [OF this, of "[0, 1, 2, 3]"]
  have "prefix [3, 1] (reorderPreferredTilesFirst [0, 1, 2, 3] [3, 7, 1 :: int])" by simp
  then show ?thesis by (simp add: reorderPreferredTilesFirst_def reorder_step_def)
qed

subsection \<open>Split labels: facts\<close>

lemma concat_split_loop_chunks:
  assumes "\<And>i. i < length chunks \<Longrightarrow> nil_get labels (labelName @ itoa_nat (n + i)) = Some (''Z'' @ chunks ! i)"
    and "nil_get labels (labelName @ itoa_nat (n + length chunks)) = None"
  shows "concat_split_loop labels labelName n acc = Some (acc @ concat chunks)"
  using assms
proof (induction chunks arbitrary: n acc)
  case Nil
  then show ?case by (simp add: concat_split_loop.simps [of labels labelName n])
next
  case (Cons c cs)
  have "nil_get labels (labelName @ itoa_nat n) = Some (''Z'' @ c)"
    using Cons.prems(1) [of 0] by simp
  moreover have "concat_split_loop labels labelName (Suc n) (acc @ c) = Some ((acc @ c) @ concat cs)"
  proof (rule Cons.IH)
    fix i assume "i < length cs"
    then show "nil_get labels (labelName @ itoa_nat (Suc n + i)) = Some (''Z'' @ cs ! i)"
      using Cons.prems(1) [of "Suc i"] by simp
  next
    show "nil_get labels (labelName @ itoa_nat (Suc n + length cs)) = None"
      using Cons.prems(2) by simp
  qed
  ultimately show ?case
    by (simp add: concat_split_loop.simps [of labels labelName n] labelControlChar_def)
qed

text \<open>A label value that is stored in one label and numbered continuation labels from 2 on,
  each continuation behind the control character, is put together again, whatever other labels
  the node has; the reading ends at the first number that is missing.\<close>

theorem concatenateSplitLabel_roundtrip:
  assumes "nil_get (node_labels node) labelName = Some chunk"
    and "\<And>i. i < length chunks \<Longrightarrow>
      nil_get (node_labels node) (labelName @ itoa_nat (2 + i)) = Some (''Z'' @ chunks ! i)"
    and "nil_get (node_labels node) (labelName @ itoa_nat (2 + length chunks)) = None"
  shows "concatenateSplitLabel node labelName = Some (concat (chunk # chunks))"
  using concat_split_loop_chunks [OF assms(2,3), of chunk] assms(1)
  by (simp add: concatenateSplitLabel_def)

theorem concatenateSplitLabel_roundtrip_witness:
  "concatenateSplitLabel
     \<lparr>node_name = ''n'', node_labels = Some [(''L3'', ''Z.3''), (''L'', ''0.1''), (''L2'', ''Z.2''), (''L5'', ''Z'')],
      node_capacity = [], node_allocatable = []\<rparr> ''L'' = Some ''0.1.2.3''"
proof -
  let ?n = "\<lparr>node_name = ''n'',
      node_labels = Some [(''L3'', ''Z.3''), (''L'', ''0.1''), (''L2'', ''Z.2''), (''L5'', ''Z'')],
      node_capacity = [], node_allocatable = []\<rparr>"
  have it: "itoa_nat 2 = ''2''" "itoa_nat 3 = ''3''" "itoa_nat 4 = ''4''"
    "itoa_nat (Suc (Suc 0)) = ''2''" "itoa_nat (Suc (Suc (Suc 0))) = ''3''"
    by code_simp+
  have "concatenateSplitLabel ?n ''L'' = Some (concat (''0.1'' # [''.2'', ''.3'']))"
  proof (rule concatenateSplitLabel_roundtrip)
    fix i assume "i < length [''.2'', ''.3'']"
    then have "i = 0 \<or> i = 1" by auto
    then show "nil_get (node_labels ?n) (''L'' @ itoa_nat (2 + i)) = Some (''Z'' @ [''.2'', ''.3''] ! i)"
      using it by (auto simp: nil_get_def)
  qed (use it in \<open>simp_all add: nil_get_def\<close>)
  then show ?thesis by simp
qed

text \<open>A node whose continuation label is present but empty makes every reading of the split
  label panic (the warning for a missing control character slices one byte out of it).\<close>

theorem concatenateSplitLabel_empty_chunk_panics:
  assumes "nil_get (node_labels node) (labelName @ ''2'') = Some []"
  shows "concatenateSplitLabel node labelName = None"
proof -
  have "itoa_nat 2 = ''2''" by code_simp
  with assms show ?thesis
    by (simp add: concatenateSplitLabel_def concat_split_loop.simps [of _ _ 2] labelControlChar_def)
qed

theorem concatenateSplitLabel_empty_chunk_panics_witness:
  "concatenateSplitLabel
     \<lparr>node_name = ''n'', node_labels = Some [(''L'', ''0.1''), (''L2'', [])],
      node_capacity = [], node_allocatable = []\<rparr> ''L'' = None"
  by (rule concatenateSplitLabel_empty_chunk_panics) (simp add: nil_get_def)

subsection \<open>PCI groups: facts\<close>

lemma getPCIGroup_mem:
  assumes "getPCIGroup node gpuName = Some gpuNums" "gpuNums \<noteq> []"
  shows "gpuName \<in> (\<lambda>gpuNum. cardPrefix @ gpuNum) ` set gpuNums"
  using assms by (auto simp: getPCIGroup_def list_ex_iff find_Some_iff
      split: bind_splits if_splits option.splits)

subsection \<open>Tile names: facts\<close>

lemma cardTileReg_match:
  assumes "ds \<noteq> []" "list_all is_digit ds" "ts \<noteq> []" "list_all is_digit ts"
  shows "cardTileReg (''card'' @ ds @ ''_gt'' @ ts) = Some (ds, ts)"
proof -
  have "\<not> is_digit CHR ''_''" by (simp add: is_digit_def)
  from digits_then_app [OF assms(1,2) this, of "''gt''" ts] digits_then_end [OF assms(3,4)]
  show ?thesis by (simp add: cardTileReg_def)
qed

lemma cardTileReg_Some:
  assumes "cardTileReg s = Some (ds, ts)"
  shows "s = ''card'' @ ds @ ''_gt'' @ ts" "ds \<noteq> []" "list_all is_digit ds" "ts \<noteq> []"
    "list_all is_digit ts"
proof -
  from assms obtain r where p: "prefix ''card'' s" and a: "digits_then ''_gt'' (drop 4 s) = Some (ds, r)"
    and b: "digits_then [] r = Some (ts, [])"
    by (auto simp: cardTileReg_def split: if_splits bind_splits)
  from digits_then_digits [OF a] digits_then_digits [OF b]
  show "ds \<noteq> []" "list_all is_digit ds" "ts \<noteq> []" "list_all is_digit ts" by auto
  from p have "s = ''card'' @ drop 4 s" by (auto elim: prefixE)
  with digits_then_digits [OF a] digits_then_digits [OF b]
  show "s = ''card'' @ ds @ ''_gt'' @ ts" by auto
qed

lemma extractCardAndTile_itoa:
  assumes "0 \<le> c" "0 \<le> t" "t < 2 ^ 63"
  shows "extractCardAndTile (''card'' @ itoa c @ ''_gt'' @ itoa t) = Inr (''card'' @ itoa c, t)"
proof -
  have d: "list_all is_digit (itoa i)" "itoa i \<noteq> []" if "0 \<le> i" for i
    using that itoa_nat_digits by (simp_all add: itoa_nonneg)
  show ?thesis
    using cardTileReg_match [of "itoa c" "itoa t"] d assms
    by (simp add: extractCardAndTile_def cardPrefix_def atoi_itoa)
qed

lemma extractCardAndTile_Inr:
  assumes "extractCardAndTile s = Inr (c, t)"
  shows "\<exists>ds. c = ''card'' @ ds \<and> list_all is_digit ds \<and> ds \<noteq> []" "0 \<le> t"
proof -
  from assms obtain ds ts where m: "cardTileReg s = Some (ds, ts)" and c: "c = ''card'' @ ds"
    and t: "t = fst (atoi ts)"
    by (auto simp: extractCardAndTile_def cardPrefix_def split: option.splits)
  from cardTileReg_Some [OF m] c show "\<exists>ds. c = ''card'' @ ds \<and> list_all is_digit ds \<and> ds \<noteq> []"
    by blast
  show "0 \<le> t"
    using cardTileReg_Some(4,5) [OF m] by (simp add: t atoi_def parse_int_digits)
qed

lemma gm_getd_add_tile:
  "gm_getd [] (add_tile s m) c = gm_getd [] m c @ (case extractCardAndTile s of
     Inl err \<Rightarrow> [] | Inr (c', t) \<Rightarrow> if c' = c then [t] else [])"
  by (auto simp: add_tile_def split: sum.splits)

lemma wf_add_tile [simp, intro]: "wf_map m \<Longrightarrow> wf_map (add_tile s m)"
  by (auto simp: add_tile_def split: sum.splits)

lemma gm_getd_combine:
  "wf_map source \<Longrightarrow> gm_getd [] (combineMappings source dest) c = gm_getd [] dest c @ gm_getd [] source c"
  by (induction source arbitrary: dest)
    (auto simp: combineMappings_def wf_map_Cons gm_getd_missing)

lemma wf_combine [simp, intro]: "wf_map dest \<Longrightarrow> wf_map (combineMappings source dest)"
  by (induction source arbitrary: dest) (auto simp: combineMappings_def)

lemma gm_getd_sanitize:
  "gm_getd [] (sanitizeTiles m n) c = filter (\<lambda>tile. tile < n) (gm_getd [] m c)"
  by (induction m) (auto simp: sanitizeTiles_def)

lemma wf_sanitize [simp]: "wf_map (sanitizeTiles m n) \<longleftrightarrow> wf_map m"
  by (auto simp: sanitizeTiles_def wf_map_def split_beta comp_def)

text \<open>The tile that a label takes out of use: disabled, or marked for descheduling.\<close>

definition tile_label :: "string \<Rightarrow> string \<Rightarrow> gas_error + string \<times> int" where
  "tile_label pre label =
     (case labelWithoutTASNS label of
        None \<Rightarrow> Inl ErrExtractFail
      | Some stripped \<Rightarrow> if prefix pre stripped then extractCardAndTile (trim_prefix pre stripped)
                        else Inl ErrExtractFail)"

lemma tile_prefixes_differ:
  "prefix tileDeschedLabelPrefix s \<Longrightarrow> \<not> prefix tileDisableLabelPrefix s"
  by (auto simp: prefix_def label_consts)

lemma tile_mapping_step_tiles:
  assumes "tile_mapping_step (label, v) (dis, des, pref) = (dis', des', pref')"
  shows "set (gm_getd [] dis' c) =
      set (gm_getd [] dis c) \<union> {t. tile_label tileDisableLabelPrefix label = Inr (c, t)}"
    and "set (gm_getd [] des' c) =
      set (gm_getd [] des c) \<union> {t. tile_label tileDeschedLabelPrefix label = Inr (c, t)}"
    and "wf_map dis \<Longrightarrow> wf_map dis'" "wf_map des \<Longrightarrow> wf_map des'" "wf_map pref \<Longrightarrow> wf_map pref'"
  using assms tile_prefixes_differ
  by (auto simp: tile_mapping_step_def tile_label_def gm_getd_add_tile
      split: option.splits if_splits sum.splits)

lemma createTileMapping_fold:
  assumes "fold tile_mapping_step entries (dis, des, pref) = (dis', des', pref')"
  shows "set (gm_getd [] dis' c) = set (gm_getd [] dis c) \<union>
      {t. \<exists>(label, v) \<in> set entries. tile_label tileDisableLabelPrefix label = Inr (c, t)} \<and>
    set (gm_getd [] des' c) = set (gm_getd [] des c) \<union>
      {t. \<exists>(label, v) \<in> set entries. tile_label tileDeschedLabelPrefix label = Inr (c, t)} \<and>
    (wf_map dis \<longrightarrow> wf_map dis') \<and> (wf_map des \<longrightarrow> wf_map des') \<and> (wf_map pref \<longrightarrow> wf_map pref')"
  using assms
proof (induction entries arbitrary: dis des pref)
  case Nil
  then show ?case by simp
next
  case (Cons e entries)
  obtain label v where e: "e = (label, v)" by (cases e)
  obtain dis1 des1 pref1 where st: "tile_mapping_step (label, v) (dis, des, pref) = (dis1, des1, pref1)"
    by (metis prod_cases3)
  from Cons.prems e st have "fold tile_mapping_step entries (dis1, des1, pref1) = (dis', des', pref')"
    by simp
  from Cons.IH [OF this] tile_mapping_step_tiles [OF st] show ?case
    by (auto simp: e)
qed

lemma createTileMapping_wf:
  assumes "createTileMapping labels = (dis, des, pref)"
  shows "wf_map dis" "wf_map des" "wf_map pref"
  using createTileMapping_fold [OF assms [unfolded createTileMapping_def]] by auto

text \<open>The tiles of a card that GAS treats as out of use are exactly those that some label of
  the node disables or marks for descheduling, in whatever order the labels are ranged over.\<close>

theorem createDisabledTileMapping_spec:
  "t \<in> set (gm_getd [] (createDisabledTileMapping labels) c) \<longleftrightarrow>
   (\<exists>(label, v) \<in> set (nil_entries labels).
      tile_label tileDisableLabelPrefix label = Inr (c, t) \<or>
      tile_label tileDeschedLabelPrefix label = Inr (c, t))"
proof -
  obtain dis des pref where m: "createTileMapping labels = (dis, des, pref)"
    by (metis prod_cases3)
  from createTileMapping_fold [OF m [unfolded createTileMapping_def], of c] createTileMapping_wf [OF m]
  show ?thesis
    by (auto simp: createDisabledTileMapping_def m gm_getd_combine)
qed

lemma createDisabledTileMapping_wf [simp]: "wf_map (createDisabledTileMapping labels)"
proof -
  obtain dis des pref where m: "createTileMapping labels = (dis, des, pref)"
    by (metis prod_cases3)
  from createTileMapping_wf [OF m] show ?thesis
    by (auto simp: createDisabledTileMapping_def m)
qed

lemma createDisabledAndPreferred_fst:
  "fst (createDisabledAndPreferredTileMapping labels) = createDisabledTileMapping labels"
  by (simp add: createDisabledAndPreferredTileMapping_def createDisabledTileMapping_def split_beta)

lemma labelWithoutTASNS_label:
  assumes "CHR ''/'' \<notin> set policy" "CHR ''/'' \<notin> set name"
  shows "labelWithoutTASNS (tasNSPrefix @ policy @ ''/'' @ name) = Some name"
proof -
  have "CHR ''/'' \<notin> set (tasNSPrefix @ policy)"
    using assms(1) by (simp add: tasNSPrefix_def)
  then have "split_on CHR ''/'' ((tasNSPrefix @ policy) @ CHR ''/'' # name) = [tasNSPrefix @ policy, name]"
    using split_on_append [of "CHR ''/''" "tasNSPrefix @ policy" name] split_on_no_sep [OF assms(2)]
    by simp
  then show ?thesis by (simp add: labelWithoutTASNS_def)
qed

lemma digit_not_slash: "is_digit c \<Longrightarrow> c \<noteq> CHR ''/''"
  by (auto simp: is_digit_def)

lemma tile_label_disable:
  assumes "CHR ''/'' \<notin> set policy" "0 \<le> c" "0 \<le> t" "t < 2 ^ 63"
  shows "tile_label tileDisableLabelPrefix
    (tasNSPrefix @ policy @ ''/'' @ tileDisableLabelPrefix @ ''card'' @ itoa c @ ''_gt'' @ itoa t) =
    Inr (''card'' @ itoa c, t)"
proof -
  have "CHR ''/'' \<notin> set (itoa c)" "CHR ''/'' \<notin> set (itoa t)"
    using itoa_nonneg_chars assms digit_not_slash by blast+
  then have "labelWithoutTASNS
    (tasNSPrefix @ policy @ ''/'' @ tileDisableLabelPrefix @ ''card'' @ itoa c @ ''_gt'' @ itoa t) =
    Some (tileDisableLabelPrefix @ ''card'' @ itoa c @ ''_gt'' @ itoa t)"
    using assms(1) by (intro labelWithoutTASNS_label) (auto simp: tileDisableLabelPrefix_def)
  then show ?thesis
    using extractCardAndTile_itoa [OF assms(2-4)] by (simp add: tile_label_def trim_prefix_def)
qed

subsection \<open>Xe links: facts\<close>

text \<open>A link written \<^verbatim>\<open>device.subdevice-device.subdevice\<close> is read back as the four numbers.\<close>

theorem parseXeLink_roundtrip:
  assumes "0 \<le> a" "a < 2 ^ 63" "0 \<le> b" "b < 2 ^ 63" "0 \<le> c" "c < 2 ^ 63" "0 \<le> d" "d < 2 ^ 63"
  shows "parseXeLink (itoa a @ ''.'' @ itoa b @ ''-'' @ itoa c @ ''.'' @ itoa d) =
    Inr \<lparr>lZeroDeviceID = a, lZeroSubdeviceID = b, linkedLZeroDeviceID = c, linkedLZeroSubdeviceID = d\<rparr>"
proof -
  have dg: "itoa i \<noteq> []" "list_all is_digit (itoa i)" if "0 \<le> i" for i
    using that itoa_nat_digits by (simp_all add: itoa_nonneg)
  have sep: "\<not> is_digit CHR ''.''" "\<not> is_digit CHR ''-''"
    by (simp_all add: is_digit_def)
  have app: "digits_then [l] (itoa i @ l # s) = Some (itoa i, s)" if "0 \<le> i" "\<not> is_digit l" for i l s
    using digits_then_app [of "itoa i" l "[]" s] dg that by simp
  have "xeLinkReg (itoa a @ ''.'' @ itoa b @ ''-'' @ itoa c @ ''.'' @ itoa d) =
      Some (itoa a, itoa b, itoa c, itoa d)"
    using assms app sep digits_then_end dg by (simp add: xeLinkReg_def)
  then show ?thesis
    using assms by (simp add: parseXeLink_def atoi_itoa)
qed

theorem parseXeLink_roundtrip_witness:
  "parseXeLink ''0.1-12.0'' =
    Inr \<lparr>lZeroDeviceID = 0, lZeroSubdeviceID = 1, linkedLZeroDeviceID = 12, linkedLZeroSubdeviceID = 0\<rparr>"
proof -
  have "itoa 0 = ''0''" "itoa 1 = ''1''" "itoa 12 = ''12''" by code_simp+
  then show ?thesis using parseXeLink_roundtrip [of 0 1 12 0] by simp
qed

text \<open>The level-zero device number of a GPU and the GPU's name of a device number are inverse:
  a GPU that has a number is found again under it.\<close>

theorem xe_device_roundtrip:
  assumes "gpuNameToLZeroDeviceID gpuName node = Some i" "i \<noteq> -1" "gpuName \<noteq> cardPrefix"
  shows "lZeroDeviceIDToGpuName i node = Some gpuName"
proof -
  from assms obtain nums where nums: "numSortedGpuNums node = Some nums"
    and idx: "(case index_of (map (\<lambda>gpuNum. cardPrefix @ gpuNum) nums) gpuName of
        Some i \<Rightarrow> int i | None \<Rightarrow> -1) = i"
    by (auto simp: gpuNameToLZeroDeviceID_def split: bind_splits)
  from idx assms(2) obtain k where k: "index_of (map (\<lambda>gpuNum. cardPrefix @ gpuNum) nums) gpuName = Some k"
    and i: "i = int k"
    by (auto split: option.splits)
  from index_of_Some [OF k] have "k < length nums" "cardPrefix @ nums ! k = gpuName"
    by auto
  with nums i assms(3) show ?thesis
    by (auto simp: lZeroDeviceIDToGpuName_def)
qed

theorem xe_device_roundtrip_witness:
  "lZeroDeviceIDToGpuName 1
     \<lparr>node_name = ''n'', node_labels = Some [(''gpu.intel.com/gpu-numbers'', ''10.2'')],
      node_capacity = [], node_allocatable = []\<rparr> = Some ''card10''"
  by (rule xe_device_roundtrip) (code_simp, simp, simp add: cardPrefix_def)

end
