(* ===== verification/Gpu_Cache.thy ===== *)
theory Gpu_Cache
  imports Gpu_Labels
begin

text \<open>
  \<^verbatim>\<open>gpu-aware-scheduling/pkg/gpuscheduler/node_resource_cache.go\<close>: the cache of what is in use on
  every node. Its state is the record \<open>cache\<close>: the amounts used per node and card, the tiles used
  per node and card, the annotations of the pods that are counted, what was last known about
  descheduling labels, and the two work queues.

  Informer events put items into the queues; workers take them out and change the state under the
  write lock, so that one handler is one step. The scheduler changes the state through
  \<^verbatim>\<open>adjustPodResourcesL\<close>, which takes the same lock. The Kubernetes API is a parameter (\<open>kube_api\<close>);
  the patches sent to it are part of a handler's result. \<open>ord\<close> is the order in which the runtime
  ranges over a search map of tiles that a function has built itself.
\<close>

subsection \<open>Data\<close>

type_synonym node_resources = "(string, resource_map) gomap"
type_synonym node_tiles = tiles_map

datatype pod_action = PodUpdated | PodAdded | PodDeleted | PodCompleted | OtherPodAction int
datatype node_action = NodeUpdated | NodeAdded | NodeDeleted | OtherNodeAction int

record pod_work_item =
  item_pod :: pod
  item_name :: string
  item_ns :: string
  item_annotation :: string
  item_tile_annotation :: string
  item_action :: pod_action

record node_work_item =
  nitem_node :: node
  nitem_name :: string
  nitem_action :: node_action

record cache =
  annotatedPods :: "(string, string) gomap"
  nodeStatuses :: "(string, node_resources) gomap"
  nodeTileStatuses :: "(string, node_tiles) gomap"
  previousDeschedCards :: "(string, string list) gomap"
  previousDeschedTiles :: "(string, string list) gomap"
  podDeschedStatuses :: "(string, bool) gomap"
  podWorkQueue :: "pod_work_item list"
  nodeWorkQueue :: "node_work_item list"

definition newCache :: cache where
  "newCache = \<lparr>annotatedPods = [], nodeStatuses = [], nodeTileStatuses = [],
     previousDeschedCards = [], previousDeschedTiles = [], podDeschedStatuses = [],
     podWorkQueue = [], nodeWorkQueue = []\<rparr>"

text \<open>What an informer hands to an event handler: an object, or the tombstone of one.\<close>

datatype kube_obj = ObjPod pod | ObjNode node | DeletedFinalStateUnknown kube_obj | ObjOther

datatype json_value = JString string | JEmptyObject

record patchValue =
  patch_op :: string
  patch_path :: string
  patch_value :: json_value

text \<open>
  The Kubernetes calls: the field selector's parser, the list of the pods that run on a node, and
  the JSON patch of a pod; \<^const>\<open>Some\<close> text is the error of a patch.
\<close>

record kube_api =
  parse_selector :: "string \<Rightarrow> string + string"
  list_pods :: "string \<Rightarrow> string + pod list"
  patch_pod :: "pod \<Rightarrow> patchValue list \<Rightarrow> string option"

type_synonym patch_log = "(pod \<times> patchValue list) list"

subsection \<open>Constants\<close>

definition gpuDescheduleLabelPrefix :: string where "gpuDescheduleLabelPrefix = ''gas-deschedule-pods-''"
definition podDescheduleString :: string where
  "podDescheduleString = ''gpu.aware.scheduling~1deschedule-pod''"
definition pciGroupValue :: string where "pciGroupValue = ''PCI_GROUP''"
definition tileString :: string where "tileString = ''gt''"
definition cardAnnotationName :: string where "cardAnnotationName = ''gas-container-cards''"
definition tileAnnotationName :: string where "tileAnnotationName = ''gas-container-tiles''"

subsection \<open>Adjusting the resources of a node\<close>

definition getKey :: "pod \<Rightarrow> string" where
  "getKey pod = pod_namespace pod @ ''&'' @ pod_name pod"

definition newCopyNodeStatus :: "cache \<Rightarrow> string \<Rightarrow> node_resources" where
  "newCopyNodeStatus c nodeName =
     (case map_of (nodeStatuses c) nodeName of
        None \<Rightarrow> []
      | Some srcNodeRes \<Rightarrow>
          fold (\<lambda>cardName nodeRes.
              AList.update cardName (newCopy (gm_getd [] srcNodeRes cardName)) nodeRes)
            (map fst srcNodeRes) [])"

definition resource_op :: "bool \<Rightarrow> resource_map \<Rightarrow> resource_map \<Rightarrow> gas_error + resource_map" where
  "resource_op adj = (if adj then addRM else subtractRM)"

definition ensure_entry :: "'k \<Rightarrow> ('k, 'a list) gomap \<Rightarrow> ('k, 'a list) gomap" where
  "ensure_entry k m = (case map_of m k of Some _ \<Rightarrow> m | None \<Rightarrow> AList.update k [] m)"

text \<open>The trial run of \<^verbatim>\<open>checkPodResourceAdjustmentImpl\<close>: the first error ends it.\<close>

definition check_card_step ::
  "(resource_map \<Rightarrow> resource_map \<Rightarrow> gas_error + resource_map) \<Rightarrow> resource_map \<Rightarrow>
   string \<Rightarrow> node_resources \<Rightarrow> gas_error + node_resources" where
  "check_card_step upd request cardName nodeRes =
     (let nodeRes = ensure_entry cardName nodeRes
      in case upd (gm_getd [] nodeRes cardName) request of
           Inl err \<Rightarrow> Inl err
         | Inr rm \<Rightarrow> Inr (AList.update cardName rm nodeRes))"

definition check_container_step ::
  "(resource_map \<Rightarrow> resource_map \<Rightarrow> gas_error + resource_map) \<Rightarrow>
   resource_map \<times> string \<Rightarrow> node_resources \<Rightarrow> gas_error + node_resources" where
  "check_container_step upd container nodeRes =
     (case container of (containerRequest, containerCard) \<Rightarrow>
        let cardNames = split_on CHR '','' containerCard;
            numCards = length cardNames
        in if numCards = 0 \<or> length containerCard = 0 then Inr nodeRes
           else case rm_divide (newCopy containerRequest) (int numCards) of
                  Inl err \<Rightarrow> Inl err
                | Inr request \<Rightarrow> efold (check_card_step upd request) cardNames nodeRes)"

definition checkPodResourceAdjustmentImpl ::
  "cache \<Rightarrow> resource_map list \<Rightarrow> string \<Rightarrow> string list \<Rightarrow> bool \<Rightarrow> gas_error + unit" where
  "checkPodResourceAdjustmentImpl c reqs nodeName containerCards adj =
     (case efold (check_container_step (resource_op adj)) (zip reqs containerCards)
             (newCopyNodeStatus c nodeName) of
        Inl err \<Rightarrow> Inl err
      | Inr nodeRes \<Rightarrow> Inr ())"

definition checkPodResourceAdjustment ::
  "cache \<Rightarrow> resource_map list \<Rightarrow> string \<Rightarrow> string list \<Rightarrow> bool \<Rightarrow> gas_error + unit" where
  "checkPodResourceAdjustment c reqs nodeName containerCards adj =
     (if length reqs \<noteq> length containerCards \<or> nodeName = [] then Inl ErrBadArgs
      else checkPodResourceAdjustmentImpl c reqs nodeName containerCards adj)"

definition blindAdjustResources :: "bool \<Rightarrow> resource_map \<Rightarrow> resource_map \<Rightarrow> resource_map" where
  "blindAdjustResources adj srcResMap dstResMap =
     (case resource_op adj dstResMap srcResMap of Inl _ \<Rightarrow> dstResMap | Inr rm \<Rightarrow> rm)"

definition apply_card_step ::
  "bool \<Rightarrow> resource_map \<Rightarrow> string \<Rightarrow> node_resources \<Rightarrow> node_resources" where
  "apply_card_step adj request cardName nodeRes =
     (let nodeRes = ensure_entry cardName nodeRes
      in AList.update cardName (blindAdjustResources adj request (gm_getd [] nodeRes cardName)) nodeRes)"

fun apply_containers ::
  "bool \<Rightarrow> string \<Rightarrow> (resource_map \<times> string) list \<Rightarrow> (string, node_resources) gomap \<Rightarrow>
   (gas_error + unit) \<times> (string, node_resources) gomap" where
  "apply_containers adj nodeName [] statuses = (Inr (), statuses)"
| "apply_containers adj nodeName ((containerRequest, containerCard) # rest) statuses =
     (let cardNames = split_on CHR '','' containerCard;
          numCards = length cardNames
      in if numCards = 0 \<or> length containerCard = 0
         then apply_containers adj nodeName rest statuses
         else case rm_divide containerRequest (int numCards) of
                Inl err \<Rightarrow> (Inl err, statuses)
              | Inr request \<Rightarrow>
                  let statuses = ensure_entry nodeName statuses
                  in apply_containers adj nodeName rest
                       (AList.update nodeName
                         (fold (apply_card_step adj request) cardNames (gm_getd [] statuses nodeName))
                         statuses))"

subsection \<open>Adjusting the tiles of a node\<close>

definition getTileIndices :: "string list \<Rightarrow> int list" where
  "getTileIndices tileNames =
     concat (map (\<lambda>tileName.
         if prefix tileString tileName
         then (case atoi (drop (length tileString) tileName) of (index, ok) \<Rightarrow>
                 if ok \<and> 0 \<le> index then [index] else [])
         else []) tileNames)"

definition adjust_gpu_tiles ::
  "(int list \<Rightarrow> int list) \<Rightarrow> bool \<Rightarrow> string \<Rightarrow> node_tiles \<Rightarrow> node_tiles" where
  "adjust_gpu_tiles ord adj gpuString tileUsage =
     (case split_on CHR '':'' gpuString of
        [gpuName, tilePart] \<Rightarrow>
          (let oldUsed = fold List.insert (gm_getd [] tileUsage gpuName) [];
               newUsed = fold (\<lambda>tileIndex usedTilesMap.
                   if adj then List.insert tileIndex usedTilesMap else removeAll tileIndex usedTilesMap)
                 (getTileIndices (split_on CHR ''+'' tilePart)) oldUsed
           in AList.update gpuName (ord newUsed) tileUsage)
      | _ \<Rightarrow> tileUsage)"

definition adjust_container_tiles ::
  "(int list \<Rightarrow> int list) \<Rightarrow> bool \<Rightarrow> string \<Rightarrow> node_tiles \<Rightarrow> node_tiles" where
  "adjust_container_tiles ord adj containerPart tileUsage =
     (if length containerPart = 0 then tileUsage
      else fold (adjust_gpu_tiles ord adj) (split_on CHR '','' containerPart) tileUsage)"

definition adjustTiles ::
  "(int list \<Rightarrow> int list) \<Rightarrow> bool \<Rightarrow> string \<Rightarrow> string \<Rightarrow> cache \<Rightarrow> cache" where
  "adjustTiles ord adj nodeName tileAnnotation c =
     c\<lparr>nodeTileStatuses :=
       AList.update nodeName
         (fold (adjust_container_tiles ord adj) (split_on CHR ''|'' tileAnnotation)
           (gm_getd [] (nodeTileStatuses c) nodeName))
         (nodeTileStatuses c)\<rparr>"

subsection \<open>Adjusting for a pod\<close>

definition adjustPodResources ::
  "(int list \<Rightarrow> int list) \<Rightarrow> pod \<Rightarrow> bool \<Rightarrow> string \<Rightarrow> string \<Rightarrow> string \<Rightarrow> cache \<Rightarrow>
   (gas_error + unit) \<times> cache" where
  "adjustPodResources ord pod adj annotation tileAnnotation nodeName c =
     (let reqs = snd (containerRequests pod []);
          containerCards = split_on CHR ''|'' annotation
      in case checkPodResourceAdjustment c reqs nodeName containerCards adj of
           Inl err \<Rightarrow> (Inl err, c)
         | Inr _ \<Rightarrow>
             (case apply_containers adj nodeName (zip reqs containerCards) (nodeStatuses c) of
                (Inl err, statuses) \<Rightarrow> (Inl err, c\<lparr>nodeStatuses := statuses\<rparr>)
              | (Inr _, statuses) \<Rightarrow>
                  let c = adjustTiles ord adj nodeName tileAnnotation (c\<lparr>nodeStatuses := statuses\<rparr>)
                  in (Inr (), c\<lparr>annotatedPods :=
                       if adj then AList.update (getKey pod) annotation (annotatedPods c)
                       else AList.delete (getKey pod) (annotatedPods c)\<rparr>)))"

definition adjustPodResourcesL ::
  "(int list \<Rightarrow> int list) \<Rightarrow> pod \<Rightarrow> bool \<Rightarrow> string \<Rightarrow> string \<Rightarrow> string \<Rightarrow> cache \<Rightarrow>
   (gas_error + unit) \<times> cache" where
  "adjustPodResourcesL ord pod adj annotation tileAnnotation nodeName c =
     adjustPodResources ord pod adj annotation tileAnnotation nodeName c"

text \<open>The copies the scheduler reads.\<close>

definition getNodeTileStatus :: "cache \<Rightarrow> string \<Rightarrow> node_tiles" where
  "getNodeTileStatus c nodeName =
     fold (\<lambda>(gpuName, tiles) dst. gm_append gpuName tiles dst)
       (gm_getd [] (nodeTileStatuses c) nodeName) []"

definition getNodeResourceStatus :: "cache \<Rightarrow> string \<Rightarrow> node_resources" where
  "getNodeResourceStatus c nodeName =
     fold (\<lambda>(cardName, rm) dst.
         AList.update cardName (fold (\<lambda>(key, value) m. AList.update key value m) rm []) dst)
       (gm_getd [] (nodeStatuses c) nodeName) []"

subsection \<open>What the amounts of a node are\<close>

definition node_ok :: "node_resources \<Rightarrow> bool" where
  "node_ok nr \<longleftrightarrow> wf_map nr \<and> (\<forall>cardName rm. map_of nr cardName = Some rm \<longrightarrow> sane rm)"

definition card_amount :: "node_resources \<Rightarrow> string \<Rightarrow> string \<Rightarrow> int" where
  "card_amount nr cardName res = amount (gm_getd [] nr cardName) res"

definition card_keys :: "node_resources \<Rightarrow> string \<Rightarrow> string set" where
  "card_keys nr cardName = fst ` set (gm_getd [] nr cardName)"

text \<open>
  What the containers of a pod take from a card: a container's request is shared equally (rounding
  down) between the cards its part of the annotation lists, a card listed twice taking two shares.
\<close>

definition container_charge :: "string \<Rightarrow> string \<Rightarrow> resource_map \<times> string \<Rightarrow> int" where
  "container_charge cardName res container =
     (case container of (request, csv) \<Rightarrow>
        if csv = [] then 0
        else int (count_list (split_on CHR '','' csv) cardName) *
               (amount request res div int (length (split_on CHR '','' csv))))"

definition containers_charge :: "string \<Rightarrow> string \<Rightarrow> (resource_map \<times> string) list \<Rightarrow> int" where
  "containers_charge cardName res cs = sum_list (map (container_charge cardName res) cs)"

definition pod_charge :: "pod \<Rightarrow> string \<Rightarrow> string \<Rightarrow> string \<Rightarrow> int" where
  "pod_charge pod annotation cardName res =
     containers_charge cardName res
       (zip (snd (containerRequests pod [])) (split_on CHR ''|'' annotation))"

lemma node_ok_Nil [simp, intro]: "node_ok []"
  by (simp add: node_ok_def)

lemma node_ok_wf [dest]: "node_ok nr \<Longrightarrow> wf_map nr"
  by (simp add: node_ok_def)

lemma node_ok_sane [simp, intro]: "node_ok nr \<Longrightarrow> sane (gm_getd [] nr cardName)"
  by (auto simp: node_ok_def gm_getd_def split: option.splits)

lemma node_ok_update [intro]: "node_ok nr \<Longrightarrow> sane rm \<Longrightarrow> node_ok (AList.update cardName rm nr)"
  by (auto simp: node_ok_def)

lemma wf_ensure [simp, intro]: "wf_map m \<Longrightarrow> wf_map (ensure_entry k m)"
  by (auto simp: ensure_entry_def split: option.splits)

lemma map_of_ensure: "map_of (ensure_entry k m) j =
    (if j = k \<and> map_of m k = None then Some [] else map_of m j)"
  by (auto simp: ensure_entry_def split: option.splits)

lemma gm_getd_ensure [simp, gomap_simps]: "gm_getd [] (ensure_entry k m) j = gm_getd [] m j"
  by (auto simp: gm_getd_def map_of_ensure)

lemma node_ok_ensure [simp, intro]: "node_ok nr \<Longrightarrow> node_ok (ensure_entry cardName nr)"
  by (auto simp: node_ok_def map_of_ensure split: if_splits)

lemma card_amount_nonneg [simp]: "node_ok nr \<Longrightarrow> 0 \<le> card_amount nr cardName res"
  by (simp add: card_amount_def)

lemma card_amount_update [simp]: "card_amount (AList.update cardName rm nr) j res =
    (if j = cardName then amount rm res else card_amount nr j res)"
  by (simp add: card_amount_def)

lemma card_keys_update [simp]: "card_keys (AList.update cardName rm nr) j =
    (if j = cardName then fst ` set rm else card_keys nr j)"
  by (simp add: card_keys_def)

lemma card_amount_ensure [simp]: "card_amount (ensure_entry k nr) j res = card_amount nr j res"
  by (simp add: card_amount_def)

lemma card_keys_ensure [simp]: "card_keys (ensure_entry k nr) j = card_keys nr j"
  by (simp add: card_keys_def)

lemma count_list_le_length: "int (count_list xs x) \<le> int (length xs)"
  by (simp add: count_le_length)

lemma container_charge_nonneg:
  "sane request \<Longrightarrow> 0 \<le> container_charge cardName res (request, csv)"
  by (simp add: container_charge_def pos_imp_zdiv_nonneg_iff)

definition requests_sane :: "(resource_map \<times> string) list \<Rightarrow> bool" where
  "requests_sane cs \<longleftrightarrow> (\<forall>(request, csv) \<in> set cs. sane request)"

lemma requests_sane_simps [simp]:
  "requests_sane []"
  "requests_sane ((request, csv) # cs) \<longleftrightarrow> sane request \<and> requests_sane cs"
  by (auto simp: requests_sane_def)

lemma containers_charge_nonneg: "requests_sane cs \<Longrightarrow> 0 \<le> containers_charge cardName res cs"
  by (auto simp: requests_sane_def containers_charge_def intro!: sum_list_nonneg container_charge_nonneg)

text \<open>The resources that the containers ask of a card.\<close>

definition container_keys :: "string \<Rightarrow> resource_map \<times> string \<Rightarrow> string set" where
  "container_keys cardName container =
     (case container of (request, csv) \<Rightarrow>
        if csv \<noteq> [] \<and> cardName \<in> set (split_on CHR '','' csv) then fst ` set request else {})"

definition containers_keys :: "string \<Rightarrow> (resource_map \<times> string) list \<Rightarrow> string set" where
  "containers_keys cardName cs = (\<Union>c \<in> set cs. container_keys cardName c)"

lemma containers_keys_simps [simp]:
  "containers_keys cardName [] = {}"
  "containers_keys cardName (c # cs) = container_keys cardName c \<union> containers_keys cardName cs"
  by (auto simp: containers_keys_def)

lemma containers_charge_Cons [simp]: "containers_charge cardName res (c # cs) =
    container_charge cardName res c + containers_charge cardName res cs"
  by (simp add: containers_charge_def)

lemma containers_charge_Nil [simp]: "containers_charge cardName res [] = 0"
  by (simp add: containers_charge_def)

subsection \<open>The trial run, for both directions\<close>

context rm_operation
begin

lemma card_step_result:
  assumes "check_card_step upd req cd nr = Inr nr'" "node_ok nr" "wf_map req"
  shows "node_ok nr' \<and>
    (\<forall>j res. card_amount nr' j res =
       (if j = cd then eff (card_amount nr j res) (amount req res) else card_amount nr j res)) \<and>
    (\<forall>j. card_keys nr' j = (if j = cd then fst ` set req \<union> card_keys nr j else card_keys nr j))"
proof -
  from assms(1) obtain rm where rm: "upd (gm_getd [] nr cd) req = Inr rm"
    and nr': "nr' = AList.update cd rm (ensure_entry cd nr)"
    by (auto simp: check_card_step_def Let_def split: sum.splits)
  from upd_result [OF node_ok_sane [OF assms(2)] assms(3) rm] assms(2) show ?thesis
    by (auto simp: nr' card_amount_def card_keys_def)
qed

lemma cards_loop_result:
  assumes "efold (check_card_step upd req) cds nr = Inr nr'" "node_ok nr" "sane req"
  shows "node_ok nr' \<and>
    (\<forall>j res. card_amount nr' j res = eff (card_amount nr j res) (int (count_list cds j) * amount req res)) \<and>
    (\<forall>j. card_keys nr' j = (if j \<in> set cds then fst ` set req \<union> card_keys nr j else card_keys nr j))"
  using assms(1,2)
proof (induction cds arbitrary: nr)
  case Nil
  then show ?case by (simp add: eff_zero)
next
  case (Cons cd cds)
  then obtain nr1 where st: "check_card_step upd req cd nr = Inr nr1"
    and rest: "efold (check_card_step upd req) cds nr1 = Inr nr'"
    by (auto split: sum.splits)
  note s1 = card_step_result [OF st Cons.prems(2) sane_wf [OF assms(3)]]
  note s2 = Cons.IH [OF rest conjunct1 [OF s1]]
  have "eff (eff (card_amount nr cd res) (amount req res)) (int (count_list cds cd) * amount req res) =
      eff (card_amount nr cd res) (amount req res + int (count_list cds cd) * amount req res)" for res
    using Cons.prems(2) assms(3) by (intro eff_eff) auto
  with s1 s2 show ?case
    by (auto simp: algebra_simps)
qed

lemma container_step_result:
  assumes "check_container_step upd (req, csv) nr = Inr nr'" "node_ok nr" "sane req"
  shows "node_ok nr' \<and>
    (\<forall>j res. card_amount nr' j res = eff (card_amount nr j res) (container_charge j res (req, csv))) \<and>
    (\<forall>j. card_keys nr' j = card_keys nr j \<union> container_keys j (req, csv))"
proof (cases "csv = []")
  case True
  with assms show ?thesis
    by (simp add: check_container_step_def container_charge_def container_keys_def eff_zero)
next
  case False
  let ?cds = "split_on CHR '','' csv"
  have nc: "newCopy req = req" using assms(3) by auto
  from False assms(1) nc obtain req' where d: "rm_divide req (int (length ?cds)) = Inr req'"
    and loop: "efold (check_card_step upd req') ?cds nr = Inr nr'"
    by (auto simp: check_container_step_def Let_def split: sum.splits)
  have "fst ` set req' = fst ` set req"
    using rm_divide_keys [OF d] by (metis set_map)
  with cards_loop_result [OF loop assms(2) rm_divide_amount(1) [OF assms(3) d]] False
    rm_divide_amount(2) [OF assms(3) d]
  show ?thesis by (auto simp: container_charge_def container_keys_def)
qed

lemma containers_result:
  assumes "efold (check_container_step upd) cs nr = Inr nr'" "node_ok nr"
    and "requests_sane cs"
  shows "node_ok nr' \<and>
    (\<forall>j res. card_amount nr' j res = eff (card_amount nr j res) (containers_charge j res cs)) \<and>
    (\<forall>j. card_keys nr' j = card_keys nr j \<union> containers_keys j cs)"
  using assms
proof (induction cs arbitrary: nr)
  case Nil
  then show ?case by (simp add: eff_zero)
next
  case (Cons c cs)
  obtain req csv where c: "c = (req, csv)" by (cases c)
  with Cons.prems(1) obtain nr1 where st: "check_container_step upd (req, csv) nr = Inr nr1"
    and rest: "efold (check_container_step upd) cs nr1 = Inr nr'"
    by (auto split: sum.splits)
  from Cons.prems(3) c have s: "sane req" and ss: "requests_sane cs" by simp_all
  note s1 = container_step_result [OF st Cons.prems(2) s]
  note s2 = Cons.IH [OF rest conjunct1 [OF s1] ss]
  note nn = containers_charge_nonneg [OF ss]
  have "eff (eff (card_amount nr j res) (container_charge j res c)) (containers_charge j res cs) =
      eff (card_amount nr j res) (container_charge j res c + containers_charge j res cs)" for j res
    using Cons.prems(2) container_charge_nonneg [OF s] nn c by (intro eff_eff) auto
  with s1 s2 show ?case
    by (auto simp: c)
qed

end

subsection \<open>The run that changes the state\<close>

text \<open>What the trial run checked is what the second run does: it starts from an equal copy, and a
  step that succeeded on trial changes the map in the same way.\<close>

lemma newCopyNodeStatus_eq:
  assumes "node_ok (gm_getd [] (nodeStatuses c) nodeName)"
  shows "newCopyNodeStatus c nodeName = gm_getd [] (nodeStatuses c) nodeName"
proof (cases "map_of (nodeStatuses c) nodeName")
  case None
  then show ?thesis by (simp add: newCopyNodeStatus_def gm_getd_def)
next
  case (Some src)
  with assms have ok: "node_ok src" by (simp add: gm_getd_Some)
  have "fold (\<lambda>k m. AList.update k (newCopy (gm_getd [] src k)) m) (map fst src) [] = [] @ src"
  proof (rule copy_loop_fresh)
    show "distinct (map fst ([] @ src))" using ok by (simp add: node_ok_def wf_map_def)
    fix k v assume "(k, v) \<in> set src"
    with ok have "map_of src k = Some v" by (simp add: node_ok_def wf_map_lookup)
    with ok show "newCopy (gm_getd [] src k) = v"
      by (metis gm_getd_Some newCopy_wf node_ok_def sane_wf)
  qed
  with Some show ?thesis by (simp add: newCopyNodeStatus_def gm_getd_Some)
qed

lemma check_container_step_cards:
  "csv \<noteq> [] \<Longrightarrow> check_container_step upd (req, csv) nr =
     (case rm_divide (newCopy req) (int (length (split_on CHR '','' csv))) of
        Inl err \<Rightarrow> Inl err
      | Inr request \<Rightarrow> efold (check_card_step upd request) (split_on CHR '','' csv) nr)"
  by (simp add: check_container_step_def Let_def)

lemma apply_card_trial:
  "check_card_step (resource_op adj) request cardName nr = Inr nr' \<Longrightarrow>
     apply_card_step adj request cardName nr = nr'"
  by (auto simp: check_card_step_def apply_card_step_def blindAdjustResources_def Let_def
      split: sum.splits)

lemma apply_cards_trial:
  "efold (check_card_step (resource_op adj) request) cds nr = Inr nr' \<Longrightarrow>
     fold (apply_card_step adj request) cds nr = nr'"
  by (induction cds arbitrary: nr) (auto dest: apply_card_trial split: sum.splits)

lemma apply_containers_trial:
  assumes "efold (check_container_step (resource_op adj)) cs (gm_getd [] statuses nodeName) = Inr nr'"
    and "requests_sane cs"
  shows "\<exists>statuses'. apply_containers adj nodeName cs statuses = (Inr (), statuses') \<and>
    gm_getd [] statuses' nodeName = nr' \<and>
    (\<forall>other. other \<noteq> nodeName \<longrightarrow> map_of statuses' other = map_of statuses other) \<and>
    (wf_map statuses \<longrightarrow> wf_map statuses')"
  using assms
proof (induction cs arbitrary: statuses)
  case Nil
  then show ?case by simp
next
  case (Cons c cs)
  obtain req csv where c: "c = (req, csv)" by (cases c)
  show ?case
  proof (cases "csv = []")
    case True
    with Cons c show ?thesis by (simp add: check_container_step_def)
  next
    case False
    let ?cds = "split_on CHR '','' csv"
    have nc: "newCopy req = req" using Cons.prems(2) c by auto
    from Cons.prems c False nc obtain req' nr1 where d: "rm_divide req (int (length ?cds)) = Inr req'"
      and cards: "efold (check_card_step (resource_op adj) req') ?cds (gm_getd [] statuses nodeName) = Inr nr1"
      and rest: "efold (check_container_step (resource_op adj)) cs nr1 = Inr nr'"
      by (auto simp: check_container_step_cards split: sum.splits)
    let ?st = "AList.update nodeName nr1 (ensure_entry nodeName statuses)"
    have "gm_getd [] ?st nodeName = nr1" by simp
    with rest Cons.prems(2) c have "\<exists>statuses'. apply_containers adj nodeName cs ?st = (Inr (), statuses') \<and>
      gm_getd [] statuses' nodeName = nr' \<and>
      (\<forall>other. other \<noteq> nodeName \<longrightarrow> map_of statuses' other = map_of ?st other) \<and>
      (wf_map ?st \<longrightarrow> wf_map statuses')"
      by (intro Cons.IH) simp_all
    then show ?thesis
      using d False apply_cards_trial [OF cards] by (auto simp: c Let_def map_of_ensure)
  qed
qed

subsection \<open>The operations add and remove a pod's charge\<close>

definition charge_eff :: "bool \<Rightarrow> int \<Rightarrow> int \<Rightarrow> int" where
  "charge_eff adj a b = (if adj then a + b else max 0 (a - b))"

lemma resource_op_operation:
  "rm_operation (resource_op adj) (charge_eff adj) (if adj then add_admits else sub_admits)"
proof (cases adj)
  case True
  then show ?thesis
    using addrm.rm_operation_axioms by (simp add: resource_op_def charge_eff_def [abs_def])
next
  case False
  then show ?thesis
    using subrm.rm_operation_axioms
    by (simp add: resource_op_def charge_eff_def [abs_def] sub_eff_def [abs_def])
qed

text \<open>The state of a cache that its operations keep: one entry per key everywhere, no negative
  amount.\<close>

definition statuses_ok :: "(string, node_resources) gomap \<Rightarrow> bool" where
  "statuses_ok st \<longleftrightarrow> wf_map st \<and> (\<forall>nodeName nr. map_of st nodeName = Some nr \<longrightarrow> node_ok nr)"

definition tiles_ok :: "(string, node_tiles) gomap \<Rightarrow> bool" where
  "tiles_ok ts \<longleftrightarrow> wf_map ts \<and> (\<forall>nodeName nt. map_of ts nodeName = Some nt \<longrightarrow> wf_map nt)"

definition cache_inv :: "cache \<Rightarrow> bool" where
  "cache_inv c \<longleftrightarrow> statuses_ok (nodeStatuses c) \<and> tiles_ok (nodeTileStatuses c) \<and>
     wf_map (annotatedPods c) \<and> wf_map (previousDeschedCards c) \<and>
     wf_map (previousDeschedTiles c) \<and> wf_map (podDeschedStatuses c)"

definition node_usage :: "cache \<Rightarrow> string \<Rightarrow> string \<Rightarrow> string \<Rightarrow> int" where
  "node_usage c nodeName cardName res = card_amount (gm_getd [] (nodeStatuses c) nodeName) cardName res"

text \<open>A pod none of whose GPU requests is negative (the API server admits no other).\<close>

definition pod_sane :: "pod \<Rightarrow> bool" where
  "pod_sane pod \<longleftrightarrow> (\<forall>request \<in> set (snd (containerRequests pod [])). sane request)"

lemma statuses_ok_node [simp, intro]: "statuses_ok st \<Longrightarrow> node_ok (gm_getd [] st nodeName)"
  by (auto simp: statuses_ok_def gm_getd_def split: option.splits)

lemma cache_inv_node [simp, intro]: "cache_inv c \<Longrightarrow> node_ok (gm_getd [] (nodeStatuses c) nodeName)"
  by (auto simp: cache_inv_def)

lemma cache_inv_tiles [simp, intro]: "cache_inv c \<Longrightarrow> wf_map (gm_getd [] (nodeTileStatuses c) nodeName)"
  by (auto simp: cache_inv_def tiles_ok_def gm_getd_def split: option.splits)

lemma requests_sane_zip: "pod_sane pod \<Longrightarrow> requests_sane (zip (snd (containerRequests pod [])) cards)"
  by (auto simp: requests_sane_def pod_sane_def dest: set_zip_leftD)

text \<open>All that an accepted request does to the amounts of the node.\<close>

lemma adjust_accepted:
  assumes inv: "cache_inv c" and pod: "pod_sane pod"
    and ok: "checkPodResourceAdjustment c (snd (containerRequests pod [])) nodeName
        (split_on CHR ''|'' annotation) adj = Inr u"
  obtains statuses' where
    "apply_containers adj nodeName (zip (snd (containerRequests pod [])) (split_on CHR ''|'' annotation))
       (nodeStatuses c) = (Inr (), statuses')"
    "statuses_ok statuses'"
    "\<And>other. other \<noteq> nodeName \<Longrightarrow> map_of statuses' other = map_of (nodeStatuses c) other"
    "\<And>cardName res. card_amount (gm_getd [] statuses' nodeName) cardName res =
       charge_eff adj (node_usage c nodeName cardName res) (pod_charge pod annotation cardName res)"
    "\<And>cardName. card_keys (gm_getd [] statuses' nodeName) cardName =
       card_keys (gm_getd [] (nodeStatuses c) nodeName) cardName \<union>
       containers_keys cardName (zip (snd (containerRequests pod [])) (split_on CHR ''|'' annotation))"
proof -
  let ?cs = "zip (snd (containerRequests pod [])) (split_on CHR ''|'' annotation)"
  from ok newCopyNodeStatus_eq [OF cache_inv_node [OF inv]] obtain nr'
    where tr: "efold (check_container_step (resource_op adj)) ?cs (gm_getd [] (nodeStatuses c) nodeName) = Inr nr'"
    by (auto simp: checkPodResourceAdjustment_def checkPodResourceAdjustmentImpl_def
        split: if_splits sum.splits)
  note rs = requests_sane_zip [OF pod, of "split_on CHR ''|'' annotation"]
  note res = rm_operation.containers_result [OF resource_op_operation tr cache_inv_node [OF inv] rs]
  from apply_containers_trial [OF tr rs] inv obtain statuses' where
    ap: "apply_containers adj nodeName ?cs (nodeStatuses c) = (Inr (), statuses')"
    and nr': "gm_getd [] statuses' nodeName = nr'"
    and others: "\<And>other. other \<noteq> nodeName \<Longrightarrow> map_of statuses' other = map_of (nodeStatuses c) other"
    and wf: "wf_map statuses'"
    by (auto simp: cache_inv_def statuses_ok_def)
  have "node_ok nr" if "map_of statuses' n = Some nr" for n nr
    using that others [of n] nr' res inv
    by (cases "n = nodeName") (auto simp: gm_getd_Some cache_inv_def statuses_ok_def)
  with wf have "statuses_ok statuses'" by (simp add: statuses_ok_def)
  with ap others nr' res that show thesis
    by (simp add: node_usage_def pod_charge_def)
qed

subsection \<open>The tiles in use\<close>

text \<open>What a tile annotation says: container by container, GPU by GPU, the tiles it holds.\<close>

definition entry_tiles :: "string \<Rightarrow> string \<Rightarrow> int set" where
  "entry_tiles gpuName gpuString =
     (case split_on CHR '':'' gpuString of
        [name, tilePart] \<Rightarrow>
          if name = gpuName then set (getTileIndices (split_on CHR ''+'' tilePart)) else {}
      | _ \<Rightarrow> {})"

definition annotation_tiles :: "string \<Rightarrow> string \<Rightarrow> int set" where
  "annotation_tiles gpuName tileAnnotation =
     (\<Union>containerPart \<in> set (split_on CHR ''|'' tileAnnotation).
        if containerPart = [] then {}
        else \<Union>gpuString \<in> set (split_on CHR '','' containerPart). entry_tiles gpuName gpuString)"

definition tiles_used :: "cache \<Rightarrow> string \<Rightarrow> string \<Rightarrow> int set" where
  "tiles_used c nodeName gpuName = set (gm_getd [] (gm_getd [] (nodeTileStatuses c) nodeName) gpuName)"

definition tile_eff :: "bool \<Rightarrow> int set \<Rightarrow> int set \<Rightarrow> int set" where
  "tile_eff adj old tiles = (if adj then old \<union> tiles else old - tiles)"

lemma tile_eff_empty [simp]: "tile_eff adj old {} = old"
  by (simp add: tile_eff_def)

lemma tile_eff_eff: "tile_eff adj (tile_eff adj old a) b = tile_eff adj old (a \<union> b)"
  by (auto simp: tile_eff_def)

lemma set_fold_insert: "set (fold List.insert xs acc) = set xs \<union> set acc"
  by (induction xs arbitrary: acc) auto

lemma set_fold_tiles:
  "set (fold (\<lambda>i used. if adj then List.insert i used else removeAll i used) is old) =
     tile_eff adj (set old) (set is)"
  by (induction "is" arbitrary: old) (auto simp: tile_eff_def)

lemma adjust_gpu_tiles_set:
  assumes "range_order ord"
  shows "set (gm_getd [] (adjust_gpu_tiles ord adj gpuString usage) g) =
    tile_eff adj (set (gm_getd [] usage g)) (entry_tiles g gpuString)"
  by (auto simp: adjust_gpu_tiles_def entry_tiles_def range_order_set [OF assms] set_fold_tiles
      set_fold_insert split: list.splits)

lemma adjust_gpu_tiles_wf: "wf_map usage \<Longrightarrow> wf_map (adjust_gpu_tiles ord adj gpuString usage)"
  by (auto simp: adjust_gpu_tiles_def Let_def split: list.splits)

lemma fold_tile_eff:
  assumes "\<And>x m. set (gm_getd [] (f x m) g) = tile_eff adj (set (gm_getd [] m g)) (A x)"
  shows "set (gm_getd [] (fold f xs m) g) = tile_eff adj (set (gm_getd [] m g)) (\<Union>x \<in> set xs. A x)"
  by (induction xs arbitrary: m) (simp_all add: assms tile_eff_eff)

lemma fold_wf: "(\<And>x m. wf_map m \<Longrightarrow> wf_map (f x m)) \<Longrightarrow> wf_map m \<Longrightarrow> wf_map (fold f xs m)"
  by (induction xs arbitrary: m) auto

lemma adjust_container_tiles_set:
  assumes "range_order ord"
  shows "set (gm_getd [] (adjust_container_tiles ord adj part usage) g) =
    tile_eff adj (set (gm_getd [] usage g))
      (if part = [] then {} else \<Union>gpuString \<in> set (split_on CHR '','' part). entry_tiles g gpuString)"
  by (simp add: adjust_container_tiles_def fold_tile_eff [OF adjust_gpu_tiles_set [OF assms]])

lemma adjust_container_tiles_wf: "wf_map usage \<Longrightarrow> wf_map (adjust_container_tiles ord adj part usage)"
  by (auto simp: adjust_container_tiles_def intro: fold_wf adjust_gpu_tiles_wf)

lemma adjustTiles_used:
  assumes "range_order ord"
  shows "tiles_used (adjustTiles ord adj nodeName tileAnnotation c) n g =
    (if n = nodeName then tile_eff adj (tiles_used c n g) (annotation_tiles g tileAnnotation)
     else tiles_used c n g)"
  by (simp add: adjustTiles_def tiles_used_def annotation_tiles_def
      fold_tile_eff [OF adjust_container_tiles_set [OF assms]])

lemma adjustTiles_ok:
  assumes "tiles_ok (nodeTileStatuses c)"
  shows "tiles_ok (nodeTileStatuses (adjustTiles ord adj nodeName tileAnnotation c))"
proof -
  have "wf_map (gm_getd [] (nodeTileStatuses c) nodeName)"
    using assms by (auto simp: tiles_ok_def gm_getd_def split: option.splits)
  then have "wf_map (fold (adjust_container_tiles ord adj) xs (gm_getd [] (nodeTileStatuses c) nodeName))"
    for xs by (intro fold_wf adjust_container_tiles_wf)
  with assms show ?thesis by (auto simp: adjustTiles_def tiles_ok_def)
qed

lemma adjustTiles_frame [simp]:
  "nodeStatuses (adjustTiles ord adj nodeName t c) = nodeStatuses c"
  "annotatedPods (adjustTiles ord adj nodeName t c) = annotatedPods c"
  "previousDeschedCards (adjustTiles ord adj nodeName t c) = previousDeschedCards c"
  "previousDeschedTiles (adjustTiles ord adj nodeName t c) = previousDeschedTiles c"
  "podDeschedStatuses (adjustTiles ord adj nodeName t c) = podDeschedStatuses c"
  "podWorkQueue (adjustTiles ord adj nodeName t c) = podWorkQueue c"
  "nodeWorkQueue (adjustTiles ord adj nodeName t c) = nodeWorkQueue c"
  by (simp_all add: adjustTiles_def)

subsection \<open>Adjusting for a pod: the contract\<close>

text \<open>
  \<open>adjust_result\<close> is the specification of an accepted adjustment in terms of the amounts and tiles
  in use: the abstract state that the scheduler reasons about.
\<close>

definition adjust_result ::
  "pod \<Rightarrow> bool \<Rightarrow> string \<Rightarrow> string \<Rightarrow> string \<Rightarrow> cache \<Rightarrow> cache \<Rightarrow> bool" where
  "adjust_result pod adj annotation tileAnnotation nodeName c c' \<longleftrightarrow>
     (\<forall>n cardName res. node_usage c' n cardName res =
        (if n = nodeName then charge_eff adj (node_usage c n cardName res) (pod_charge pod annotation cardName res)
         else node_usage c n cardName res)) \<and>
     (\<forall>n g. tiles_used c' n g =
        (if n = nodeName then tile_eff adj (tiles_used c n g) (annotation_tiles g tileAnnotation)
         else tiles_used c n g)) \<and>
     map_of (annotatedPods c') =
       (map_of (annotatedPods c))(getKey pod := (if adj then Some annotation else None)) \<and>
     (previousDeschedCards c', previousDeschedTiles c', podDeschedStatuses c', podWorkQueue c', nodeWorkQueue c') =
       (previousDeschedCards c, previousDeschedTiles c, podDeschedStatuses c, podWorkQueue c, nodeWorkQueue c)"

lemma adjust_success:
  assumes inv: "cache_inv c" and pod: "pod_sane pod" and ord: "range_order ord"
    and ok: "checkPodResourceAdjustment c (snd (containerRequests pod [])) nodeName
        (split_on CHR ''|'' annotation) adj = Inr u"
  obtains c' where "adjustPodResources ord pod adj annotation tileAnnotation nodeName c = (Inr (), c')"
    "cache_inv c'" "adjust_result pod adj annotation tileAnnotation nodeName c c'"
    "\<And>cardName. card_keys (gm_getd [] (nodeStatuses c') nodeName) cardName =
       card_keys (gm_getd [] (nodeStatuses c) nodeName) cardName \<union>
       containers_keys cardName (zip (snd (containerRequests pod [])) (split_on CHR ''|'' annotation))"
proof -
  obtain statuses' where ap: "apply_containers adj nodeName
      (zip (snd (containerRequests pod [])) (split_on CHR ''|'' annotation)) (nodeStatuses c) = (Inr (), statuses')"
    and st: "statuses_ok statuses'"
    and others: "\<And>other. other \<noteq> nodeName \<Longrightarrow> map_of statuses' other = map_of (nodeStatuses c) other"
    and am: "\<And>cardName res. card_amount (gm_getd [] statuses' nodeName) cardName res =
       charge_eff adj (node_usage c nodeName cardName res) (pod_charge pod annotation cardName res)"
    and keys: "\<And>cardName. card_keys (gm_getd [] statuses' nodeName) cardName =
       card_keys (gm_getd [] (nodeStatuses c) nodeName) cardName \<union>
       containers_keys cardName (zip (snd (containerRequests pod [])) (split_on CHR ''|'' annotation))"
    using adjust_accepted [OF inv pod ok] by metis
  let ?c1 = "adjustTiles ord adj nodeName tileAnnotation (c\<lparr>nodeStatuses := statuses'\<rparr>)"
  let ?c' = "?c1\<lparr>annotatedPods := if adj then AList.update (getKey pod) annotation (annotatedPods ?c1)
      else AList.delete (getKey pod) (annotatedPods ?c1)\<rparr>"
  have eq: "adjustPodResources ord pod adj annotation tileAnnotation nodeName c = (Inr (), ?c')"
    using ok ap by (simp add: adjustPodResources_def Let_def)
  have tiles: "tiles_ok (nodeTileStatuses ?c1)"
    using inv by (intro adjustTiles_ok) (simp add: cache_inv_def)
  have inv': "cache_inv ?c'"
    using inv st tiles by (auto simp: cache_inv_def)
  have other: "n \<noteq> nodeName \<Longrightarrow> gm_getd [] statuses' n = gm_getd [] (nodeStatuses c) n" for n
    using others by (simp add: gm_getd_def)
  have tu: "tiles_used ?c' n g = tiles_used ?c1 n g" "tiles_used (c\<lparr>nodeStatuses := statuses'\<rparr>) n g = tiles_used c n g"
    for n g by (simp_all add: tiles_used_def)
  have "adjust_result pod adj annotation tileAnnotation nodeName c ?c'"
    unfolding adjust_result_def tu(1) adjustTiles_used [OF ord] tu(2)
    using am other by (auto simp: node_usage_def)
  with eq inv' keys show thesis by (intro that [of ?c']) auto
qed

lemma adjust_failure:
  assumes "checkPodResourceAdjustment c (snd (containerRequests pod [])) nodeName
        (split_on CHR ''|'' annotation) adj = Inl err"
  shows "adjustPodResources ord pod adj annotation tileAnnotation nodeName c = (Inl err, c)"
  using assms by (simp add: adjustPodResources_def)

subsection \<open>When an adjustment is accepted\<close>

lemma add_card_accepts:
  assumes "node_ok nr" "sane req" "\<And>res. card_amount nr cd res + amount req res \<le> max_int64"
  shows "\<exists>nr'. check_card_step addRM req cd nr = Inr nr'"
proof -
  have "add_admits (gm_getd [] nr cd) k v" if "(k, v) \<in> set req" for k v
  proof -
    from that assms(2) have "map_of req k = Some v" by (auto simp: sane_iff wf_map_lookup)
    then have "amount req k = sint v" by (simp add: amount_def gm_getd_Some)
    with assms(3) [of k] that assms(2) show ?thesis
      by (auto simp: add_admits_def card_amount_def sane_def)
  qed
  then have "\<exists>rm. addRM (gm_getd [] nr cd) req = Inr rm"
    using addrm.upd_iff [OF node_ok_sane [OF assms(1)] sane_wf [OF assms(2)]] by blast
  then show ?thesis by (auto simp: check_card_step_def Let_def)
qed

lemma add_cards_accepts:
  assumes "node_ok nr" "sane req"
    "\<And>j res. card_amount nr j res + int (count_list cds j) * amount req res \<le> max_int64"
  shows "\<exists>nr'. efold (check_card_step addRM req) cds nr = Inr nr'"
  using assms(1,3)
proof (induction cds arbitrary: nr)
  case Nil
  then show ?case by simp
next
  case (Cons cd cds)
  have nn: "0 \<le> int (count_list cds j) * amount req res" for j res
    using assms(2) by simp
  have "card_amount nr cd res + amount req res \<le> max_int64" for res
    using Cons.prems(2) [of cd res] nn [of cd res] by (simp add: algebra_simps)
  with add_card_accepts [OF Cons.prems(1) assms(2), of cd] obtain nr1
    where st: "check_card_step addRM req cd nr = Inr nr1" by blast
  note s1 = addrm.card_step_result [OF st Cons.prems(1) sane_wf [OF assms(2)]]
  have "card_amount nr1 j res + int (count_list cds j) * amount req res \<le> max_int64" for j res
    using s1 Cons.prems(2) [of j res] by (cases "j = cd") (simp_all add: algebra_simps)
  with s1 have "\<exists>nr'. efold (check_card_step addRM req) cds nr1 = Inr nr'"
    by (intro Cons.IH) auto
  with st show ?case by simp
qed

lemma add_containers_accepts:
  assumes "node_ok nr" "requests_sane cs"
    "\<And>j res. card_amount nr j res + containers_charge j res cs \<le> max_int64"
  shows "\<exists>nr'. efold (check_container_step addRM) cs nr = Inr nr'"
  using assms
proof (induction cs arbitrary: nr)
  case Nil
  then show ?case by simp
next
  case (Cons c cs)
  obtain req csv where c: "c = (req, csv)" by (cases c)
  from Cons.prems(2) c have s: "sane req" and ss: "requests_sane cs" by simp_all
  have "\<exists>nr1. check_container_step addRM (req, csv) nr = Inr nr1"
  proof (cases "csv = []")
    case True
    then show ?thesis by (simp add: check_container_step_def)
  next
    case False
    let ?cds = "split_on CHR '','' csv"
    have "1 \<le> int (length ?cds)"
      using length_split_on [of "CHR '',''" csv] by linarith
    then obtain req' where d: "rm_divide req (int (length ?cds)) = Inr req'"
      using rm_divide_Inr_iff [of req "int (length ?cds)"] by blast
    note dv = rm_divide_amount [OF s d]
    have "card_amount nr j res + int (count_list ?cds j) * amount req' res \<le> max_int64" for j res
      using Cons.prems(3) [of j res] containers_charge_nonneg [OF ss, of j res] False dv(2) [of res]
      by (simp add: c container_charge_def)
    from add_cards_accepts [OF Cons.prems(1) dv(1) this] d False s show ?thesis
      by (auto simp: check_container_step_cards)
  qed
  then obtain nr1 where st: "check_container_step addRM (req, csv) nr = Inr nr1" by blast
  note s1 = addrm.container_step_result [OF st Cons.prems(1) s]
  have "\<exists>nr'. efold (check_container_step addRM) cs nr1 = Inr nr'"
    using s1 ss Cons.prems(3) by (intro Cons.IH) (auto simp: c algebra_simps)
  with st c show ?case by simp
qed

lemma remove_cards_accepts:
  assumes "node_ok nr" "sane req" "\<And>j. j \<in> set cds \<Longrightarrow> fst ` set req \<subseteq> card_keys nr j"
  shows "\<exists>nr'. efold (check_card_step subtractRM req) cds nr = Inr nr'"
  using assms(1,3)
proof (induction cds arbitrary: nr)
  case Nil
  then show ?case by simp
next
  case (Cons cd cds)
  have "sub_admits (gm_getd [] nr cd) k v" if "(k, v) \<in> set req" for k v
    using that assms(2) Cons.prems(2) [of cd] by (force simp: sub_admits_def card_keys_def sane_def)
  then have "\<exists>rm. subtractRM (gm_getd [] nr cd) req = Inr rm"
    using subrm.upd_iff [OF node_ok_sane [OF Cons.prems(1)] sane_wf [OF assms(2)]] by blast
  then obtain nr1 where st: "check_card_step subtractRM req cd nr = Inr nr1"
    by (auto simp: check_card_step_def Let_def)
  note s1 = subrm.card_step_result [OF st Cons.prems(1) sane_wf [OF assms(2)]]
  have "\<exists>nr'. efold (check_card_step subtractRM req) cds nr1 = Inr nr'"
    using s1 Cons.prems(2) by (intro Cons.IH) auto
  with st show ?case by simp
qed

lemma remove_containers_accepts:
  assumes "node_ok nr" "requests_sane cs" "\<And>j. containers_keys j cs \<subseteq> card_keys nr j"
  shows "\<exists>nr'. efold (check_container_step subtractRM) cs nr = Inr nr'"
  using assms
proof (induction cs arbitrary: nr)
  case Nil
  then show ?case by simp
next
  case (Cons c cs)
  obtain req csv where c: "c = (req, csv)" by (cases c)
  from Cons.prems(2) c have s: "sane req" and ss: "requests_sane cs" by simp_all
  have "\<exists>nr1. check_container_step subtractRM (req, csv) nr = Inr nr1"
  proof (cases "csv = []")
    case True
    then show ?thesis by (simp add: check_container_step_def)
  next
    case False
    let ?cds = "split_on CHR '','' csv"
    have "1 \<le> int (length ?cds)"
      using length_split_on [of "CHR '',''" csv] by linarith
    then obtain req' where d: "rm_divide req (int (length ?cds)) = Inr req'"
      using rm_divide_Inr_iff [of req "int (length ?cds)"] by blast
    have "fst ` set req' = fst ` set req"
      using rm_divide_keys [OF d] by (metis set_map)
    moreover have "fst ` set req \<subseteq> card_keys nr j" if "j \<in> set ?cds" for j
      using Cons.prems(3) [of j] that False by (simp add: c container_keys_def)
    ultimately have "\<exists>nr'. efold (check_card_step subtractRM req') ?cds nr = Inr nr'"
      by (intro remove_cards_accepts [OF Cons.prems(1) rm_divide_amount(1) [OF s d]]) auto
    with d False s show ?thesis by (auto simp: check_container_step_cards)
  qed
  then obtain nr1 where st: "check_container_step subtractRM (req, csv) nr = Inr nr1" by blast
  note s1 = subrm.container_step_result [OF st Cons.prems(1) s]
  have "containers_keys j cs \<subseteq> card_keys nr1 j" for j
    using s1 Cons.prems(3) [of j] by auto
  then have "\<exists>nr'. efold (check_container_step subtractRM) cs nr1 = Inr nr'"
    using s1 ss by (intro Cons.IH) auto
  with st c show ?case by simp
qed

lemma check_from_trial:
  assumes "cache_inv c"
  shows "checkPodResourceAdjustment c reqs nodeName cards adj = Inr () \<longleftrightarrow>
    length reqs = length cards \<and> nodeName \<noteq> [] \<and>
    (\<exists>nr'. efold (check_container_step (resource_op adj)) (zip reqs cards)
       (gm_getd [] (nodeStatuses c) nodeName) = Inr nr')"
  using newCopyNodeStatus_eq [OF cache_inv_node [OF assms]]
  by (auto simp: checkPodResourceAdjustment_def checkPodResourceAdjustmentImpl_def split: sum.splits)

lemma adjust_status:
  assumes "cache_inv c" "pod_sane pod" "range_order ord"
  shows "(\<exists>c'. adjustPodResources ord pod adj annotation tileAnnotation nodeName c = (Inr (), c')) \<longleftrightarrow>
    checkPodResourceAdjustment c (snd (containerRequests pod [])) nodeName
       (split_on CHR ''|'' annotation) adj = Inr ()"
proof (cases "checkPodResourceAdjustment c (snd (containerRequests pod [])) nodeName
       (split_on CHR ''|'' annotation) adj")
  case (Inl err)
  then show ?thesis by (simp add: adjust_failure [OF Inl])
next
  case (Inr u)
  then show ?thesis using adjust_success [OF assms Inr] by (metis Inr old.unit.exhaust)
qed

subsection \<open>Facts the event handlers use\<close>

lemma adjustPodResources_spec:
  assumes "cache_inv c" "pod_sane pod" "range_order ord"
    and "adjustPodResources ord pod adj annotation tileAnnotation nodeName c = (result, c')"
  shows "case result of
      Inl err \<Rightarrow> c' = c
    | Inr _ \<Rightarrow> cache_inv c' \<and> adjust_result pod adj annotation tileAnnotation nodeName c c'"
proof (cases "checkPodResourceAdjustment c (snd (containerRequests pod [])) nodeName
       (split_on CHR ''|'' annotation) adj")
  case (Inl err)
  from adjust_failure [OF this] assms(4) show ?thesis by (auto simp del: unit_abs_eta_conv)
next
  case (Inr u)
  from adjust_success [OF assms(1-3) Inr] assms(4) show ?thesis
    by (metis (no_types, lifting) Pair_inject old.sum.simps(6))
qed

lemma adjust_shape:
  "adjustPodResources ord pod adj annotation tileAnnotation nodeName c = (Inr u, c') \<Longrightarrow>
     length (containers pod) = length (split_on CHR ''|'' annotation) \<and> nodeName \<noteq> []"
  by (auto simp: adjustPodResources_def checkPodResourceAdjustment_def containerRequests_def Let_def
      split: if_splits sum.splits prod.splits)

lemma adjust_remove_accepted:
  assumes "cache_inv c" "pod_sane pod" "range_order ord"
    and "length (containers pod) = length (split_on CHR ''|'' annotation)" "nodeName \<noteq> []"
    and "\<And>cardName. containers_keys cardName
        (zip (snd (containerRequests pod [])) (split_on CHR ''|'' annotation)) \<subseteq>
      card_keys (gm_getd [] (nodeStatuses c) nodeName) cardName"
  shows "\<exists>c'. adjustPodResources ord pod False annotation tileAnnotation nodeName c = (Inr (), c')"
proof -
  have "\<exists>nr'. efold (check_container_step subtractRM)
      (zip (snd (containerRequests pod [])) (split_on CHR ''|'' annotation))
      (gm_getd [] (nodeStatuses c) nodeName) = Inr nr'"
    by (intro remove_containers_accepts cache_inv_node assms(1,6) requests_sane_zip assms(2))
  then show ?thesis
    using assms(4,5) by (simp add: adjust_status [OF assms(1-3)] check_from_trial [OF assms(1)]
        resource_op_def containerRequests_def)
qed

subsection \<open>Properties of an adjustment\<close>

text \<open>C2: adjusting the cache for a pod is atomic and does what it promises. An error leaves the
  state as it was. Otherwise every card of the node gains (or loses, stopping at zero) exactly its
  share of the pod's requests, the tiles of the annotation are taken (or freed), the pod is
  recorded (or forgotten), no other node changes, and no amount becomes negative.\<close>

theorem adjustPodResources_refines:
  assumes "cache_inv c" "pod_sane pod" "range_order ord"
  shows "case adjustPodResourcesL ord pod adj annotation tileAnnotation nodeName c of
      (Inl err, c') \<Rightarrow> c' = c
    | (Inr _, c') \<Rightarrow> cache_inv c' \<and> adjust_result pod adj annotation tileAnnotation nodeName c c'"
proof (cases "checkPodResourceAdjustment c (snd (containerRequests pod [])) nodeName
       (split_on CHR ''|'' annotation) adj")
  case (Inl err)
  then show ?thesis by (simp add: adjustPodResourcesL_def adjust_failure [OF Inl])
next
  case (Inr u)
  obtain c' where "adjustPodResources ord pod adj annotation tileAnnotation nodeName c = (Inr (), c')"
    "cache_inv c'" "adjust_result pod adj annotation tileAnnotation nodeName c c'"
    using adjust_success [OF assms Inr] by metis
  then show ?thesis by (simp add: adjustPodResourcesL_def)
qed

definition sample_pod :: pod where
  "sample_pod = \<lparr>pod_name = ''p'', pod_namespace = ''ns'', pod_uid = ''u1'', pod_annotations = None,
     deletion_timestamp = False, phase = PodRunning, pod_node_name = ''n1'',
     containers = [\<lparr>container_name = ''a'', requests = [(''cpu'', 1), (''gpu.intel.com/i915'', 2)]\<rparr>,
                   \<lparr>container_name = ''b'', requests = [(''cpu'', 1)]\<rparr>]\<rparr>"

lemma sample_pod_sane [simp]: "pod_sane sample_pod"
  by code_simp

lemma newCache_inv [simp]: "cache_inv newCache"
  by (simp add: newCache_def cache_inv_def statuses_ok_def tiles_ok_def)

theorem adjustPodResources_refines_witness:
  "\<exists>c'. adjustPodResourcesL id sample_pod True ''card0,card1|'' ''card0:gt1'' ''n1'' newCache = (Inr (), c') \<and>
     node_usage c' ''n1'' ''card1'' ''gpu.intel.com/i915'' = 1 \<and> tiles_used c' ''n1'' ''card0'' = {1}"
proof -
  obtain r c' where e: "adjustPodResourcesL id sample_pod True ''card0,card1|'' ''card0:gt1'' ''n1'' newCache = (r, c')"
    by fastforce
  have "\<not> isl (fst (adjustPodResourcesL id sample_pod True ''card0,card1|'' ''card0:gt1'' ''n1'' newCache))"
    by code_simp
  with e have r: "r = Inr ()" by (cases r) auto
  have a: "adjust_result sample_pod True ''card0,card1|'' ''card0:gt1'' ''n1'' newCache c'"
    using adjustPodResources_refines [OF newCache_inv sample_pod_sane range_order_id,
        of True "''card0,card1|''" "''card0:gt1''" "''n1''"] e r
    by simp
  have "pod_charge sample_pod ''card0,card1|'' ''card1'' ''gpu.intel.com/i915'' = 1"
    "node_usage newCache ''n1'' ''card1'' ''gpu.intel.com/i915'' = 0"
    "annotation_tiles ''card0'' ''card0:gt1'' = {1}" "tiles_used newCache ''n1'' ''card0'' = {}"
    by code_simp+
  with a e r show ?thesis
    by (simp add: adjust_result_def charge_eff_def tile_eff_def)
qed

text \<open>A pod's resources are added exactly when the annotation has a part for every container,
  the node has a name, and no card's total would exceed the largest \<^verbatim>\<open>int64\<close>.\<close>

theorem adjust_add_accepted_iff:
  assumes "cache_inv c" "pod_sane pod" "range_order ord"
  shows "(\<exists>c'. adjustPodResourcesL ord pod True annotation tileAnnotation nodeName c = (Inr (), c')) \<longleftrightarrow>
    length (containers pod) = length (split_on CHR ''|'' annotation) \<and> nodeName \<noteq> [] \<and>
    (\<forall>cardName res. node_usage c nodeName cardName res + pod_charge pod annotation cardName res \<le> max_int64)"
    (is "?lhs \<longleftrightarrow> ?rhs")
proof -
  let ?reqs = "snd (containerRequests pod [])" and ?cards = "split_on CHR ''|'' annotation"
  let ?nr = "gm_getd [] (nodeStatuses c) nodeName"
  note rs = requests_sane_zip [OF assms(2), of ?cards]
  note nok = cache_inv_node [OF assms(1), of nodeName]
  have len: "length ?reqs = length (containers pod)" by (simp add: containerRequests_def)
  have iff: "(\<exists>nr'. efold (check_container_step addRM) (zip ?reqs ?cards) ?nr = Inr nr') \<longleftrightarrow>
      (\<forall>cardName res. card_amount ?nr cardName res + containers_charge cardName res (zip ?reqs ?cards) \<le> max_int64)"
  proof
    assume "\<exists>nr'. efold (check_container_step addRM) (zip ?reqs ?cards) ?nr = Inr nr'"
    then obtain nr' where "efold (check_container_step addRM) (zip ?reqs ?cards) ?nr = Inr nr'" ..
    from addrm.containers_result [OF this nok rs]
    have "card_amount ?nr cardName res + containers_charge cardName res (zip ?reqs ?cards) =
        card_amount nr' cardName res" for cardName res by simp
    then show "\<forall>cardName res. card_amount ?nr cardName res +
        containers_charge cardName res (zip ?reqs ?cards) \<le> max_int64"
      by (simp add: card_amount_def)
  qed (use add_containers_accepts [OF nok rs] in blast)
  show ?thesis
    unfolding adjustPodResourcesL_def adjust_status [OF assms] check_from_trial [OF assms(1)] len
    using iff by (simp add: resource_op_def node_usage_def pod_charge_def)
qed

theorem adjust_add_accepted_iff_witness:
  "\<not> (\<exists>c'. adjustPodResourcesL id sample_pod True ''card0'' '''' ''n1'' newCache = (Inr (), c'))"
  unfolding adjust_add_accepted_iff [OF newCache_inv sample_pod_sane range_order_id]
  by (simp add: sample_pod_def)

lemma adjust_undo_added:
  assumes "cache_inv c" "pod_sane pod" "range_order ord"
    and "adjustPodResourcesL ord pod True annotation tileAnnotation nodeName c = (Inr (), c1)"
  shows "\<exists>c2. adjustPodResourcesL ord pod False annotation tileAnnotation nodeName c1 = (Inr (), c2) \<and>
    cache_inv c2 \<and> node_usage c2 = node_usage c \<and>
    (\<forall>n g. tiles_used c n g \<inter> annotation_tiles g tileAnnotation = {} \<longrightarrow> tiles_used c2 n g = tiles_used c n g) \<and>
    map_of (annotatedPods c2) (getKey pod) = None"
proof -
  let ?reqs = "snd (containerRequests pod [])" and ?cards = "split_on CHR ''|'' annotation"
  have ok: "checkPodResourceAdjustment c ?reqs nodeName ?cards True = Inr ()"
    using assms(4) adjust_status [OF assms(1-3), THEN iffD1] unfolding adjustPodResourcesL_def by blast
  then obtain c1' where c1': "adjustPodResources ord pod True annotation tileAnnotation nodeName c = (Inr (), c1')"
    and inv1: "cache_inv c1'" and r1: "adjust_result pod True annotation tileAnnotation nodeName c c1'"
    and k1: "\<And>cardName. card_keys (gm_getd [] (nodeStatuses c1') nodeName) cardName =
       card_keys (gm_getd [] (nodeStatuses c) nodeName) cardName \<union> containers_keys cardName (zip ?reqs ?cards)"
    using adjust_success [OF assms(1-3)] by metis
  with assms(4) have c1: "c1 = c1'" by (simp add: adjustPodResourcesL_def)
  have "\<exists>nr'. efold (check_container_step subtractRM) (zip ?reqs ?cards) (gm_getd [] (nodeStatuses c1') nodeName) = Inr nr'"
    using k1 by (intro remove_containers_accepts cache_inv_node [OF inv1] requests_sane_zip [OF assms(2)]) auto
  then have "checkPodResourceAdjustment c1' ?reqs nodeName ?cards False = Inr ()"
    using check_from_trial [OF inv1, of ?reqs nodeName ?cards False]
      check_from_trial [OF assms(1), of ?reqs nodeName ?cards True] ok
    by (auto simp: resource_op_def)
  from adjust_success [OF inv1 assms(2,3) this] obtain c2
    where c2: "adjustPodResources ord pod False annotation tileAnnotation nodeName c1' = (Inr (), c2)"
    and inv2: "cache_inv c2" and r2: "adjust_result pod False annotation tileAnnotation nodeName c1' c2"
    by metis
  have "0 \<le> node_usage c n cardName res" for n cardName res
    using assms(1) by (simp add: node_usage_def)
  with r1 r2 have "node_usage c2 n cardName res = node_usage c n cardName res" for n cardName res
    by (simp add: adjust_result_def charge_eff_def)
  moreover have "tiles_used c2 n g = tiles_used c n g"
    if "tiles_used c n g \<inter> annotation_tiles g tileAnnotation = {}" for n g
    using that r1 r2 by (auto simp: adjust_result_def tile_eff_def)
  ultimately show ?thesis
    using c2 inv2 r2 c1 by (auto simp: adjustPodResourcesL_def adjust_result_def fun_eq_iff)
qed



end
