(* ===== verification/Gpu_Events.thy ===== *)
theory Gpu_Events
  imports Gpu_Cache
begin

text \<open>
  The second half of \<^verbatim>\<open>gpu-aware-scheduling/pkg/gpuscheduler/node_resource_cache.go\<close>: the event
  handlers that the informers call, the two work queues, and the workers that apply the queued
  items to the cache. A handler only enqueues; a worker takes the lock, so that applying one item
  is one step. An item whose handling failed is not queued again. \<^verbatim>\<open>workqueue\<close> hands the items out
  in the order they were added; every event carries an object of its own, so that the queue's
  merging of equal items plays no part.

  A panic of a worker (\<^const>\<open>None\<close>) ends the process: \<^verbatim>\<open>runtime.HandleCrash\<close> panics again.
\<close>

subsection \<open>Filters\<close>

definition podFilter :: "kube_obj \<Rightarrow> bool" where
  "podFilter obj =
     (case obj of
        ObjPod pod \<Rightarrow> hasGPUResources (Some pod)
      | DeletedFinalStateUnknown t \<Rightarrow>
          (case t of ObjPod pod \<Rightarrow> hasGPUResources (Some pod) | _ \<Rightarrow> False)
      | _ \<Rightarrow> False)"

definition nodeFilter :: "kube_obj \<Rightarrow> bool" where
  "nodeFilter obj =
     (case obj of
        ObjNode node \<Rightarrow> hasGPUCapacity (Some node)
      | DeletedFinalStateUnknown t \<Rightarrow>
          (case t of ObjNode node \<Rightarrow> hasGPUCapacity (Some node) | _ \<Rightarrow> False)
      | _ \<Rightarrow> False)"

subsection \<open>Labels that ask for descheduling\<close>

definition desched_card_step :: "node \<Rightarrow> string \<times> string \<Rightarrow> string list \<Rightarrow> string list option" where
  "desched_card_step node entry cards =
     (case entry of (label, value) \<Rightarrow>
        if \<not> prefix tasNSPrefix label then Some cards
        else case split_on CHR ''/'' label of
               [_, name] \<Rightarrow>
                 if prefix gpuDescheduleLabelPrefix name
                 then (let cardName = drop (length gpuDescheduleLabelPrefix) name;
                           cards = (if containsString cards cardName then cards else cards @ [cardName])
                       in if value = pciGroupValue then addPCIGroupGPUs node cardName cards
                          else Some cards)
                 else Some cards
             | _ \<Rightarrow> Some cards)"

definition calculateCardsFromDescheduleLabels :: "node \<Rightarrow> string list option" where
  "calculateCardsFromDescheduleLabels node =
     ofold (desched_card_step node) (nil_entries (node_labels node)) []"

definition desched_tile_step :: "string \<times> int list \<Rightarrow> string list \<Rightarrow> string list option" where
  "desched_tile_step entry deschedTiles =
     (case entry of (cardName, tiles) \<Rightarrow>
        if length cardName < length cardPrefix then None
        else (let cardIndex = drop (length cardPrefix) cardName
              in Some (deschedTiles @ map (\<lambda>tile. cardIndex @ ''.'' @ itoa tile) tiles)))"

definition calculateTilesFromDescheduleLabels :: "node \<Rightarrow> string list option" where
  "calculateTilesFromDescheduleLabels node =
     (case createTileMapping (node_labels node) of (_, des, _) \<Rightarrow> ofold desched_tile_step des [])"

subsection \<open>Event handlers\<close>

definition addNodeToCache :: "kube_obj \<Rightarrow> cache \<Rightarrow> cache" where
  "addNodeToCache nodeObj c =
     (case nodeObj of
        ObjNode node \<Rightarrow> c\<lparr>nodeWorkQueue := nodeWorkQueue c @
          [\<lparr>nitem_node = node, nitem_name = node_name node, nitem_action = NodeAdded\<rparr>]\<rparr>
      | _ \<Rightarrow> c)"

definition updateNodeInCache :: "kube_obj \<Rightarrow> kube_obj \<Rightarrow> cache \<Rightarrow> cache" where
  "updateNodeInCache oldNodeObj newNodeObj c =
     (case newNodeObj of
        ObjNode node \<Rightarrow> c\<lparr>nodeWorkQueue := nodeWorkQueue c @
          [\<lparr>nitem_node = node, nitem_name = node_name node, nitem_action = NodeUpdated\<rparr>]\<rparr>
      | _ \<Rightarrow> c)"

definition tombstone_node :: "kube_obj \<Rightarrow> node option" where
  "tombstone_node obj =
     (case obj of
        ObjNode node \<Rightarrow> Some node
      | DeletedFinalStateUnknown t \<Rightarrow> (case t of ObjNode node \<Rightarrow> Some node | _ \<Rightarrow> None)
      | _ \<Rightarrow> None)"

definition deleteNodeFromCache :: "kube_obj \<Rightarrow> cache \<Rightarrow> cache" where
  "deleteNodeFromCache nodeObj c =
     (case tombstone_node nodeObj of
        Some node \<Rightarrow> c\<lparr>nodeWorkQueue := nodeWorkQueue c @
          [\<lparr>nitem_node = node, nitem_name = node_name node, nitem_action = NodeDeleted\<rparr>]\<rparr>
      | None \<Rightarrow> c)"

text \<open>A missing tile annotation counts as the empty one.\<close>

definition tile_annotation_of :: "pod \<Rightarrow> string" where
  "tile_annotation_of pod =
     (case nil_get (pod_annotations pod) tileAnnotationName of Some a \<Rightarrow> a | None \<Rightarrow> [])"

definition addPodToCache :: "kube_obj \<Rightarrow> cache \<Rightarrow> cache" where
  "addPodToCache podObj c =
     (case podObj of
        ObjPod pod \<Rightarrow>
          (case nil_get (pod_annotations pod) cardAnnotationName of
             None \<Rightarrow> c
           | Some annotation \<Rightarrow> c\<lparr>podWorkQueue := podWorkQueue c @
               [\<lparr>item_pod = pod, item_name = pod_name pod, item_ns = pod_namespace pod,
                 item_annotation = annotation, item_tile_annotation = tile_annotation_of pod,
                 item_action = PodAdded\<rparr>]\<rparr>)
      | _ \<Rightarrow> c)"

definition updatePodInCache :: "kube_obj \<Rightarrow> kube_obj \<Rightarrow> cache \<Rightarrow> cache" where
  "updatePodInCache oldPodObj newPodObj c =
     (case newPodObj of
        ObjPod newPod \<Rightarrow>
          (case nil_get (pod_annotations newPod) cardAnnotationName of
             None \<Rightarrow> c
           | Some annotation \<Rightarrow> c\<lparr>podWorkQueue := podWorkQueue c @
               [\<lparr>item_pod = newPod, item_name = pod_name newPod, item_ns = pod_namespace newPod,
                 item_annotation = annotation, item_tile_annotation = tile_annotation_of newPod,
                 item_action = (if isCompletedPod newPod then PodCompleted else PodUpdated)\<rparr>]\<rparr>)
      | _ \<Rightarrow> c)"

definition tombstone_pod :: "kube_obj \<Rightarrow> pod option" where
  "tombstone_pod obj =
     (case obj of
        ObjPod pod \<Rightarrow> Some pod
      | DeletedFinalStateUnknown t \<Rightarrow> (case t of ObjPod pod \<Rightarrow> Some pod | _ \<Rightarrow> None)
      | _ \<Rightarrow> None)"

definition deletePodFromCache :: "kube_obj \<Rightarrow> cache \<Rightarrow> cache" where
  "deletePodFromCache podObj c =
     (case tombstone_pod podObj of
        None \<Rightarrow> c
      | Some pod \<Rightarrow>
          (case map_of (annotatedPods c) (getKey pod) of
             None \<Rightarrow> c
           | Some _ \<Rightarrow> c\<lparr>podWorkQueue := podWorkQueue c @
               [\<lparr>item_pod = pod, item_name = pod_name pod, item_ns = pod_namespace pod,
                 item_annotation = [], item_tile_annotation = [], item_action = PodDeleted\<rparr>]\<rparr>))"

subsection \<open>Fetching objects from the informers' stores\<close>

definition fetchNode :: "(string \<Rightarrow> string + node) \<Rightarrow> string \<Rightarrow> gas_error + node" where
  "fetchNode get_node nodeName =
     (case get_node nodeName of Inl err \<Rightarrow> Inl (ErrLib err) | Inr node \<Rightarrow> Inr node)"

definition fetchPod :: "(string \<Rightarrow> string \<Rightarrow> string + pod) \<Rightarrow> string \<Rightarrow> string \<Rightarrow> gas_error + pod" where
  "fetchPod get_pod ns name =
     (case get_pod ns name of Inl err \<Rightarrow> Inl (ErrLib err) | Inr pod \<Rightarrow> Inr pod)"

subsection \<open>Which pods to deschedule\<close>

definition allPodGPUs :: "pod \<Rightarrow> string search_map" where
  "allPodGPUs pod =
     (case nil_get (pod_annotations pod) cardAnnotationName of
        None \<Rightarrow> []
      | Some annotation \<Rightarrow>
          fold (\<lambda>gpuList gpus.
              fold (\<lambda>gpuName gpus. if prefix ''card'' gpuName then List.insert gpuName gpus else gpus)
                (split_on CHR '','' gpuList) gpus)
            (split_on CHR ''|'' annotation) [])"

definition allPodTiles :: "pod \<Rightarrow> string search_map option" where
  "allPodTiles pod =
     (case nil_get (pod_annotations pod) tileAnnotationName of
        None \<Rightarrow> Some []
      | Some annotation \<Rightarrow> convertPodTileAnnotationToCardTileMap annotation)"

definition isDeschedulingNeededCards :: "pod \<Rightarrow> string list \<Rightarrow> bool" where
  "isDeschedulingNeededCards pod cards =
     (let podGPUs = allPodGPUs pod in list_ex (\<lambda>cardName. cardName \<in> set podGPUs) cards)"

definition isDeschedulingNeededTiles :: "pod \<Rightarrow> string list \<Rightarrow> bool option" where
  "isDeschedulingNeededTiles pod tiles = do {
     podTiles \<leftarrow> allPodTiles pod;
     Some (list_ex (\<lambda>tile. tile \<in> set podTiles) tiles)
   }"

definition desched_payload :: "bool \<Rightarrow> patchValue list" where
  "desched_payload deschedule =
     (if deschedule
      then [\<lparr>patch_op = ''add'', patch_path = ''/metadata/labels/'' @ podDescheduleString,
             patch_value = JString ''gpu''\<rparr>]
      else [\<lparr>patch_op = ''remove'', patch_path = ''/metadata/labels/'' @ podDescheduleString,
             patch_value = JString ''''\<rparr>])"

definition handlePodDescheduleLabeling ::
  "kube_api \<Rightarrow> bool \<Rightarrow> pod \<Rightarrow> (gas_error + unit) \<times> patch_log" where
  "handlePodDescheduleLabeling api deschedule pod =
     (let payload = desched_payload deschedule
      in (case patch_pod api pod payload of
            None \<Rightarrow> Inr ()
          | Some err \<Rightarrow> Inl (ErrLib err), [(pod, payload)]))"

text \<open>\<^verbatim>\<open>||\<close> does not look at the tiles when the cards already decide.\<close>

definition needs_descheduling :: "string list \<Rightarrow> string list \<Rightarrow> pod \<Rightarrow> bool option" where
  "needs_descheduling cards tiles pod =
     (if isDeschedulingNeededCards pod cards then Some True else isDeschedulingNeededTiles pod tiles)"

fun desched_loop ::
  "kube_api \<Rightarrow> string list \<Rightarrow> string list \<Rightarrow> pod list \<Rightarrow> (string, bool) gomap \<Rightarrow>
   ((gas_error + unit) \<times> (string, bool) gomap \<times> patch_log) option" where
  "desched_loop api cards tiles [] statuses = Some (Inr (), statuses, [])"
| "desched_loop api cards tiles (pod # pods) statuses = do {
     needDeschedule \<leftarrow> needs_descheduling cards tiles pod;
     if needDeschedule \<noteq> gm_getd False statuses (pod_name pod)
     then (case handlePodDescheduleLabeling api needDeschedule pod of
             (Inl err, log) \<Rightarrow> Some (Inl err, statuses, log)
           | (Inr _, log) \<Rightarrow> do {
               (result, statuses, log') \<leftarrow> desched_loop api cards tiles pods
                  (AList.update (pod_name pod) needDeschedule statuses);
               Some (result, statuses, log @ log')
             })
     else desched_loop api cards tiles pods statuses
   }"

definition handleNodeUpdated ::
  "kube_api \<Rightarrow> node_work_item \<Rightarrow> cache \<Rightarrow> ((gas_error + unit) \<times> cache \<times> patch_log) option" where
  "handleNodeUpdated api item c = do {
     descheduledCards \<leftarrow> calculateCardsFromDescheduleLabels (nitem_node item);
     descheduledTiles \<leftarrow> calculateTilesFromDescheduleLabels (nitem_node item);
     let descheduledCards = sort descheduledCards;
     let descheduledTiles = sort descheduledTiles;
     if map_of (previousDeschedCards c) (nitem_name item) = Some descheduledCards \<and>
        map_of (previousDeschedTiles c) (nitem_name item) = Some descheduledTiles
     then Some (Inr (), c, [])
     else (case parse_selector api (''spec.nodeName='' @ nitem_name item @ '',status.phase=Running'') of
        Inl err \<Rightarrow> Some (Inl (ErrLib err), c, [])
      | Inr selector \<Rightarrow>
          (case list_pods api selector of
             Inl err \<Rightarrow> Some (Inl (ErrLib err), c, [])
           | Inr runningPods \<Rightarrow> do {
               (result, statuses, log) \<leftarrow>
                 desched_loop api descheduledCards descheduledTiles runningPods (podDeschedStatuses c);
               let c = c\<lparr>podDeschedStatuses := statuses\<rparr>;
               case result of
                 Inl err \<Rightarrow> Some (Inl err, c, log)
               | Inr _ \<Rightarrow>
                   Some (Inr (),
                     c\<lparr>previousDeschedCards :=
                         AList.update (nitem_name item) descheduledCards (previousDeschedCards c),
                       previousDeschedTiles :=
                         AList.update (nitem_name item) descheduledTiles (previousDeschedTiles c)\<rparr>,
                     log)
             }))
   }"

definition handleNode ::
  "kube_api \<Rightarrow> node_work_item \<Rightarrow> cache \<Rightarrow> ((gas_error + unit) \<times> cache \<times> patch_log) option" where
  "handleNode api item c =
     (case nitem_action item of
        NodeAdded \<Rightarrow> handleNodeUpdated api item c
      | NodeUpdated \<Rightarrow> handleNodeUpdated api item c
      | NodeDeleted \<Rightarrow>
          Some (Inr (),
            c\<lparr>previousDeschedCards := AList.delete (nitem_name item) (previousDeschedCards c),
              previousDeschedTiles := AList.delete (nitem_name item) (previousDeschedTiles c)\<rparr>, [])
      | OtherNodeAction _ \<Rightarrow> Some (Inr (), c, []))"

subsection \<open>Pods\<close>

definition handle_released :: "(int list \<Rightarrow> int list) \<Rightarrow> pod_work_item \<Rightarrow> cache \<Rightarrow> (gas_error + unit) \<times> cache" where
  "handle_released ord item c =
     (let (err, c) = (case map_of (annotatedPods c) (getKey (item_pod item)) of
            Some _ \<Rightarrow> adjustPodResources ord (item_pod item) False (item_annotation item)
                        (item_tile_annotation item) (pod_node_name (item_pod item)) c
          | None \<Rightarrow> (Inr (), c))
      in (err, c\<lparr>podDeschedStatuses := AList.delete (item_name item) (podDeschedStatuses c)\<rparr>))"

definition handle_used :: "(int list \<Rightarrow> int list) \<Rightarrow> pod_work_item \<Rightarrow> cache \<Rightarrow> (gas_error + unit) \<times> cache" where
  "handle_used ord item c =
     (case map_of (annotatedPods c) (getKey (item_pod item)) of
        Some _ \<Rightarrow> (Inr (), c)
      | None \<Rightarrow> adjustPodResources ord (item_pod item) True (item_annotation item)
                  (item_tile_annotation item) (pod_node_name (item_pod item)) c)"

definition handlePod ::
  "(int list \<Rightarrow> int list) \<Rightarrow> pod_work_item \<Rightarrow> cache \<Rightarrow> bool \<times> (gas_error + unit) \<times> cache" where
  "handlePod ord item c =
     (True,
      (case item_action item of
         PodCompleted \<Rightarrow> handle_released ord item c
       | PodDeleted \<Rightarrow> handle_released ord item c
       | PodAdded \<Rightarrow> handle_used ord item
           (c\<lparr>podDeschedStatuses := AList.update (item_name item) False (podDeschedStatuses c)\<rparr>)
       | PodUpdated \<Rightarrow> handle_used ord item c
       | OtherPodAction _ \<Rightarrow> (Inl ErrUnknownAction, c)))"

subsection \<open>Workers\<close>

text \<open>
  \<^verbatim>\<open>Get\<close> blocks while the queue is empty and reports \<^verbatim>\<open>quit\<close> once it is empty and shut down, so
  that a worker's run (\<^verbatim>\<open>for c.podWork() {}\<close>) ends when the queue has been drained.
\<close>

definition podWork :: "(int list \<Rightarrow> int list) \<Rightarrow> cache \<Rightarrow> bool \<times> cache" where
  "podWork ord c =
     (case podWorkQueue c of
        [] \<Rightarrow> (False, c)
      | item # rest \<Rightarrow> (True, snd (snd (handlePod ord item (c\<lparr>podWorkQueue := rest\<rparr>)))))"

definition nodeWork :: "kube_api \<Rightarrow> cache \<Rightarrow> (bool \<times> cache \<times> patch_log) option" where
  "nodeWork api c =
     (case nodeWorkQueue c of
        [] \<Rightarrow> Some (False, c, [])
      | item # rest \<Rightarrow> do {
          (result, c, log) \<leftarrow> handleNode api item (c\<lparr>nodeWorkQueue := rest\<rparr>);
          Some (True, c, log)
        })"

subsection \<open>What the handlers leave alone\<close>

lemma adjust_frame [simp]:
  "podWorkQueue (snd (adjustPodResources ord pod adj a t n c)) = podWorkQueue c"
  "nodeWorkQueue (snd (adjustPodResources ord pod adj a t n c)) = nodeWorkQueue c"
  by (auto simp: adjustPodResources_def Let_def split: sum.splits prod.splits)

lemma handlePod_queue [simp]: "podWorkQueue (snd (snd (handlePod ord item c))) = podWorkQueue c"
  by (auto simp: handlePod_def handle_released_def handle_used_def split_beta
      split: pod_action.splits option.splits)

text \<open>The worker's run: it ends because every round takes an item out of the queue and none of
  the handlers puts one in.\<close>

function podWorkerRun :: "(int list \<Rightarrow> int list) \<Rightarrow> cache \<Rightarrow> cache" where
  "podWorkerRun ord c =
     (case podWork ord c of (again, c') \<Rightarrow> if again then podWorkerRun ord c' else c')"
  by pat_completeness auto
termination
  by (relation "measure (\<lambda>(ord, c). length (podWorkQueue c))")
    (auto simp: podWork_def split: list.splits)

declare podWorkerRun.simps [simp del]

lemma podWorkerRun_Nil: "podWorkQueue c = [] \<Longrightarrow> podWorkerRun ord c = c"
  by (simp add: podWorkerRun.simps [of ord c] podWork_def)

lemma podWorkerRun_Cons: "podWorkQueue c = item # rest \<Longrightarrow>
    podWorkerRun ord c = podWorkerRun ord (snd (snd (handlePod ord item (c\<lparr>podWorkQueue := rest\<rparr>))))"
  by (simp add: podWorkerRun.simps [of ord c] podWork_def)

subsection \<open>Which pods are counted\<close>

text \<open>
  The abstract state: the pods that are counted, by key, with the annotation and the node they
  were counted for. A cache \<^emph>\<open>counts\<close> them if its amounts are the sums of their charges.
\<close>

type_synonym counted_pods = "(string, pod \<times> string \<times> string) gomap"

definition pod_parts :: "pod \<Rightarrow> string \<Rightarrow> (resource_map \<times> string) list" where
  "pod_parts pod annotation = zip (snd (containerRequests pod [])) (split_on CHR ''|'' annotation)"

definition charges :: "counted_pods \<Rightarrow> string \<Rightarrow> string \<Rightarrow> string \<Rightarrow> int" where
  "charges g nodeName cardName res =
     sum_list (map (\<lambda>(key, pod, annotation, n).
         if n = nodeName then pod_charge pod annotation cardName res else 0) g)"

definition counted_ok :: "cache \<Rightarrow> pod \<Rightarrow> string \<Rightarrow> string \<Rightarrow> bool" where
  "counted_ok c pod annotation nodeName \<longleftrightarrow>
     pod_sane pod \<and> nodeName \<noteq> [] \<and>
     length (containers pod) = length (split_on CHR ''|'' annotation) \<and>
     (\<forall>cardName. containers_keys cardName (pod_parts pod annotation) \<subseteq>
        card_keys (gm_getd [] (nodeStatuses c) nodeName) cardName)"

definition counts :: "cache \<Rightarrow> counted_pods \<Rightarrow> bool" where
  "counts c g \<longleftrightarrow> wf_map g \<and>
     (\<forall>key. map_of (annotatedPods c) key = map_option (\<lambda>(pod, annotation, n). annotation) (map_of g key)) \<and>
     (\<forall>n cardName res. node_usage c n cardName res = charges g n cardName res) \<and>
     (\<forall>key pod annotation n. map_of g key = Some (pod, annotation, n) \<longrightarrow> counted_ok c pod annotation n)"

lemma charges_Nil [simp]: "charges [] n cardName res = 0"
  by (simp add: charges_def)

lemma charges_Cons [simp]: "charges ((key, pod, annotation, n') # g) n cardName res =
    (if n' = n then pod_charge pod annotation cardName res else 0) + charges g n cardName res"
  by (simp add: charges_def)

lemma charges_update_fresh: "map_of g key = None \<Longrightarrow>
    charges (AList.update key (pod, annotation, n') g) n cardName res =
      charges g n cardName res + (if n' = n then pod_charge pod annotation cardName res else 0)"
  by (simp add: update_snoc_fresh map_of_None_keys charges_def)

lemma charges_delete: "wf_map g \<Longrightarrow> map_of g key = Some (pod, annotation, n') \<Longrightarrow>
    charges (AList.delete key g) n cardName res =
      charges g n cardName res - (if n' = n then pod_charge pod annotation cardName res else 0)"
proof (induction g)
  case (Cons e g)
  obtain k p a m where e: "e = (k, p, a, m)" by (cases e)
  show ?case
  proof (cases "k = key")
    case True
    with Cons.prems e have "AList.delete key g = g"
      by (auto simp: wf_map_Cons delete_id)
    with True Cons.prems e show ?thesis by simp
  next
    case False
    with Cons e show ?thesis by (auto simp: wf_map_Cons)
  qed
qed simp

lemma pod_charge_nonneg [simp]: "pod_sane pod \<Longrightarrow> 0 \<le> pod_charge pod annotation cardName res"
  by (simp add: pod_charge_def containers_charge_nonneg requests_sane_zip)

lemma counts_sane: "counts c g \<Longrightarrow> (key, pod, annotation, n) \<in> set g \<Longrightarrow> pod_sane pod"
  by (metis counted_ok_def counts_def wf_map_lookup)

lemma charges_nonneg: "(\<And>key pod annotation n. (key, pod, annotation, n) \<in> set g \<Longrightarrow> pod_sane pod) \<Longrightarrow>
    0 \<le> charges g n cardName res"
  by (auto simp: charges_def intro!: sum_list_nonneg)

lemma set_deleteD: "x \<in> set (AList.delete k m) \<Longrightarrow> x \<in> set m"
  by (induction m) (auto split: if_splits)

lemma counts_desched [simp]:
  "counts (c\<lparr>podDeschedStatuses := ds\<rparr>) g \<longleftrightarrow> counts c g"
  "counts (c\<lparr>podWorkQueue := pq\<rparr>) g \<longleftrightarrow> counts c g"
  by (simp_all add: counts_def node_usage_def counted_ok_def)

lemma cache_inv_desched [simp]:
  "cache_inv c \<Longrightarrow> wf_map ds \<Longrightarrow> cache_inv (c\<lparr>podDeschedStatuses := ds\<rparr>)"
  "cache_inv (c\<lparr>podWorkQueue := pq\<rparr>) \<longleftrightarrow> cache_inv c"
  "cache_inv (c\<lparr>nodeWorkQueue := nq\<rparr>) \<longleftrightarrow> cache_inv c"
  by (simp_all add: cache_inv_def)

lemma counted_ok_mono:
  "counted_ok c pod annotation n \<Longrightarrow>
     (\<And>cardName. card_keys (gm_getd [] (nodeStatuses c) n) cardName \<subseteq>
        card_keys (gm_getd [] (nodeStatuses c') n) cardName) \<Longrightarrow> counted_ok c' pod annotation n"
  unfolding counted_ok_def by blast

lemma adjust_keys_grow:
  assumes "cache_inv c" "pod_sane pod" "range_order ord"
    and "adjustPodResources ord pod adj annotation tileAnnotation nodeName c = (Inr (), c')"
  shows "card_keys (gm_getd [] (nodeStatuses c') n) cardName =
    card_keys (gm_getd [] (nodeStatuses c) n) cardName \<union>
    (if n = nodeName then containers_keys cardName (pod_parts pod annotation) else {})"
proof -
  have u: "checkPodResourceAdjustment c (snd (containerRequests pod [])) nodeName
       (split_on CHR ''|'' annotation) adj = Inr ()"
    using adjust_status [OF assms(1-3)] assms(4) by metis
  from adjust_accepted [OF assms(1,2) u] obtain st where
    ap: "apply_containers adj nodeName (zip (snd (containerRequests pod [])) (split_on CHR ''|'' annotation))
       (nodeStatuses c) = (Inr (), st)"
    and o: "\<And>other. other \<noteq> nodeName \<Longrightarrow> map_of st other = map_of (nodeStatuses c) other"
    and k: "\<And>cardName. card_keys (gm_getd [] st nodeName) cardName =
       card_keys (gm_getd [] (nodeStatuses c) nodeName) cardName \<union>
       containers_keys cardName (zip (snd (containerRequests pod [])) (split_on CHR ''|'' annotation))"
    by metis
  have "nodeStatuses c' = st"
    using assms(4) u ap by (auto simp: adjustPodResources_def Let_def)
  then show ?thesis using o k by (auto simp: pod_parts_def gm_getd_def)
qed

lemma adjust_add_counts:
  assumes inv: "cache_inv c" and pod: "pod_sane pod" and ord: "range_order ord" and g: "counts c g"
    and fresh: "map_of g (getKey pod) = None"
    and ok: "adjustPodResources ord pod True annotation tileAnnotation nodeName c = (Inr (), c')"
  shows "cache_inv c' \<and> counts c' (AList.update (getKey pod) (pod, annotation, nodeName) g)"
proof -
  from adjustPodResources_spec [OF inv pod ord ok, simplified] have inv': "cache_inv c'"
    and r: "adjust_result pod True annotation tileAnnotation nodeName c c'" by auto
  note keys = adjust_keys_grow [OF inv pod ord ok]
  have "length (containers pod) = length (split_on CHR ''|'' annotation)" "nodeName \<noteq> []"
    using adjust_shape [OF ok] by auto
  then have new: "counted_ok c' pod annotation nodeName"
    using pod by (auto simp: counted_ok_def keys)
  have old: "counted_ok c' p a n" if "counted_ok c p a n" for p a n
    using that by (rule counted_ok_mono) (simp add: keys)
  show ?thesis
    using inv' g r fresh new old
    by (auto simp: counts_def adjust_result_def charge_eff_def charges_update_fresh split: if_splits)
qed

lemma adjust_remove_counts:
  assumes inv: "cache_inv c" and pod: "pod_sane pod" and ord: "range_order ord" and g: "counts c g"
    and known: "map_of g (getKey pod) = Some (pod', annotation, nodeName)"
    and same: "containers pod' = containers pod"
  shows "\<exists>c'. adjustPodResources ord pod False annotation tileAnnotation nodeName c = (Inr (), c') \<and>
    cache_inv c' \<and> counts c' (AList.delete (getKey pod) g)"
proof -
  have reqs: "containerRequests pod' [] = containerRequests pod []"
    by (simp add: containerRequests_def same)
  have ok: "counted_ok c pod' annotation nodeName"
    using g known by (auto simp: counts_def)
  then obtain c' where a: "adjustPodResources ord pod False annotation tileAnnotation nodeName c = (Inr (), c')"
    using adjust_remove_accepted [OF inv pod ord, of annotation nodeName tileAnnotation] same reqs
    by (auto simp: counted_ok_def pod_parts_def)
  from adjustPodResources_spec [OF inv pod ord a, simplified] have inv': "cache_inv c'"
    and r: "adjust_result pod False annotation tileAnnotation nodeName c c'" by auto
  let ?g = "AList.delete (getKey pod) g"
  have wf: "wf_map g" using g by (simp add: counts_def)
  have del: "charges ?g n cardName res = charges g n cardName res -
      (if nodeName = n then pod_charge pod annotation cardName res else 0)" for n cardName res
    using charges_delete [OF wf known] reqs by (simp add: pod_charge_def)
  have nn: "0 \<le> charges ?g n cardName res" for n cardName res
    by (intro charges_nonneg) (auto dest: set_deleteD counts_sane [OF g])
  have "counted_ok c' p a n" if "counted_ok c p a n" for p a n
    using that by (rule counted_ok_mono) (simp add: adjust_keys_grow [OF inv pod ord a])
  moreover have "node_usage c' n cardName res = charges ?g n cardName res" for n cardName res
    using r g nn [of n cardName res] del [of n cardName res]
    by (auto simp: adjust_result_def charge_eff_def counts_def)
  ultimately have "counts c' ?g"
    using g r wf by (auto simp: counts_def adjust_result_def split: if_splits)
  with a inv' show ?thesis by blast
qed

subsection \<open>Properties of the pod worker\<close>

text \<open>C34: an added or updated pod is counted at most once. The pod worker counts a pod whose key is
  not counted yet, with its annotation and its node, or reports why it cannot and changes no
  amount; a pod that is counted already leaves all amounts as they are.\<close>

theorem handlePod_counts_once:
  assumes "cache_inv c" "counts c g" "range_order ord" "pod_sane (item_pod item)"
    and "item_action item = PodAdded \<or> item_action item = PodUpdated"
  shows "case handlePod ord item c of (forget, result, c') \<Rightarrow> forget \<and> cache_inv c' \<and>
    counts c' (if isl result \<or> map_of g (getKey (item_pod item)) \<noteq> None then g
      else AList.update (getKey (item_pod item))
             (item_pod item, item_annotation item, pod_node_name (item_pod item)) g)"
proof -
  define c0 where "c0 = (if item_action item = PodAdded
    then c\<lparr>podDeschedStatuses := AList.update (item_name item) False (podDeschedStatuses c)\<rparr> else c)"
  have h: "handlePod ord item c = (True, handle_used ord item c0)"
    using assms(5) by (auto simp: handlePod_def c0_def)
  have inv: "cache_inv c0" using assms(1) by (simp add: c0_def cache_inv_def)
  have g: "counts c0 g" using assms(2) by (simp add: c0_def)
  have known: "map_of (annotatedPods c0) key = None \<longleftrightarrow> map_of g key = None" for key
    using g by (simp add: counts_def)
  show ?thesis
  proof (cases "map_of (annotatedPods c0) (getKey (item_pod item))")
    case (Some a)
    with known [of "getKey (item_pod item)"] inv g h show ?thesis by (auto simp: handle_used_def)
  next
    case None
    obtain result c' where a: "adjustPodResources ord (item_pod item) True (item_annotation item)
        (item_tile_annotation item) (pod_node_name (item_pod item)) c0 = (result, c')"
      by fastforce
    with None h have h': "handlePod ord item c = (True, result, c')"
      by (simp add: handle_used_def)
    from None known have fresh: "map_of g (getKey (item_pod item)) = None" by simp
    show ?thesis
    proof (cases result)
      case (Inl err)
      with adjustPodResources_spec [OF inv assms(4,3) a] h' inv g show ?thesis by simp
    next
      case (Inr u)
      with a have "adjustPodResources ord (item_pod item) True (item_annotation item)
        (item_tile_annotation item) (pod_node_name (item_pod item)) c0 = (Inr (), c')" by simp
      from adjust_add_counts [OF inv assms(4,3) g fresh this] fresh h' Inr show ?thesis by simp
    qed
  qed
qed

text \<open>C35: a pod that completed is released in full. If its annotation and node are still those it
  was counted with (and its containers are, which Kubernetes does not let change), the pod worker
  does not fail, and afterwards the amounts are the sums of the other pods' charges.\<close>

theorem handlePod_releases_completed:
  assumes "cache_inv c" "counts c g" "range_order ord" "pod_sane (item_pod item)"
    and "item_action item = PodCompleted"
    and "map_of g (getKey (item_pod item)) =
      Some (pod', item_annotation item, pod_node_name (item_pod item))"
    and "containers pod' = containers (item_pod item)"
  shows "case handlePod ord item c of (forget, result, c') \<Rightarrow>
    forget \<and> result = Inr () \<and> cache_inv c' \<and> counts c' (AList.delete (getKey (item_pod item)) g)"
proof -
  obtain c' where a: "adjustPodResources ord (item_pod item) False (item_annotation item)
      (item_tile_annotation item) (pod_node_name (item_pod item)) c = (Inr (), c')"
    and inv: "cache_inv c'" and g': "counts c' (AList.delete (getKey (item_pod item)) g)"
    using adjust_remove_counts [OF assms(1,4,3,2,6,7)] by blast
  have "map_of (annotatedPods c) (getKey (item_pod item)) = Some (item_annotation item)"
    using assms(2,6) by (simp add: counts_def)
  with a inv g' assms(5) show ?thesis
    by (simp add: handlePod_def handle_released_def cache_inv_def)
qed

subsection \<open>Every history of events\<close>

text \<open>
  One step of the cache: an informer event that passes the filter, a round of one of the workers,
  or an adjustment by the scheduler. The answers of Kubernetes and the order in which a map is
  ranged over may differ from step to step. Requests of pods are never negative.
\<close>

inductive cache_step :: "cache \<Rightarrow> cache \<Rightarrow> bool" where
  pod_add: "podFilter (ObjPod pod) \<Longrightarrow> pod_sane pod \<Longrightarrow> cache_step c (addPodToCache (ObjPod pod) c)"
| pod_update: "podFilter (ObjPod pod) \<Longrightarrow> pod_sane pod \<Longrightarrow>
    cache_step c (updatePodInCache old (ObjPod pod) c)"
| pod_delete: "podFilter obj \<Longrightarrow> (\<And>pod. tombstone_pod obj = Some pod \<Longrightarrow> pod_sane pod) \<Longrightarrow>
    cache_step c (deletePodFromCache obj c)"
| node_add: "nodeFilter obj \<Longrightarrow> cache_step c (addNodeToCache obj c)"
| node_update: "nodeFilter obj \<Longrightarrow> cache_step c (updateNodeInCache old obj c)"
| node_delete: "nodeFilter obj \<Longrightarrow> cache_step c (deleteNodeFromCache obj c)"
| pod_round: "range_order ord \<Longrightarrow> podWork ord c = (True, c') \<Longrightarrow> cache_step c c'"
| node_round: "nodeWork api c = Some (True, c', log) \<Longrightarrow> cache_step c c'"
| scheduler: "range_order ord \<Longrightarrow> pod_sane pod \<Longrightarrow>
    adjustPodResourcesL ord pod adj annotation tileAnnotation nodeName c = (result, c') \<Longrightarrow>
    cache_step c c'"

inductive reachable :: "cache \<Rightarrow> bool" where
  start: "reachable newCache"
| step: "reachable c \<Longrightarrow> cache_step c c' \<Longrightarrow> reachable c'"

definition state_inv :: "cache \<Rightarrow> bool" where
  "state_inv c \<longleftrightarrow> cache_inv c \<and> (\<forall>item \<in> set (podWorkQueue c). pod_sane (item_pod item))"

lemma enqueue_pod_inv:
  "state_inv c \<Longrightarrow> pod_sane (item_pod item) \<Longrightarrow> state_inv (c\<lparr>podWorkQueue := podWorkQueue c @ [item]\<rparr>)"
  by (auto simp: state_inv_def)

lemma enqueue_node_inv: "state_inv c \<Longrightarrow> state_inv (c\<lparr>nodeWorkQueue := nq\<rparr>)"
  by (simp add: state_inv_def)

lemma adjust_inv:
  assumes "cache_inv c" "pod_sane pod" "range_order ord"
  shows "cache_inv (snd (adjustPodResources ord pod adj annotation tileAnnotation nodeName c))"
proof -
  obtain r c' where a: "adjustPodResources ord pod adj annotation tileAnnotation nodeName c = (r, c')"
    by fastforce
  from adjustPodResources_spec [OF assms a] assms(1) a show ?thesis by (cases r) auto
qed

lemma handlePod_inv:
  assumes "cache_inv c" "pod_sane (item_pod item)" "range_order ord"
  shows "cache_inv (snd (snd (handlePod ord item c)))"
proof -
  have "cache_inv (c\<lparr>podDeschedStatuses := AList.update (item_name item) False (podDeschedStatuses c)\<rparr>)"
    using assms(1) by (simp add: cache_inv_def)
  with assms adjust_inv [OF _ assms(2,3)] show ?thesis
    by (auto simp: handlePod_def handle_released_def handle_used_def split_beta cache_inv_def
        split: pod_action.splits option.splits)
qed

lemma desched_loop_wf:
  "desched_loop api cards tiles pods statuses = Some (result, statuses', log) \<Longrightarrow>
     wf_map statuses \<Longrightarrow> wf_map statuses'"
  by (induction pods arbitrary: statuses statuses' log)
    (auto split: bind_splits if_splits prod.splits sum.splits)

lemma handleNodeUpdated_state:
  assumes "handleNodeUpdated api item c = Some (result, c', log)" "cache_inv c"
  shows "cache_inv c' \<and> podWorkQueue c' = podWorkQueue c"
  using assms desched_loop_wf
  by (fastforce simp: handleNodeUpdated_def Let_def cache_inv_def
      split: bind_splits if_splits sum.splits)

lemma handleNode_state:
  assumes "handleNode api item c = Some (result, c', log)" "cache_inv c"
  shows "cache_inv c' \<and> podWorkQueue c' = podWorkQueue c"
  using assms handleNodeUpdated_state
  by (auto simp: handleNode_def cache_inv_def split: node_action.splits)

lemma cache_step_inv: "cache_step c c' \<Longrightarrow> state_inv c \<Longrightarrow> state_inv c'"
proof (induction rule: cache_step.induct)
  case (pod_add pod c)
  then show ?case by (auto simp: addPodToCache_def enqueue_pod_inv split: option.splits)
next
  case (pod_update pod c old)
  then show ?case by (auto simp: updatePodInCache_def enqueue_pod_inv split: option.splits)
next
  case (pod_delete obj c)
  then show ?case
    by (auto simp: deletePodFromCache_def intro!: enqueue_pod_inv split: option.splits)
next
  case (node_add obj c)
  then show ?case by (auto simp: addNodeToCache_def enqueue_node_inv split: kube_obj.splits)
next
  case (node_update obj c old)
  then show ?case by (auto simp: updateNodeInCache_def enqueue_node_inv split: kube_obj.splits)
next
  case (node_delete obj c)
  then show ?case by (auto simp: deleteNodeFromCache_def enqueue_node_inv split: option.splits)
next
  case (pod_round ord c c')
  then obtain item rest where q: "podWorkQueue c = item # rest"
    and c': "c' = snd (snd (handlePod ord item (c\<lparr>podWorkQueue := rest\<rparr>)))"
    by (auto simp: podWork_def split: list.splits)
  with pod_round handlePod_inv [of "c\<lparr>podWorkQueue := rest\<rparr>" item ord] show ?case
    by (auto simp: state_inv_def)
next
  case (node_round api c c' log)
  then obtain item rest result where q: "nodeWorkQueue c = item # rest"
    and h: "handleNode api item (c\<lparr>nodeWorkQueue := rest\<rparr>) = Some (result, c', log)"
    by (auto simp: nodeWork_def split: list.splits bind_splits)
  from handleNode_state [OF h] node_round show ?case by (auto simp: state_inv_def)
next
  case (scheduler ord pod adj annotation tileAnnotation nodeName c result c')
  then have a: "adjustPodResources ord pod adj annotation tileAnnotation nodeName c = (result, c')"
    by (simp add: adjustPodResourcesL_def)
  with scheduler adjust_inv [of c pod ord adj annotation tileAnnotation nodeName]
    adjust_frame(1) [of ord pod adj annotation tileAnnotation nodeName c]
  show ?case by (auto simp: state_inv_def)
qed

lemma reachable_inv:
  assumes "reachable c"
  shows "state_inv c"
  using assms
proof induction
  case start
  have "podWorkQueue newCache = []" by (simp add: newCache_def)
  then show ?case by (simp add: state_inv_def)
next
  case (step c c')
  then show ?case by (blast intro: cache_step_inv)
qed

text \<open>C36: whatever events arrive in whatever order, and whatever Kubernetes answers, no amount in
  use on any node ever becomes negative, and every map of the cache keeps one entry per key.\<close>

theorem reachable_no_negative_usage:
  assumes "reachable c"
  shows "cache_inv c \<and> (\<forall>nodeName cardName res. 0 \<le> node_usage c nodeName cardName res)"
proof -
  from assms have "state_inv c" by (rule reachable_inv)
  then show ?thesis by (simp add: state_inv_def node_usage_def)
qed

subsection \<open>Witnesses for the pod worker\<close>

definition sample_item :: "pod_action \<Rightarrow> pod_work_item" where
  "sample_item action = \<lparr>item_pod = sample_pod, item_name = ''p'', item_ns = ''ns'',
     item_annotation = ''card0,card1|'', item_tile_annotation = ''card0:gt1'', item_action = action\<rparr>"

lemma counts_newCache [simp]: "counts newCache []"
  by (simp add: counts_def newCache_def node_usage_def card_amount_def)

lemma sample_item_simps [simp]:
  "item_pod (sample_item action) = sample_pod" "item_action (sample_item action) = action"
  "item_annotation (sample_item action) = ''card0,card1|''"
  by (simp_all add: sample_item_def)

theorem handlePod_counts_once_witness:
  "\<exists>c'. handlePod id (sample_item PodAdded) newCache = (True, Inr (), c') \<and>
     counts c' [(''ns&p'', sample_pod, ''card0,card1|'', ''n1'')]"
proof -
  obtain result c' where h: "handlePod id (sample_item PodAdded) newCache = (True, result, c')"
    by (metis handlePod_def prod.collapse)
  have "\<not> isl (fst (snd (handlePod id (sample_item PodAdded) newCache)))" by code_simp
  with h have r: "result = Inr ()" by (cases result) auto
  have "getKey sample_pod = ''ns&p''" "pod_node_name sample_pod = ''n1''" by code_simp+
  with handlePod_counts_once [OF newCache_inv counts_newCache range_order_id,
      of "sample_item PodAdded"] h r
  show ?thesis by simp
qed

theorem handlePod_releases_completed_witness:
  "\<exists>c c'. counts c [(''ns&p'', sample_pod, ''card0,card1|'', ''n1'')] \<and>
     handlePod id (sample_item PodCompleted) c = (True, Inr (), c') \<and> counts c' []"
proof -
  have k: "getKey sample_pod = ''ns&p''" and n: "pod_node_name sample_pod = ''n1''" by code_simp+
  obtain result c where h: "adjustPodResources id sample_pod True ''card0,card1|'' '''' ''n1'' newCache = (result, c)"
    by fastforce
  have "\<not> isl (fst (adjustPodResources id sample_pod True ''card0,card1|'' '''' ''n1'' newCache))"
    by code_simp
  with h have "adjustPodResources id sample_pod True ''card0,card1|'' '''' ''n1'' newCache = (Inr (), c)"
    by (cases result) auto
  from adjust_add_counts [OF newCache_inv sample_pod_sane range_order_id counts_newCache _ this] k
  have inv: "cache_inv c" and g: "counts c [(''ns&p'', sample_pod, ''card0,card1|'', ''n1'')]"
    by simp_all
  obtain forget r c' where e: "handlePod id (sample_item PodCompleted) c = (forget, r, c')"
    by (metis prod_cases3)
  from handlePod_releases_completed [OF inv g range_order_id, of "sample_item PodCompleted" sample_pod]
    e k n
  have "forget \<and> r = Inr () \<and> counts c' []" by simp
  with e have "handlePod id (sample_item PodCompleted) c = (True, Inr (), c')" "counts c' []" by auto
  with g show ?thesis by blast
qed

theorem reachable_no_negative_usage_witness:
  "cache_inv (addNodeToCache (ObjNode \<lparr>node_name = ''n1'', node_labels = None,
     node_capacity = [(''gpu.intel.com/i915'', 1)], node_allocatable = []\<rparr>) newCache)"
proof -
  let ?obj = "ObjNode \<lparr>node_name = ''n1'', node_labels = None,
     node_capacity = [(''gpu.intel.com/i915'', 1)], node_allocatable = []\<rparr>"
  have "nodeFilter ?obj" by code_simp
  then have "reachable (addNodeToCache ?obj newCache)"
    by (intro reachable.step [OF reachable.start] node_add)
  from reachable_no_negative_usage [OF this] show ?thesis by blast
qed

subsection \<open>Deleted pods\<close>

lemma pod_charge_empty: "pod_charge pod [] cardName res = 0"
proof -
  have "containers_charge cardName res (zip reqs [[]]) = 0" for reqs
    by (cases reqs) (simp_all add: container_charge_def)
  then show ?thesis by (simp add: pod_charge_def)
qed

text \<open>A pod that is deleted without having been seen completed (a forced deletion) is never
  released: \<^verbatim>\<open>deletePodFromCache\<close> queues it with an empty annotation, and the release goes by the
  queued annotation, not by the recorded one. All amounts stay what they were.\<close>

theorem deletePodFromCache_releases_nothing:
  assumes "cache_inv c" "pod_sane pod" "range_order ord" "podWorkQueue c = []"
  shows "node_usage (podWorkerRun ord (deletePodFromCache (ObjPod pod) c)) = node_usage c"
proof (cases "map_of (annotatedPods c) (getKey pod)")
  case None
  with assms(4) show ?thesis by (simp add: deletePodFromCache_def tombstone_pod_def podWorkerRun_Nil)
next
  case (Some annotation)
  define item where "item = \<lparr>item_pod = pod, item_name = pod_name pod, item_ns = pod_namespace pod,
    item_annotation = [], item_tile_annotation = [], item_action = PodDeleted\<rparr>"
  obtain r c' where a: "adjustPodResources ord pod False [] [] (pod_node_name pod) c = (r, c')"
    by fastforce
  have usage: "node_usage c' = node_usage c"
  proof (cases r)
    case (Inl err)
    with adjustPodResources_spec [OF assms(1-3) a] show ?thesis by simp
  next
    case (Inr u)
    with adjustPodResources_spec [OF assms(1-3) a] assms(1) show ?thesis
      by (auto simp: adjust_result_def charge_eff_def pod_charge_empty node_usage_def fun_eq_iff)
  qed
  let ?c' = "c'\<lparr>podDeschedStatuses := AList.delete (pod_name pod) (podDeschedStatuses c')\<rparr>"
  have c0: "c\<lparr>podWorkQueue := []\<rparr> = c" using assms(4) by simp
  have "deletePodFromCache (ObjPod pod) c = c\<lparr>podWorkQueue := [item]\<rparr>"
    using Some assms(4) by (simp add: deletePodFromCache_def tombstone_pod_def item_def)
  moreover have "snd (snd (handlePod ord item c)) = ?c'"
    using Some a by (simp add: handlePod_def handle_released_def item_def)
  moreover have "podWorkQueue ?c' = []"
    using adjust_frame(1) [of ord pod False "[]" "[]" "pod_node_name pod" c] a assms(4) by simp
  ultimately have "podWorkerRun ord (deletePodFromCache (ObjPod pod) c) = ?c'"
    using podWorkerRun_Cons [of "c\<lparr>podWorkQueue := [item]\<rparr>" item "[]" ord] c0
    by (simp add: podWorkerRun_Nil)
  with usage show ?thesis by (simp add: node_usage_def fun_eq_iff)
qed

theorem deletePodFromCache_releases_nothing_witness:
  "\<exists>c. map_of (annotatedPods c) (getKey sample_pod) = Some ''card0,card1|'' \<and>
     node_usage (podWorkerRun id (deletePodFromCache (ObjPod sample_pod) c)) ''n1'' ''card1'' ''gpu.intel.com/i915'' = 1"
proof -
  let ?call = "adjustPodResources id sample_pod True ''card0,card1|'' [] ''n1'' newCache"
  have "\<not> isl (fst ?call)" by code_simp
  then obtain u c where a: "?call = (Inr u, c)" by (cases ?call; cases "fst ?call") auto
  have inv: "cache_inv c" and r: "adjust_result sample_pod True ''card0,card1|'' [] ''n1'' newCache c"
    using adjustPodResources_spec [OF newCache_inv sample_pod_sane range_order_id a] by simp_all
  have q: "podWorkQueue c = []" using r by (simp add: adjust_result_def newCache_def)
  have "node_usage newCache ''n1'' ''card1'' ''gpu.intel.com/i915'' = 0"
    "pod_charge sample_pod ''card0,card1|'' ''card1'' ''gpu.intel.com/i915'' = 1" by code_simp+
  with r have "node_usage c ''n1'' ''card1'' ''gpu.intel.com/i915'' = 1"
    by (simp add: adjust_result_def charge_eff_def)
  moreover have "map_of (annotatedPods c) (getKey sample_pod) = Some ''card0,card1|''"
    using r by (simp add: adjust_result_def)
  ultimately show ?thesis
    using deletePodFromCache_releases_nothing [OF inv sample_pod_sane range_order_id q] by metis
qed

subsection \<open>Descheduling\<close>

text \<open>\<open>desched_log\<close> is the log of patches that brings the labels of the pods from one set of
  statuses to another.\<close>

definition desched_log :: "pod list \<Rightarrow> (string, bool) gomap \<Rightarrow> (string, bool) gomap \<Rightarrow> patch_log" where
  "desched_log pods before after =
     map (\<lambda>pod. (pod, desched_payload (gm_getd False after (pod_name pod))))
       (filter (\<lambda>pod. gm_getd False before (pod_name pod) \<noteq> gm_getd False after (pod_name pod)) pods)"

lemma desched_loop_spec:
  assumes "desched_loop api cards tiles pods statuses = Some (Inr u, statuses', log)"
    and "distinct (map pod_name pods)"
  shows "(\<forall>pod \<in> set pods. needs_descheduling cards tiles pod = Some (gm_getd False statuses' (pod_name pod))) \<and>
    (\<forall>name. name \<notin> pod_name ` set pods \<longrightarrow> gm_getd False statuses' name = gm_getd False statuses name) \<and>
    log = desched_log pods statuses statuses'"
  using assms
proof (induction pods arbitrary: statuses log)
  case Nil
  then show ?case by (simp add: desched_log_def)
next
  case (Cons pod pods)
  from Cons.prems obtain need where need: "needs_descheduling cards tiles pod = Some need"
    by (auto split: bind_splits)
  show ?case
  proof (cases "need = gm_getd False statuses (pod_name pod)")
    case True
    with Cons.prems need Cons.IH [of statuses log] show ?thesis
      by (auto simp: desched_log_def)
  next
    case False
    with Cons.prems need obtain log' where
      rest: "desched_loop api cards tiles pods (AList.update (pod_name pod) need statuses) =
          Some (Inr u, statuses', log')"
      and log: "log = (pod, desched_payload need) # log'"
      by (auto simp: handlePodDescheduleLabeling_def Let_def split: bind_splits option.splits)
    from Cons.IH [OF rest] Cons.prems(2)
    have ih: "\<forall>p \<in> set pods. needs_descheduling cards tiles p = Some (gm_getd False statuses' (pod_name p))"
      "\<And>name. name \<notin> pod_name ` set pods \<Longrightarrow>
         gm_getd False statuses' name = gm_getd False (AList.update (pod_name pod) need statuses) name"
      "log' = desched_log pods (AList.update (pod_name pod) need statuses) statuses'"
      by auto
    have own: "gm_getd False statuses' (pod_name pod) = need"
      using ih(2) [of "pod_name pod"] Cons.prems(2) by simp
    have "pod_name p \<noteq> pod_name pod" if "p \<in> set pods" for p
      using that Cons.prems(2) by (metis distinct.simps(2) image_eqI list.simps(9) set_map)
    then have "desched_log pods (AList.update (pod_name pod) need statuses) statuses' =
        desched_log pods statuses statuses'"
      unfolding desched_log_def by (intro arg_cong [where f = "map _"] filter_cong refl) auto
    with False ih own log need show ?thesis by (auto simp: desched_log_def)
  qed
qed


definition sample_api :: kube_api where
  "sample_api = \<lparr>parse_selector = Inr, list_pods = (\<lambda>s. Inr
     [sample_pod\<lparr>pod_annotations := Some [(''gas-container-cards'', ''card1,card2|'')]\<rparr>]),
     patch_pod = (\<lambda>pod payload. None)\<rparr>"

definition sample_node :: node where
  "sample_node = \<lparr>node_name = ''n1'',
     node_labels = Some [(''telemetry.aware.scheduling.pol/gas-deschedule-pods-card2'', ''true'')],
     node_capacity = [(''gpu.intel.com/i915'', 2)], node_allocatable = []\<rparr>"


lemma add_tile_keys:
  "name \<in> fst ` set (add_tile s m) \<Longrightarrow> name \<in> fst ` set m \<or> length cardPrefix \<le> length name"
proof (cases "extractCardAndTile s")
  case (Inr ct)
  obtain name' t where ct: "ct = (name', t)" by (cases ct)
  assume "name \<in> fst ` set (add_tile s m)"
  with Inr ct have "name = name' \<or> name \<in> fst ` set m" by (simp add: add_tile_def)
  with extractCardAndTile_Inr(1) [OF Inr [unfolded ct]] show ?thesis by (auto simp: cardPrefix_def)
qed (simp add: add_tile_def)

lemma tile_mapping_names:
  assumes "fold tile_mapping_step entries (dis, des, pref) = (dis', des', pref')"
    and "\<And>cardName. cardName \<in> fst ` set des \<Longrightarrow> length cardPrefix \<le> length cardName"
    and "cardName \<in> fst ` set des'"
  shows "length cardPrefix \<le> length cardName"
  using assms
proof (induction entries arbitrary: dis des pref)
  case Nil
  then show ?case by simp
next
  case (Cons e entries)
  obtain label v where e: "e = (label, v)" by (cases e)
  obtain dis1 des1 pref1 where st: "tile_mapping_step (label, v) (dis, des, pref) = (dis1, des1, pref1)"
    by (metis prod_cases3)
  from st have "des1 = des \<or> (\<exists>s. des1 = add_tile s des)"
    by (auto simp: tile_mapping_step_def split: option.splits if_splits)
  then have "length cardPrefix \<le> length name" if "name \<in> fst ` set des1" for name
    using that Cons.prems(2) [of name] add_tile_keys by blast
  with Cons.IH [of dis1 des1 pref1] Cons.prems(1,3) e st show ?case by simp
qed

text \<open>Reading the tiles to deschedule out of a node's labels cannot panic: every card name in the
  mapping starts with the prefix that is sliced off.\<close>

theorem calculateTiles_returns:
  "\<exists>tiles. calculateTilesFromDescheduleLabels node = Some tiles"
proof -
  obtain dis des pref where m: "createTileMapping (node_labels node) = (dis, des, pref)"
    by (metis prod_cases3)
  have "\<exists>s'. desched_tile_step e s = Some s'" if "e \<in> set des" for e s
  proof -
    obtain cardName tiles where e: "e = (cardName, tiles)" by (cases e)
    with that have "cardName \<in> fst ` set des" by (force intro: image_eqI)
    from tile_mapping_names [OF m [unfolded createTileMapping_def] _ this]
    show ?thesis by (simp add: desched_tile_step_def e)
  qed
  then have "\<exists>tiles. ofold desched_tile_step des [] = Some tiles" by (rule ofold_returns)
  with m show ?thesis by (simp add: calculateTilesFromDescheduleLabels_def)
qed

end
