(* ===== verification/Gpu_Scheduler.thy ===== *)
theory Gpu_Scheduler
  imports Gpu_Events
begin

text \<open>
  \<^verbatim>\<open>gpu-aware-scheduling/pkg/gpuscheduler/scheduler.go\<close>, the allocation: which GPUs and tiles of a
  node the containers of a pod would get. The functions work on a copy of the node's resources
  in use, which they charge as they go; the copy is threaded through and returned, because the
  sources go on with it after a failed attempt.

  \<open>m\<close> is the extender's configuration; \<open>tileStatus\<close> reads the tiles in use on a node
  (\<^verbatim>\<open>iCache.GetNodeTileStatus(m.cache, ...)\<close>); \<open>ord\<close> is the order in which the runtime ranges over a
  set of tiles that a function has built itself.
\<close>

subsection \<open>Data\<close>

definition allowlistAnnotationName :: string where "allowlistAnnotationName = ''gas-allow''"
definition denylistAnnotationName :: string where "denylistAnnotationName = ''gas-deny''"
definition xelinkAnnotationName :: string where "xelinkAnnotationName = ''gas-allocate-xelink''"
definition samegpuAnnotationName :: string where "samegpuAnnotationName = ''gas-same-gpu''"
definition singleNumaAnnotationName :: string where
  "singleNumaAnnotationName = ''gas-allocate-single-numa''"
definition samegpuMaxI915Request :: int where "samegpuMaxI915Request = 1"
definition samegpuMinContainers :: nat where "samegpuMinContainers = 2"
definition gpuDisableLabelPrefix :: string where "gpuDisableLabelPrefix = ''gas-disable-''"
definition gpuPreferenceLabel :: string where "gpuPreferenceLabel = ''gas-prefer-gpu''"
definition gpuListLabel :: string where "gpuListLabel = gpuPrefix @ ''cards''"
definition i915MonitoringResource :: string where "i915MonitoringResource = gpuPrefix @ ''i915_monitoring''"
definition xeMonitoringResource :: string where "xeMonitoringResource = gpuPrefix @ ''xe_monitoring''"
definition numaMappingLabel :: string where "numaMappingLabel = gpuPrefix @ ''numa-gpu-map''"

text \<open>The configuration part of \<^verbatim>\<open>GASExtender\<close>.\<close>

record gas_extender =
  balancedResource :: string
  allowlistEnabled :: bool
  denylistEnabled :: bool

record gas_card =
  card_gpuName :: string
  card_xeLinkedTileIds :: "int list"

subsection \<open>What a node has and what a container asks for\<close>

definition getCardNameSlice :: "string \<Rightarrow> string list" where
  "getCardNameSlice gpuNumbers = map (\<lambda>index. cardPrefix @ index) (split_on CHR ''.'' gpuNumbers)"

definition getNodeGPUList :: "node option \<Rightarrow> string list option" where
  "getNodeGPUList nodeptr =
     (case nodeptr of
        None \<Rightarrow> Some []
      | Some node \<Rightarrow>
          if node_labels node = None then Some []
          else do {
            gpuNumbersValue \<leftarrow> concatenateSplitLabel node gpuNumbersLabel;
            Some (if gpuNumbersValue \<noteq> [] then getCardNameSlice gpuNumbersValue
                  else case nil_get (node_labels node) gpuListLabel of
                         None \<Rightarrow> []
                       | Some label \<Rightarrow> split_on CHR ''.'' label)
          })"

definition getNodeGPUResourceCapacity :: "node \<Rightarrow> resource_map" where
  "getNodeGPUResourceCapacity node =
     fold (\<lambda>(resName, value) capacity.
         if prefix resourcePrefix resName then AList.update resName value capacity else capacity)
       (node_allocatable node) []"

definition getPerGPUResourceCapacity :: "node \<Rightarrow> nat \<Rightarrow> resource_map" where
  "getPerGPUResourceCapacity node gpuCount =
     (if gpuCount = 0 then []
      else case rm_divide (newCopy (getNodeGPUResourceCapacity node)) (int gpuCount) of
             Inl err \<Rightarrow> []
           | Inr perGPUCapacity \<Rightarrow> perGPUCapacity)"

definition getPluginResourceName :: "resource_map \<Rightarrow> string" where
  "getPluginResourceName containerRequest =
     (case map_of containerRequest xePluginResource of
        Some numXe \<Rightarrow> if 0 < sint numXe then xePluginResource else i915PluginResource
      | None \<Rightarrow> i915PluginResource)"

definition getNumGPUReq :: "resource_map \<Rightarrow> int" where
  "getNumGPUReq containerRequest =
     (case map_of containerRequest (getPluginResourceName containerRequest) of
        Some numGPUReq \<Rightarrow> if 0 < sint numGPUReq then sint numGPUReq else 0
      | None \<Rightarrow> 0)"

definition getPerGPUResourceRequest :: "resource_map \<Rightarrow> resource_map \<times> int" where
  "getPerGPUResourceRequest containerRequest =
     (let perGPUResourceRequest = newCopy containerRequest;
          numGPUReq = getNumGPUReq containerRequest
      in if 1 < numGPUReq
         then (case rm_divide perGPUResourceRequest numGPUReq of
                 Inl err \<Rightarrow> (perGPUResourceRequest, 0)
               | Inr perGPUResourceRequest \<Rightarrow> (perGPUResourceRequest, numGPUReq))
         else (perGPUResourceRequest, numGPUReq))"

definition containerHasTiles :: "resource_map \<Rightarrow> bool" where
  "containerHasTiles resources =
     (case map_of resources gpuTileResource of Some quantity \<Rightarrow> 0 < sint quantity | None \<Rightarrow> False)"

subsection \<open>Which GPUs may be used\<close>

definition createSearchMapFromStrings :: "string list \<Rightarrow> string search_map" where
  "createSearchMapFromStrings strings = fold List.insert strings []"

definition createSearchMapFromContainers :: "container list \<Rightarrow> string search_map" where
  "createSearchMapFromContainers conts = createSearchMapFromStrings (map container_name conts)"

definition isGPUAllowed :: "gas_extender \<Rightarrow> string \<Rightarrow> pod \<Rightarrow> bool" where
  "isGPUAllowed m gpuName pod =
     (if \<not> allowlistEnabled m \<or> pod_annotations pod = None then True
      else case nil_get (pod_annotations pod) allowlistAnnotationName of
             Some csvAllowlist \<Rightarrow>
               gpuName \<in> set (createSearchMapFromStrings (split_on CHR '','' csvAllowlist))
           | None \<Rightarrow> True)"

definition isGPUDenied :: "gas_extender \<Rightarrow> string \<Rightarrow> pod \<Rightarrow> bool" where
  "isGPUDenied m gpuName pod =
     (if \<not> denylistEnabled m \<or> pod_annotations pod = None then False
      else case nil_get (pod_annotations pod) denylistAnnotationName of
             Some csvDenylist \<Rightarrow>
               gpuName \<in> set (createSearchMapFromStrings (split_on CHR '','' csvDenylist))
           | None \<Rightarrow> False)"

definition gpu_disabled_by :: "string \<Rightarrow> node \<Rightarrow> string \<Rightarrow> string \<Rightarrow> bool option" where
  "gpu_disabled_by gpuName node label value =
     (case labelWithoutTASNS label of
        None \<Rightarrow> Some False
      | Some strippedLabel \<Rightarrow>
          if prefix gpuDisableLabelPrefix strippedLabel
          then (if suffix gpuName label then Some True
                else if value = pciGroupValue
                then isGPUInPCIGroup gpuName (drop (length gpuDisableLabelPrefix) strippedLabel) node
                else Some False)
          else Some False)"

fun gpu_disabled_loop :: "string \<Rightarrow> node \<Rightarrow> (string \<times> string) list \<Rightarrow> bool option" where
  "gpu_disabled_loop gpuName node [] = Some False"
| "gpu_disabled_loop gpuName node ((label, value) # labels) = do {
     disabled \<leftarrow> gpu_disabled_by gpuName node label value;
     if disabled then Some True else gpu_disabled_loop gpuName node labels
   }"

definition isGPUDisabled :: "string \<Rightarrow> node \<Rightarrow> bool option" where
  "isGPUDisabled gpuName node = gpu_disabled_loop gpuName node (nil_entries (node_labels node))"

definition isGPUUsable :: "gas_extender \<Rightarrow> string \<Rightarrow> node \<Rightarrow> pod \<Rightarrow> bool option" where
  "isGPUUsable m gpuName node pod = do {
     disabled \<leftarrow> isGPUDisabled gpuName node;
     Some (\<not> disabled \<and> isGPUAllowed m gpuName pod \<and> \<not> isGPUDenied m gpuName pod)
   }"

definition checkGpuAvailability ::
  "gas_extender \<Rightarrow> string \<Rightarrow> node \<Rightarrow> pod \<Rightarrow> string search_map \<Rightarrow> string search_map \<Rightarrow> bool option" where
  "checkGpuAvailability m gpuName node pod usedGPUmap gpuMap =
     (if gpuName \<in> set usedGPUmap then Some False
      else if gpuName \<notin> set gpuMap then Some False
      else isGPUUsable m gpuName node pod)"

text \<open>The result of \<^verbatim>\<open>checkResourceCapacity\<close> does not depend on the order of the request.\<close>

definition checkResourceCapacity :: "resource_map \<Rightarrow> resource_map \<Rightarrow> resource_map \<Rightarrow> bool" where
  "checkResourceCapacity neededResources capacity used =
     list_all (\<lambda>(resName, resNeed).
       if sint resNeed < 0 then False
       else case map_of capacity resName of
              None \<Rightarrow> False
            | Some resCapacity \<Rightarrow>
                (let resUsed = gm_getd 0 used resName
                 in if sint resCapacity \<le> 0 then False
                    else if sint resUsed < 0 then False
                    else if sint (resUsed + resNeed) < 0 then False
                    else if sint resCapacity < sint (resUsed + resNeed) then False
                    else True))
       neededResources"

subsection \<open>The order in which GPUs are tried\<close>

definition findNodesPreferredGPU :: "node \<Rightarrow> string" where
  "findNodesPreferredGPU node =
     (case find (\<lambda>(label, value). suffix gpuPreferenceLabel label \<and> prefix tasNSPrefix label \<and>
              (case split_on CHR ''/'' label of [_, name] \<Rightarrow> name = gpuPreferenceLabel | _ \<Rightarrow> False))
            (nil_entries (node_labels node)) of
        Some (label, value) \<Rightarrow> value
      | None \<Rightarrow> [])"

definition movePreferredCardToFront :: "string list \<Rightarrow> string \<Rightarrow> string list" where
  "movePreferredCardToFront gpuNames preferredCard =
     (case index_of gpuNames preferredCard of
        None \<Rightarrow> gpuNames
      | Some i \<Rightarrow> gpuNames[0 := preferredCard, i := gpuNames ! 0])"

definition arrangeGPUNamesPerResourceAvailability ::
  "node_resources \<Rightarrow> string list \<Rightarrow> string \<Rightarrow> string list" where
  "arrangeGPUNamesPerResourceAvailability nodeResourcesUsed gpuNames balancedRes =
     sort_key (\<lambda>gpuName. amount (gm_getd [] nodeResourcesUsed gpuName) (gpuPrefix @ balancedRes)) gpuNames"

definition getSortedGPUNamesForNode :: "node_resources \<Rightarrow> string list" where
  "getSortedGPUNamesForNode nodeResourcesUsed = sort (map fst nodeResourcesUsed)"

text \<open>
  How both allocation functions order the GPUs of a round, and the preferred GPU if the round
  looked for one.
\<close>

definition candidates :: "gas_extender \<Rightarrow> node \<Rightarrow> node_resources \<Rightarrow> string list \<times> string" where
  "candidates m node nodeResourcesUsed =
     (let gpuNames = getSortedGPUNamesForNode nodeResourcesUsed
      in if balancedResource m \<noteq> []
         then (arrangeGPUNamesPerResourceAvailability nodeResourcesUsed gpuNames (balancedResource m), [])
         else let preferredCard = findNodesPreferredGPU node
              in if preferredCard \<noteq> [] then (movePreferredCardToFront gpuNames preferredCard, preferredCard)
                 else (gpuNames, []))"

subsection \<open>GPUs for one container\<close>

text \<open>
  \<^verbatim>\<open>usedResMap.addRM(request)\<close>: an error leaves the map as it was and is ignored; a GPU that has
  no map at all is a nil map, and writing to it panics.
\<close>

definition charge_gpu :: "node_resources \<Rightarrow> string \<Rightarrow> resource_map \<Rightarrow> node_resources option" where
  "charge_gpu nodeResourcesUsed gpuName request =
     (case addRM (gm_getd [] nodeResourcesUsed gpuName) request of
        Inl err \<Rightarrow> Some nodeResourcesUsed
      | Inr rm \<Rightarrow>
          (case map_of nodeResourcesUsed gpuName of
             Some _ \<Rightarrow> Some (AList.update gpuName rm nodeResourcesUsed)
           | None \<Rightarrow> if rm = [] then Some nodeResourcesUsed else None))"

fun find_fitting_gpu ::
  "gas_extender \<Rightarrow> node \<Rightarrow> pod \<Rightarrow> resource_map \<Rightarrow> resource_map \<Rightarrow> node_resources \<Rightarrow>
   string search_map \<Rightarrow> string search_map \<Rightarrow> (nat \<times> string) list \<Rightarrow> (nat \<times> string) option option" where
  "find_fitting_gpu m node pod request capacity used gpuMap usedGPUmap [] = Some None"
| "find_fitting_gpu m node pod request capacity used gpuMap usedGPUmap ((gpuIndex, gpuName) # gpuNames) = do {
     available \<leftarrow> checkGpuAvailability m gpuName node pod usedGPUmap gpuMap;
     if available \<and> checkResourceCapacity request capacity (gm_getd [] used gpuName)
     then Some (Some (gpuIndex, gpuName))
     else find_fitting_gpu m node pod request capacity used gpuMap usedGPUmap gpuNames
   }"

type_synonym card_result = "(gas_error + gas_card list \<times> bool) \<times> node_resources"

primrec cards_loop ::
  "nat \<Rightarrow> gas_extender \<Rightarrow> node \<Rightarrow> pod \<Rightarrow> resource_map \<Rightarrow> resource_map \<Rightarrow> string search_map \<Rightarrow>
   string search_map \<Rightarrow> gas_card list \<Rightarrow> bool \<Rightarrow> node_resources \<Rightarrow> card_result option" where
  "cards_loop 0 m node pod request capacity gpuMap usedGPUmap cards preferred used =
     Some (Inr (cards, preferred), used)"
| "cards_loop (Suc n) m node pod request capacity gpuMap usedGPUmap cards preferred used =
     (case candidates m node used of (gpuNames, preferredCard) \<Rightarrow> do {
        fitted \<leftarrow> find_fitting_gpu m node pod request capacity used gpuMap usedGPUmap (enumerate 0 gpuNames);
        case fitted of
          None \<Rightarrow> Some (Inl ErrWontFit, used)
        | Some (gpuIndex, gpuName) \<Rightarrow> do {
            used \<leftarrow> charge_gpu used gpuName request;
            cards_loop n m node pod request capacity gpuMap (List.insert gpuName usedGPUmap)
              (cards @ [\<lparr>card_gpuName = gpuName, card_xeLinkedTileIds = []\<rparr>])
              (preferred \<or> (gpuIndex = 0 \<and> preferredCard \<noteq> [])) used
          }
      })"

definition getCardsForContainerGPURequestImpl ::
  "gas_extender \<Rightarrow> resource_map \<Rightarrow> resource_map \<Rightarrow> node \<Rightarrow> pod \<Rightarrow> string search_map \<Rightarrow>
   node_resources \<Rightarrow> card_result option" where
  "getCardsForContainerGPURequestImpl m containerRequest perGPUCapacity node pod gpuMap used =
     (case getPerGPUResourceRequest containerRequest of (perGPUResourceRequest, numI915) \<Rightarrow>
        cards_loop (nat numI915) m node pod perGPUResourceRequest perGPUCapacity gpuMap [] [] False used)"

definition getCardsForContainerGPURequest ::
  "gas_extender \<Rightarrow> resource_map \<Rightarrow> resource_map \<Rightarrow> node \<Rightarrow> pod \<Rightarrow> string search_map \<Rightarrow>
   node_resources \<Rightarrow> card_result option" where
  "getCardsForContainerGPURequest m containerRequest perGPUCapacity node pod gpuMap used =
     (if length containerRequest = 0 then Some (Inr ([], False), used)
      else getCardsForContainerGPURequestImpl m containerRequest perGPUCapacity node pod gpuMap used)"

subsection \<open>Pairs of GPUs with an Xe link\<close>

definition createUnavailableTilesStat ::
  "(string \<Rightarrow> node_tiles) \<Rightarrow> node \<Rightarrow> int \<Rightarrow> node_tiles \<Rightarrow> node_tiles" where
  "createUnavailableTilesStat tileStatus node tilesPerGpu unusableTiles =
     (let disabledTilesMap = sanitizeTiles (createDisabledTileMapping (node_labels node)) tilesPerGpu
      in combineMappings unusableTiles (combineMappings disabledTilesMap (tileStatus (node_name node))))"

definition createAvailableXeLinkedTilesStat ::
  "(int list \<Rightarrow> int list) \<Rightarrow> (string \<Rightarrow> node_tiles) \<Rightarrow> node \<Rightarrow> int \<Rightarrow> string list \<Rightarrow> node_tiles \<Rightarrow>
   node_tiles option" where
  "createAvailableXeLinkedTilesStat ord tileStatus node tileCapacityPerGPU gpuNames nodeTilesAllocating =
     (let unavailableTiles = createUnavailableTilesStat tileStatus node tileCapacityPerGPU nodeTilesAllocating
      in ofold (\<lambda>gpuName availableTiles. do {
             gpuAvailableTiles \<leftarrow> getXeLinkedTiles gpuName node;
             Some (AList.update gpuName
               (ord (filter (\<lambda>index. index \<notin> set (gm_getd [] unavailableTiles gpuName)) gpuAvailableTiles))
               availableTiles)
           }) gpuNames [])"

text \<open>The search for the linked partner of one GPU, tile by tile.\<close>

fun find_linked_tile ::
  "gas_extender \<Rightarrow> node \<Rightarrow> pod \<Rightarrow> resource_map \<Rightarrow> resource_map \<Rightarrow> node_resources \<Rightarrow> node_tiles \<Rightarrow>
   string search_map \<Rightarrow> string search_map \<Rightarrow> string \<Rightarrow> int list \<Rightarrow> (int \<times> string \<times> int) option option" where
  "find_linked_tile m node pod request capacity used availableTiles gpuMap usedGPUmap gpuName [] = Some None"
| "find_linked_tile m node pod request capacity used availableTiles gpuMap usedGPUmap gpuName
     (tileIndex # tiles) = do {
     (linkedGpuName, linkedTileID) \<leftarrow> getXeLinkedGPUInfo gpuName tileIndex node;
     available \<leftarrow> checkGpuAvailability m linkedGpuName node pod usedGPUmap gpuMap;
     if available \<and> fst (containsInt (gm_getd [] availableTiles linkedGpuName) linkedTileID) \<and>
        checkResourceCapacity request capacity (gm_getd [] used linkedGpuName)
     then Some (Some (tileIndex, linkedGpuName, linkedTileID))
     else find_linked_tile m node pod request capacity used availableTiles gpuMap usedGPUmap gpuName tiles
   }"

fun find_linked_pair ::
  "gas_extender \<Rightarrow> node \<Rightarrow> pod \<Rightarrow> resource_map \<Rightarrow> resource_map \<Rightarrow> node_resources \<Rightarrow> node_tiles \<Rightarrow>
   string search_map \<Rightarrow> string search_map \<Rightarrow> string list \<Rightarrow>
   (string \<times> int \<times> string \<times> int) option option" where
  "find_linked_pair m node pod request capacity used availableTiles gpuMap usedGPUmap [] = Some None"
| "find_linked_pair m node pod request capacity used availableTiles gpuMap usedGPUmap (gpuName # gpuNames) = do {
     available \<leftarrow> checkGpuAvailability m gpuName node pod usedGPUmap gpuMap;
     linked \<leftarrow> (if available \<and> checkResourceCapacity request capacity (gm_getd [] used gpuName)
       then find_linked_tile m node pod request capacity used availableTiles gpuMap usedGPUmap gpuName
              (gm_getd [] availableTiles gpuName)
       else Some None);
     case linked of
       Some (tileIndex, linkedGpuName, linkedTileID) \<Rightarrow> Some (Some (gpuName, tileIndex, linkedGpuName, linkedTileID))
     | None \<Rightarrow> find_linked_pair m node pod request capacity used availableTiles gpuMap usedGPUmap gpuNames
   }"

type_synonym pair_result =
  "(gas_error + gas_card list) \<times> node_resources \<times> node_tiles \<times> string search_map"

definition findXeLinkedGPUPair ::
  "gas_extender \<Rightarrow> string list \<Rightarrow> node \<Rightarrow> pod \<Rightarrow> node_resources \<Rightarrow> node_tiles \<Rightarrow> node_tiles \<Rightarrow>
   resource_map \<Rightarrow> resource_map \<Rightarrow> string search_map \<Rightarrow> string search_map \<Rightarrow> pair_result option" where
  "findXeLinkedGPUPair m gpuNames node pod used availableTiles nodeTilesAllocating request capacity
     gpuMap usedGPUmap = do {
     pair \<leftarrow> find_linked_pair m node pod request capacity used availableTiles gpuMap usedGPUmap gpuNames;
     case pair of
       None \<Rightarrow> Some (Inl ErrWontFit, used, nodeTilesAllocating, usedGPUmap)
     | Some (gpuName, tileIndex, linkedGpuName, linkedTileID) \<Rightarrow> do {
         used \<leftarrow> charge_gpu used gpuName request;
         used \<leftarrow> charge_gpu used linkedGpuName request;
         let cards = [\<lparr>card_gpuName = gpuName, card_xeLinkedTileIds = [tileIndex]\<rparr>,
                      \<lparr>card_gpuName = linkedGpuName, card_xeLinkedTileIds = [linkedTileID]\<rparr>];
         Some (Inr cards, used,
           fold (\<lambda>gcard tiles. gm_append (card_gpuName gcard) (card_xeLinkedTileIds gcard) tiles)
             cards nodeTilesAllocating,
           List.insert linkedGpuName (List.insert gpuName usedGPUmap))
       }
   }"

type_synonym xe_result =
  "(gas_error + gas_card list \<times> bool) \<times> node_resources \<times> node_tiles"

primrec xe_pairs_loop ::
  "nat \<Rightarrow> (int list \<Rightarrow> int list) \<Rightarrow> (string \<Rightarrow> node_tiles) \<Rightarrow> gas_extender \<Rightarrow> node \<Rightarrow> pod \<Rightarrow>
   resource_map \<Rightarrow> resource_map \<Rightarrow> string search_map \<Rightarrow> string search_map \<Rightarrow> gas_card list \<Rightarrow> string \<Rightarrow>
   node_resources \<Rightarrow> node_tiles \<Rightarrow> xe_result option" where
  "xe_pairs_loop 0 ord tileStatus m node pod request capacity gpuMap usedGPUmap cards preferredCard used
     nodeTilesAllocating =
     Some (Inr (cards, cards \<noteq> [] \<and> card_gpuName (hd cards) = preferredCard), used, nodeTilesAllocating)"
| "xe_pairs_loop (Suc n) ord tileStatus m node pod request capacity gpuMap usedGPUmap cards preferredCard used
     nodeTilesAllocating =
     (case candidates m node used of (gpuNames, preferredCard) \<Rightarrow> do {
        availableTiles \<leftarrow> createAvailableXeLinkedTilesStat ord tileStatus node
          (sint (gm_getd 0 capacity gpuTileResource)) gpuNames nodeTilesAllocating;
        (result, used, nodeTilesAllocating, usedGPUmap) \<leftarrow>
          findXeLinkedGPUPair m gpuNames node pod used availableTiles nodeTilesAllocating request capacity
            gpuMap usedGPUmap;
        case result of
          Inl err \<Rightarrow> Some (Inl err, used, nodeTilesAllocating)
        | Inr cardPair \<Rightarrow>
            xe_pairs_loop n ord tileStatus m node pod request capacity gpuMap usedGPUmap (cards @ cardPair)
              preferredCard used nodeTilesAllocating
      })"

definition getXELinkedCardsForContainerGPURequest ::
  "(int list \<Rightarrow> int list) \<Rightarrow> (string \<Rightarrow> node_tiles) \<Rightarrow> gas_extender \<Rightarrow> resource_map \<Rightarrow> resource_map \<Rightarrow>
   node \<Rightarrow> pod \<Rightarrow> string search_map \<Rightarrow> node_resources \<Rightarrow> node_tiles \<Rightarrow> xe_result option" where
  "getXELinkedCardsForContainerGPURequest ord tileStatus m containerRequest perGPUCapacity node pod gpuMap
     used nodeTilesAllocating =
     (if length containerRequest = 0 then Some (Inr ([], False), used, nodeTilesAllocating)
      else case getPerGPUResourceRequest containerRequest of (perGPUResourceRequest, numGPUReq) \<Rightarrow>
        if numGPUReq mod 2 \<noteq> 0 then Some (Inl ErrBadArgs, used, nodeTilesAllocating)
        else xe_pairs_loop (nat (numGPUReq div 2)) ord tileStatus m node pod perGPUResourceRequest
               perGPUCapacity gpuMap [] [] [] used nodeTilesAllocating)"

subsection \<open>Containers that share one GPU\<close>

text \<open>
  The search map of the containers is the list of their indices; the sums do not depend on its
  order.
\<close>

definition samegpu_name_step ::
  "string search_map \<Rightarrow> string \<Rightarrow> string search_map \<Rightarrow> gas_error + string search_map" where
  "samegpu_name_step podContainerNames containerName samegpuMap =
     (if containerName \<in> set samegpuMap then Inl ErrAnnotation
      else if containerName \<notin> set podContainerNames then Inl ErrAnnotation
      else Inr (List.insert containerName samegpuMap))"

definition containersRequestingSamegpu :: "pod \<Rightarrow> gas_error + string search_map" where
  "containersRequestingSamegpu pod =
     (case nil_get (pod_annotations pod) samegpuAnnotationName of
        None \<Rightarrow> Inr []
      | Some csvSamegpulist \<Rightarrow>
          (let samegpuContainerNames = split_on CHR '','' csvSamegpulist
           in if length samegpuContainerNames < samegpuMinContainers then Inl ErrAnnotation
              else efold (samegpu_name_step (createSearchMapFromContainers (containers pod)))
                     samegpuContainerNames []))"

definition sanitizeSamegpuResourcesRequest ::
  "nat search_map \<Rightarrow> resource_map list \<Rightarrow> gas_error + unit" where
  "sanitizeSamegpuResourcesRequest samegpuIndexMap allResourceRequests =
     (if length samegpuIndexMap = 0 then Inr ()
      else if list_all (\<lambda>idx.
               list_all (\<lambda>prohibited. map_of (allResourceRequests ! idx) prohibited = None)
                 [gpuTileResource, i915MonitoringResource, xeMonitoringResource] \<and>
               getNumGPUReq (allResourceRequests ! idx) = samegpuMaxI915Request)
             samegpuIndexMap
      then Inr () else Inl ErrResConflict)"

definition combineSamegpuResourceRequests ::
  "nat search_map \<Rightarrow> resource_map list \<Rightarrow> gas_error + resource_map" where
  "combineSamegpuResourceRequests indexMap resourceRequests =
     (case efold (\<lambda>index combinedResources. addRM combinedResources (resourceRequests ! index)) indexMap [] of
        Inl err \<Rightarrow> Inl err
      | Inr combinedResources \<Rightarrow>
          Inr (AList.update (getPluginResourceName combinedResources) 1 combinedResources))"

text \<open>The GPUs that do not have room for the plugin resources of all the containers.\<close>

definition prune_gpu_map ::
  "resource_map \<Rightarrow> string \<Rightarrow> nat \<Rightarrow> node_resources \<Rightarrow> string search_map \<Rightarrow> string search_map" where
  "prune_gpu_map perGPUCapacity gpuPluginResource reallyNeeded nodeResourcesUsed gpuMap =
     fold (\<lambda>(gpuName, gpuUsedResources) gpuMapCopy.
         if sint (gm_getd 0 perGPUCapacity gpuPluginResource - gm_getd 0 gpuUsedResources gpuPluginResource)
              < int reallyNeeded
         then removeAll gpuName gpuMapCopy else gpuMapCopy)
       nodeResourcesUsed gpuMap"

definition getCardForSamegpu ::
  "gas_extender \<Rightarrow> nat search_map \<Rightarrow> resource_map list \<Rightarrow> resource_map \<Rightarrow> node \<Rightarrow> pod \<Rightarrow>
   string search_map \<Rightarrow> node_resources \<Rightarrow> card_result option" where
  "getCardForSamegpu m samegpuIndexMap allContainerRequests perGPUCapacity node pod gpuMap used =
     (case sanitizeSamegpuResourcesRequest samegpuIndexMap allContainerRequests of
        Inl err \<Rightarrow> Some (Inl err, used)
      | Inr _ \<Rightarrow>
          (case combineSamegpuResourceRequests samegpuIndexMap allContainerRequests of
             Inl fail \<Rightarrow> Some (Inl fail, used)
           | Inr combinedResourcesRequest \<Rightarrow>
               (let gpuPluginResource = getPluginResourceName combinedResourcesRequest;
                    gpuMapCopy = prune_gpu_map perGPUCapacity gpuPluginResource (length samegpuIndexMap) used gpuMap
                in do {
                  (result, used) \<leftarrow> getCardsForContainerGPURequest m combinedResourcesRequest perGPUCapacity
                    node pod gpuMapCopy used;
                  case result of
                    Inl err \<Rightarrow> Some (Inl err, used)
                  | Inr (samegpuCard, preferred) \<Rightarrow>
                      (case samegpuCard of
                         [] \<Rightarrow> None
                       | gcard # _ \<Rightarrow>
                           (let bookKeepingRM = [(gpuPluginResource, word_of_int (int (length samegpuIndexMap) - 1))]
                            in case addRM (gm_getd [] used (card_gpuName gcard)) bookKeepingRM of
                                 Inl err \<Rightarrow> Some (Inl err, used)
                               | Inr _ \<Rightarrow> do {
                                   used \<leftarrow> charge_gpu used (card_gpuName gcard) bookKeepingRM;
                                   Some (Inr (samegpuCard, preferred), used)
                                 }))
                })))"

subsection \<open>GPUs for a pod\<close>

definition addEmptyResourceMaps :: "string list \<Rightarrow> node_resources \<Rightarrow> node_resources" where
  "addEmptyResourceMaps gpus nodeResourcesUsed = fold ensure_entry gpus nodeResourcesUsed"

definition addUnavailableToUsedResources :: "node_resources \<Rightarrow> node_resources \<Rightarrow> node_resources" where
  "addUnavailableToUsedResources nodeResourcesUsed unavailableResources =
     fold (\<lambda>(cardName, res) used.
         case map_of used cardName of
           None \<Rightarrow> used
         | Some usedResources \<Rightarrow>
             (case addRM usedResources res of
                Inl err \<Rightarrow> used
              | Inr rm \<Rightarrow> AList.update cardName rm used))
       unavailableResources nodeResourcesUsed"

definition createUnavailableNodeResources ::
  "(string \<Rightarrow> node_tiles) \<Rightarrow> node \<Rightarrow> int \<Rightarrow> node_resources" where
  "createUnavailableNodeResources tileStatus node tileCapacityPerGPU =
     (let disabledTilesMap = sanitizeTiles (createDisabledTileMapping (node_labels node)) tileCapacityPerGPU;
          usedTilesStats = tileStatus (node_name node)
      in fold (\<lambda>(cardName, tiles) nodeRes.
             let usedTiles = gm_getd [] usedTilesStats cardName
             in AList.update cardName
                  [(gpuTileResource,
                    fold (\<lambda>tile n. if fst (containsInt usedTiles tile) then n else n + 1) tiles 0)]
                  nodeRes)
           disabledTilesMap [])"

definition checkPod :: "pod option \<Rightarrow> gas_error + pod" where
  "checkPod podptr =
     (case podptr of
        None \<Rightarrow> Inl ErrBadArgs
      | Some pod \<Rightarrow>
          if nil_get (pod_annotations pod) xelinkAnnotationName \<noteq> None \<and>
             nil_get (pod_annotations pod) samegpuAnnotationName \<noteq> None
          then Inl ErrBadArgs else Inr pod)"

fun numa_gpu_maps :: "string list \<Rightarrow> string search_map list \<Rightarrow> string search_map list" where
  "numa_gpu_maps [] maps = maps"
| "numa_gpu_maps (numaGroup # numaGroups) maps =
     (case split_on CHR ''-'' numaGroup of
        [_, gpuNumbers] \<Rightarrow>
          numa_gpu_maps numaGroups (maps @ [createSearchMapFromStrings (getCardNameSlice gpuNumbers)])
      | _ \<Rightarrow> [])"

definition createGPUMaps :: "pod \<Rightarrow> node \<Rightarrow> string list \<Rightarrow> string search_map list option" where
  "createGPUMaps pod node allGPUs =
     (if pod_annotations pod = None \<or> node_labels node = None
      then Some [createSearchMapFromStrings allGPUs]
      else do {
        gpuNumaInformation \<leftarrow> concatenateSplitLabel node numaMappingLabel;
        Some (if nil_get (pod_annotations pod) singleNumaAnnotationName \<noteq> None \<and> 0 < length gpuNumaInformation
              then numa_gpu_maps (split_on CHR ''_'' gpuNumaInformation) []
              else [createSearchMapFromStrings allGPUs])
      })"

text \<open>One container tried on one search map.\<close>

definition container_cards ::
  "(int list \<Rightarrow> int list) \<Rightarrow> (string \<Rightarrow> node_tiles) \<Rightarrow> gas_extender \<Rightarrow> resource_map \<Rightarrow> resource_map \<Rightarrow>
   node \<Rightarrow> pod \<Rightarrow> string search_map \<Rightarrow> node_resources \<Rightarrow> node_tiles \<Rightarrow> xe_result option" where
  "container_cards ord tileStatus m containerRequest perGPUCapacity node pod gpuMap used tiles =
     (if nil_get (pod_annotations pod) xelinkAnnotationName \<noteq> None
      then getXELinkedCardsForContainerGPURequest ord tileStatus m containerRequest perGPUCapacity node pod
             gpuMap used tiles
      else do {
        (result, used) \<leftarrow> getCardsForContainerGPURequest m containerRequest perGPUCapacity node pod gpuMap used;
        Some (result, used, tiles)
      })"

text \<open>
  The search maps are tried in turn. \<^const>\<open>None\<close> inside the result means that there was no map to
  try, which leaves the container without cards and without an error.
\<close>

fun try_gpu_maps ::
  "(int list \<Rightarrow> int list) \<Rightarrow> (string \<Rightarrow> node_tiles) \<Rightarrow> gas_extender \<Rightarrow> resource_map \<Rightarrow> resource_map \<Rightarrow>
   node \<Rightarrow> pod \<Rightarrow> string search_map list \<Rightarrow> node_resources \<Rightarrow> node_tiles \<Rightarrow>
   ((gas_error + gas_card list \<times> bool) option \<times> node_resources \<times> node_tiles) option" where
  "try_gpu_maps ord tileStatus m containerRequest perGPUCapacity node pod [] used tiles = Some (None, used, tiles)"
| "try_gpu_maps ord tileStatus m containerRequest perGPUCapacity node pod (gpuMap # gpuMaps) used tiles = do {
     (result, used, tiles) \<leftarrow>
       container_cards ord tileStatus m containerRequest perGPUCapacity node pod gpuMap used tiles;
     case result of
       Inr cards \<Rightarrow> Some (Some (Inr cards), used, tiles)
     | Inl err \<Rightarrow>
         (if gpuMaps = [] then Some (Some (Inl err), used, tiles)
          else try_gpu_maps ord tileStatus m containerRequest perGPUCapacity node pod gpuMaps used tiles)
   }"

fun containers_loop ::
  "(int list \<Rightarrow> int list) \<Rightarrow> (string \<Rightarrow> node_tiles) \<Rightarrow> gas_extender \<Rightarrow> resource_map \<Rightarrow> node \<Rightarrow> pod \<Rightarrow>
   string search_map list \<Rightarrow> nat search_map \<Rightarrow> gas_card list \<Rightarrow> (nat \<times> resource_map) list \<Rightarrow>
   gas_card list list \<Rightarrow> bool \<Rightarrow> node_resources \<Rightarrow> node_tiles \<Rightarrow>
   (gas_error + gas_card list list \<times> bool) option" where
  "containers_loop ord tileStatus m perGPUCapacity node pod gpuMaps samegpuIndexMap samegpuCard []
     containerCards preferred used tiles = Some (Inr (containerCards, preferred))"
| "containers_loop ord tileStatus m perGPUCapacity node pod gpuMaps samegpuIndexMap samegpuCard
     ((index, containerRequest) # reqs) containerCards preferred used tiles =
     (if index \<in> set samegpuIndexMap
      then containers_loop ord tileStatus m perGPUCapacity node pod gpuMaps samegpuIndexMap samegpuCard reqs
             (containerCards @ [samegpuCard]) preferred used tiles
      else do {
        (result, used, tiles) \<leftarrow>
          try_gpu_maps ord tileStatus m containerRequest perGPUCapacity node pod gpuMaps used tiles;
        case result of
          None \<Rightarrow> containers_loop ord tileStatus m perGPUCapacity node pod gpuMaps samegpuIndexMap samegpuCard
                    reqs containerCards preferred used tiles
        | Some (Inl err) \<Rightarrow> Some (Inl err)
        | Some (Inr (cards, preferred)) \<Rightarrow>
            containers_loop ord tileStatus m perGPUCapacity node pod gpuMaps samegpuIndexMap samegpuCard
              reqs (containerCards @ [cards]) preferred used tiles
      })"

definition checkForSpaceResourceRequests ::
  "(int list \<Rightarrow> int list) \<Rightarrow> (string \<Rightarrow> node_tiles) \<Rightarrow> gas_extender \<Rightarrow> resource_map \<Rightarrow> pod \<Rightarrow> node \<Rightarrow>
   node_resources \<Rightarrow> string search_map list \<Rightarrow> (gas_error + gas_card list list \<times> bool) option" where
  "checkForSpaceResourceRequests ord tileStatus m perGPUCapacity pod node nodeResourcesUsed gpuMaps =
     (case containersRequestingSamegpu pod of
        Inl err \<Rightarrow> Some (Inl err)
      | Inr samegpuNamesMap \<Rightarrow>
          (case containerRequests pod samegpuNamesMap of (samegpuIndexMap, allContainerRequests) \<Rightarrow> do {
             (result, used) \<leftarrow>
               (if 0 < length samegpuIndexMap
                then (case gpuMaps of
                        [] \<Rightarrow> None
                      | gpuMap # _ \<Rightarrow>
                          getCardForSamegpu m samegpuIndexMap allContainerRequests perGPUCapacity node pod gpuMap
                            nodeResourcesUsed)
                else Some (Inr ([], False), nodeResourcesUsed));
             case result of
               Inl err \<Rightarrow> Some (Inl err)
             | Inr (samegpuCard, preferred) \<Rightarrow>
                 containers_loop ord tileStatus m perGPUCapacity node pod gpuMaps samegpuIndexMap samegpuCard
                   (enumerate 0 allContainerRequests) [] preferred used []
           }))"

text \<open>
  \<open>resourceStatus\<close> reads the resources in use on a node (\<^verbatim>\<open>iCache.GetNodeResourceStatus\<close>), which is
  always a fresh map, never nil.
\<close>

definition readNodeResources :: "(string \<Rightarrow> node_resources) \<Rightarrow> string \<Rightarrow> gas_error + node_resources" where
  "readNodeResources resourceStatus nodeName = Inr (resourceStatus nodeName)"

definition checkForSpaceAndRetrieveCards ::
  "(int list \<Rightarrow> int list) \<Rightarrow> (string \<Rightarrow> node_tiles) \<Rightarrow> (string \<Rightarrow> node_resources) \<Rightarrow> gas_extender \<Rightarrow>
   pod option \<Rightarrow> node option \<Rightarrow> (gas_error + gas_card list list \<times> bool) option" where
  "checkForSpaceAndRetrieveCards ord tileStatus resourceStatus m podptr nodeptr =
     (case nodeptr of
        None \<Rightarrow> Some (Inl ErrWontFit)
      | Some node \<Rightarrow>
          (case checkPod podptr of
             Inl err \<Rightarrow> Some (Inl err)
           | Inr pod \<Rightarrow> do {
               gpus \<leftarrow> getNodeGPUList nodeptr;
               if length gpus = 0 then Some (Inl ErrWontFit)
               else (let perGPUCapacity = getPerGPUResourceCapacity node (length gpus)
                     in case readNodeResources resourceStatus (node_name node) of
                          Inl err \<Rightarrow> Some (Inl err)
                        | Inr nodeResourcesUsed \<Rightarrow> do {
                            gpuMaps \<leftarrow> createGPUMaps pod node gpus;
                            let nodeResourcesUsed = addEmptyResourceMaps gpus nodeResourcesUsed;
                            let tilesPerGpu = sint (gm_getd 0 perGPUCapacity gpuTileResource);
                            let unavailableResources = createUnavailableNodeResources tileStatus node tilesPerGpu;
                            let nodeResourcesUsed =
                              addUnavailableToUsedResources nodeResourcesUsed unavailableResources;
                            checkForSpaceResourceRequests ord tileStatus m perGPUCapacity pod node
                              nodeResourcesUsed gpuMaps
                          })
             }))"

subsection \<open>The annotations of a pod\<close>

definition getFreeTiles ::
  "(int list \<Rightarrow> int list) \<Rightarrow> (string \<Rightarrow> node_tiles) \<Rightarrow> int \<Rightarrow> node \<Rightarrow> string \<Rightarrow> node_tiles \<Rightarrow> int list" where
  "getFreeTiles ord tileStatus tileCapacityPerGPU node gpuName currentlyAllocatingTilesMap =
     (let freeTilesMap = [0..tileCapacityPerGPU - 1];
          gpuUsedTiles = gm_getd [] (tileStatus (node_name node)) gpuName;
          freeTilesMap = filter (\<lambda>i. i \<notin> set gpuUsedTiles) freeTilesMap;
          currentTiles = gm_getd [] currentlyAllocatingTilesMap gpuName;
          freeTilesMap = filter (\<lambda>i. i \<notin> set currentTiles) freeTilesMap
      in ord freeTilesMap)"

definition createTileAnnotation ::
  "(int list \<Rightarrow> int list) \<Rightarrow> (string \<Rightarrow> node_tiles) \<Rightarrow> gas_card \<Rightarrow> int \<Rightarrow> resource_map \<Rightarrow> resource_map \<Rightarrow>
   node \<Rightarrow> node_tiles \<Rightarrow> int list \<Rightarrow> string \<times> node_tiles" where
  "createTileAnnotation ord tileStatus gcard numCards containerRequest perGPUCapacity node
     currentlyAllocatingTilesMap preferredTiles =
     (let requestedTilesPerGPU = sint (gm_getd 0 containerRequest gpuTileResource) sdiv numCards;
          tileCapacityPerGPU = sint (gm_getd 0 perGPUCapacity gpuTileResource);
          gpuName = card_gpuName gcard
      in if requestedTilesPerGPU = 0 then ([], currentlyAllocatingTilesMap)
         else if requestedTilesPerGPU < 0 \<or> tileCapacityPerGPU < requestedTilesPerGPU
         then ([], currentlyAllocatingTilesMap)
         else if length (card_xeLinkedTileIds gcard) = 1 \<and> requestedTilesPerGPU = 1
         then (gpuName @ '':gt'' @ itoa (hd (card_xeLinkedTileIds gcard)), currentlyAllocatingTilesMap)
         else
           let freeTiles = getFreeTiles ord tileStatus tileCapacityPerGPU node gpuName currentlyAllocatingTilesMap
           in if int (length freeTiles) < requestedTilesPerGPU then ([], currentlyAllocatingTilesMap)
              else
                let freeTiles = (if 0 < length preferredTiles
                      then reorderPreferredTilesFirst freeTiles preferredTiles else freeTiles);
                    taken = take (nat requestedTilesPerGPU) freeTiles
                in (gpuName @ '':'' @ join_with CHR ''+'' (map (\<lambda>tile. tileString @ itoa tile) taken),
                    fold (\<lambda>tile tilesMap. gm_append gpuName [tile] tilesMap) taken currentlyAllocatingTilesMap))"

fun card_tile_annotations ::
  "(int list \<Rightarrow> int list) \<Rightarrow> (string \<Rightarrow> node_tiles) \<Rightarrow> int \<Rightarrow> resource_map \<Rightarrow> resource_map \<Rightarrow> node \<Rightarrow>
   tiles_map \<Rightarrow> gas_card list \<Rightarrow> node_tiles \<Rightarrow> string list \<times> node_tiles" where
  "card_tile_annotations ord tileStatus numCards containerRequest perGPUCapacity node prefTileMap [] unusable =
     ([], unusable)"
| "card_tile_annotations ord tileStatus numCards containerRequest perGPUCapacity node prefTileMap
     (gcard # cards) unusable =
     (case createTileAnnotation ord tileStatus gcard numCards containerRequest perGPUCapacity node unusable
             (gm_getd [] prefTileMap (card_gpuName gcard)) of
        (tiles, unusable) \<Rightarrow>
          (case card_tile_annotations ord tileStatus numCards containerRequest perGPUCapacity node prefTileMap
                  cards unusable of
             (rest, unusable) \<Rightarrow> (tiles # rest, unusable)))"

text \<open>The part of each container in the card annotation and in the tile annotation.\<close>

fun container_annotations ::
  "(int list \<Rightarrow> int list) \<Rightarrow> (string \<Rightarrow> node_tiles) \<Rightarrow> resource_map \<Rightarrow> node \<Rightarrow> tiles_map \<Rightarrow>
   (resource_map \<times> gas_card list) list \<Rightarrow> node_tiles \<Rightarrow> (string \<times> string) list" where
  "container_annotations ord tileStatus perGPUCapacity node prefTileMap [] unusable = []"
| "container_annotations ord tileStatus perGPUCapacity node prefTileMap ((containerRequest, cards) # rest) unusable =
     (let cardPart = join_with CHR '','' (map card_gpuName cards)
      in if containerHasTiles containerRequest
         then (case card_tile_annotations ord tileStatus (int (length cards)) containerRequest perGPUCapacity
                      node prefTileMap cards unusable of
                 (tiles, unusable) \<Rightarrow>
                   (cardPart, join_with CHR '','' tiles) #
                   container_annotations ord tileStatus perGPUCapacity node prefTileMap rest unusable)
         else (cardPart, []) #
              container_annotations ord tileStatus perGPUCapacity node prefTileMap rest unusable)"

definition convertNodeCardsToAnnotations ::
  "(int list \<Rightarrow> int list) \<Rightarrow> (string \<Rightarrow> node_tiles) \<Rightarrow> pod \<Rightarrow> node \<Rightarrow> gas_card list list \<Rightarrow>
   (string \<times> string) option" where
  "convertNodeCardsToAnnotations ord tileStatus pod node containerCards = do {
     gpus \<leftarrow> getNodeGPUList (Some node);
     let perGPUCapacity = getPerGPUResourceCapacity node (length gpus);
     let reqs = snd (containerRequests pod []);
     if length reqs \<noteq> length containerCards then Some ([], [])
     else (case createDisabledAndPreferredTileMapping (node_labels node) of (unusableTilesMap, prefTileMap) \<Rightarrow>
       let tilesPerGpu = sint (gm_getd 0 perGPUCapacity gpuTileResource);
           parts = container_annotations ord tileStatus perGPUCapacity node prefTileMap
             (zip reqs containerCards) (sanitizeTiles unusableTilesMap tilesPerGpu)
       in Some (join_with CHR ''|'' (map fst parts), join_with CHR ''|'' (map snd parts)))
   }"

end
