(* ===== verification/Gpu_Alloc.thy ===== *)
theory Gpu_Alloc
  imports Gpu_Scheduler
begin

text \<open>
  What the allocation of \<^verbatim>\<open>Gpu_Scheduler\<close> guarantees for one container: capacity checks without
  overflow, GPUs that are all distinct, allowed and large enough, exact accounting, and an error
  only when there are too few such GPUs.
\<close>

subsection \<open>Capacity\<close>

definition fits :: "resource_map \<Rightarrow> resource_map \<Rightarrow> resource_map \<Rightarrow> bool" where
  "fits request capacity used \<longleftrightarrow>
     (\<forall>(res, need) \<in> set request. 0 \<le> sint need \<and> 0 < amount capacity res \<and>
        0 \<le> amount used res \<and> amount used res + sint need \<le> amount capacity res)"

lemma capacity_one:
  "(if sint need < 0 then False
    else case map_of capacity res of
           None \<Rightarrow> False
         | Some cap \<Rightarrow>
             (let u = gm_getd 0 used res
              in if sint cap \<le> 0 then False
                 else if sint u < 0 then False
                 else if sint (u + need) < 0 then False
                 else if sint cap < sint (u + need) then False
                 else True)) \<longleftrightarrow>
   0 \<le> sint (need :: int64) \<and> 0 < amount capacity res \<and>
   0 \<le> amount used res \<and> amount used res + sint need \<le> amount capacity res"
proof (cases "0 \<le> sint need \<and> 0 \<le> amount used res")
  case False
  then show ?thesis by (auto simp: amount_def Let_def split: option.splits)
next
  case True
  let ?u = "gm_getd 0 used res"
  have nn: "0 \<le> sint ?u" "0 \<le> sint need" using True by (simp_all add: amount_def)
  note add = add_int64_nonneg [OF nn]
  show ?thesis
  proof (cases "map_of capacity res")
    case None
    then show ?thesis by (simp add: amount_def gm_getd_def)
  next
    case (Some cap)
    have "sint ?u + sint need \<le> sint cap \<Longrightarrow> sint ?u + sint need \<le> max_int64"
      using sint_le_max [of cap] by linarith
    with Some nn add show ?thesis
      by (auto simp: amount_def gm_getd_Some Let_def not_less not_le)
  qed
qed

lemma checkResourceCapacity_fits: "checkResourceCapacity request capacity used \<longleftrightarrow> fits request capacity used"
  unfolding checkResourceCapacity_def fits_def list_all_iff
  by (intro ball_cong refl) (auto simp: capacity_one simp del: if_split_asm split: prod.splits)

text \<open>A request passes the capacity check exactly when no needed amount is negative, every
  needed resource has capacity, and the exact sums of what is used and what is needed stay within
  the capacity: no wrapped-around sum ever passes.\<close>

theorem checkResourceCapacity_iff:
  "checkResourceCapacity request capacity used \<longleftrightarrow>
   (\<forall>(res, need) \<in> set request. 0 \<le> sint need \<and> 0 < amount capacity res \<and>
      0 \<le> amount used res \<and> amount used res + sint need \<le> amount capacity res)"
  unfolding checkResourceCapacity_fits fits_def ..

theorem checkResourceCapacity_iff_witness:
  "\<not> checkResourceCapacity [(''m'', 9223372036854775807)] [(''m'', 9223372036854775807)] [(''m'', 1)] \<and>
   checkResourceCapacity [(''m'', 2)] [(''m'', 3)] [(''m'', 1)]"
  unfolding checkResourceCapacity_iff by simp

subsection \<open>The order of the candidates\<close>

lemma enumerate_mem: "g \<in> set names \<longleftrightarrow> (\<exists>i. (i, g) \<in> set (enumerate 0 names))"
  by (simp add: in_set_enumerate_eq) (auto simp: in_set_conv_nth)

lemma movePreferred_Some: "index_of names pref = Some i \<Longrightarrow>
    movePreferredCardToFront names pref = names[0 := pref, i := names ! 0]"
  by (simp add: movePreferredCardToFront_def)

lemma movePreferred_mset [simp]: "mset (movePreferredCardToFront names pref) = mset names"
proof (cases "index_of names pref")
  case None
  show ?thesis unfolding movePreferredCardToFront_def None by simp
next
  case (Some i)
  from index_of_Some [OF Some] have "i < length names" "names ! i = pref" by auto
  then have "mset (names[0 := pref, i := names ! 0]) = mset names"
    using mset_swap [of i names 0] by (cases "names = []") auto
  with movePreferred_Some [OF Some] show ?thesis by simp
qed

lemma candidates_mset: "mset (fst (candidates m node used)) = mset (map fst used)"
  by (simp add: candidates_def Let_def arrangeGPUNamesPerResourceAvailability_def
      getSortedGPUNamesForNode_def)

lemma candidates_set: "set (fst (candidates m node used)) = fst ` set used"
  using candidates_mset [of m node used] by (metis set_map set_mset_mset)

lemma candidates_distinct: "wf_map used \<Longrightarrow> distinct (fst (candidates m node used))"
  using candidates_mset [of m node used] by (metis mset_eq_imp_distinct_iff wf_map_def)

lemma movePreferred_hd:
  assumes "pref \<in> set names"
  shows "hd (movePreferredCardToFront names pref) = pref"
proof (cases "index_of names pref")
  case None
  with assms show ?thesis by simp
next
  case (Some i)
  from index_of_Some [OF Some] have "i < length names" "names ! i = pref" by auto
  then have "hd (names[0 := pref, i := names ! 0]) = pref"
    by (cases names; cases i) auto
  with movePreferred_Some [OF Some] show ?thesis by simp
qed

text \<open>Every GPU of the node is tried once per round. With a balanced resource the GPUs are tried
  from the least to the most used; without one, a GPU that the node prefers is tried first.\<close>

theorem candidates_spec:
  assumes "candidates m node used = (names, preferredCard)"
  shows "mset names = mset (map fst used) \<and>
    (balancedResource m \<noteq> [] \<longrightarrow>
      sorted (map (\<lambda>g. card_amount used g (gpuPrefix @ balancedResource m)) names)) \<and>
    (balancedResource m = [] \<and> findNodesPreferredGPU node \<noteq> [] \<and>
      findNodesPreferredGPU node \<in> fst ` set used \<longrightarrow> hd names = findNodesPreferredGPU node)"
proof (intro conjI impI)
  show "mset names = mset (map fst used)"
    using candidates_mset [of m node used] assms by simp
next
  assume "balancedResource m \<noteq> []"
  with assms show "sorted (map (\<lambda>g. card_amount used g (gpuPrefix @ balancedResource m)) names)"
    by (auto simp: candidates_def arrangeGPUNamesPerResourceAvailability_def card_amount_def)
next
  assume a: "balancedResource m = [] \<and> findNodesPreferredGPU node \<noteq> [] \<and>
      findNodesPreferredGPU node \<in> fst ` set used"
  then have "findNodesPreferredGPU node \<in> set (getSortedGPUNamesForNode used)"
    by (simp add: getSortedGPUNamesForNode_def)
  with a assms movePreferred_hd show "hd names = findNodesPreferredGPU node"
    by (auto simp: candidates_def)
qed

theorem candidates_spec_witness:
  "hd (fst (candidates \<lparr>balancedResource = [], allowlistEnabled = False, denylistEnabled = False\<rparr>
     \<lparr>node_name = ''n'', node_labels = Some [(''telemetry.aware.scheduling.pol/gas-prefer-gpu'', ''card1'')],
      node_capacity = [], node_allocatable = []\<rparr>
     [(''card0'', []), (''card1'', [])])) = ''card1''"
    (is "hd (fst (candidates ?m ?node ?used)) = _")
proof -
  obtain names pref where c: "candidates ?m ?node ?used = (names, pref)" by fastforce
  have "findNodesPreferredGPU ?node = ''card1''" by code_simp
  with candidates_spec [OF c] c show ?thesis by simp
qed

subsection \<open>Charging a GPU\<close>

lemma fits_nonneg: "fits request capacity used \<Longrightarrow> wf_map request \<Longrightarrow> sane request"
  by (auto simp: fits_def sane_def)

lemma fits_amount:
  assumes "fits request capacity used" "wf_map request" "res \<in> fst ` set request"
  shows "amount used res + amount request res \<le> amount capacity res"
  using assms by (auto simp: fits_def amount_def gm_getd_def wf_map_lookup split: option.splits)

lemma charge_gpu_fits:
  assumes ok: "node_ok used" and s: "sane request" and g: "g \<in> fst ` set used"
    and f: "fits request capacity (gm_getd [] used g)"
  shows "\<exists>used'. charge_gpu used g request = Some used' \<and> node_ok used' \<and>
    fst ` set used' = fst ` set used \<and>
    (\<forall>j res. card_amount used' j res = card_amount used j res + (if j = g then amount request res else 0))"
proof -
  have "add_admits (gm_getd [] used g) k v" if "(k, v) \<in> set request" for k v
  proof -
    have "amount (gm_getd [] used g) k + sint v \<le> amount capacity k" "0 \<le> sint v"
      using f that by (auto simp: fits_def)
    moreover have "amount capacity k \<le> max_int64" by (rule amount_le_max)
    ultimately show ?thesis unfolding add_admits_def by linarith
  qed
  then obtain rm where rm: "addRM (gm_getd [] used g) request = Inr rm"
    using addrm.upd_iff [OF node_ok_sane [OF ok] sane_wf [OF s], of g] by blast
  from g obtain old where "map_of used g = Some old" by (auto simp: map_of_Some_keys)
  then have "charge_gpu used g request = Some (AList.update g rm used)"
    by (simp add: charge_gpu_def rm)
  with addrm.upd_result [OF node_ok_sane [OF ok] sane_wf [OF s] rm] ok g show ?thesis
    by (auto simp: card_amount_def)
qed

lemma charge_gpu_fitsD:
  assumes "charge_gpu used g request = Some used'"
    and "node_ok used" "sane request" "g \<in> fst ` set used" "fits request capacity (gm_getd [] used g)"
  shows "node_ok used'" "fst ` set used' = fst ` set used"
    "card_amount used' j res = card_amount used j res + (if j = g then amount request res else 0)"
  using charge_gpu_fits [OF assms(2-5)] assms(1) by simp_all

subsection \<open>The search for one GPU\<close>

definition usable :: "gas_extender \<Rightarrow> node \<Rightarrow> pod \<Rightarrow> string \<Rightarrow> bool" where
  "usable m node pod g \<longleftrightarrow> isGPUUsable m g node pod = Some True"

definition eligible ::
  "gas_extender \<Rightarrow> node \<Rightarrow> pod \<Rightarrow> resource_map \<Rightarrow> resource_map \<Rightarrow> node_resources \<Rightarrow>
   string search_map \<Rightarrow> string \<Rightarrow> bool" where
  "eligible m node pod request capacity used gpuMap g \<longleftrightarrow>
     g \<in> fst ` set used \<and> g \<in> set gpuMap \<and> usable m node pod g \<and>
     fits request capacity (gm_getd [] used g)"

lemma find_fitting_gpu_Some:
  "find_fitting_gpu m node pod request capacity used gpuMap usedMap xs = Some (Some (i, g)) \<Longrightarrow>
     (i, g) \<in> set xs \<and> g \<notin> set usedMap \<and> g \<in> set gpuMap \<and> usable m node pod g \<and>
     fits request capacity (gm_getd [] used g)"
  by (induction xs rule: find_fitting_gpu.induct [of _ m node pod request capacity used gpuMap usedMap])
    (auto simp: checkGpuAvailability_def checkResourceCapacity_fits usable_def
      split: bind_splits if_splits)

lemma find_fitting_gpu_None:
  "find_fitting_gpu m node pod request capacity used gpuMap usedMap xs = Some None \<Longrightarrow>
     (i, g) \<in> set xs \<Longrightarrow> g \<notin> set usedMap \<Longrightarrow> g \<in> set gpuMap \<Longrightarrow> usable m node pod g \<Longrightarrow>
     \<not> fits request capacity (gm_getd [] used g)"
  by (induction m node pod request capacity used gpuMap usedMap xs rule: find_fitting_gpu.induct)
    (auto simp: checkGpuAvailability_def checkResourceCapacity_fits usable_def
      split: bind_splits if_splits)

lemma find_fitting_gpu_returns:
  "(\<And>g. g \<in> snd ` set xs \<Longrightarrow> g \<in> set gpuMap \<Longrightarrow> isGPUUsable m g node pod \<noteq> None) \<Longrightarrow>
     \<exists>hit. find_fitting_gpu m node pod request capacity used gpuMap usedMap xs = Some hit"
proof (induction xs)
  case Nil
  then show ?case by simp
next
  case (Cons x xs)
  obtain i g where x: "x = (i, g)" by (cases x)
  have "\<exists>b. checkGpuAvailability m g node pod usedMap gpuMap = Some b"
    using Cons.prems [of g] x by (auto simp: checkGpuAvailability_def)
  moreover have "\<exists>hit. find_fitting_gpu m node pod request capacity used gpuMap usedMap xs = Some hit"
    using Cons.prems by (intro Cons.IH) auto
  ultimately show ?case by (auto simp: x)
qed

subsection \<open>All GPUs of a container\<close>

definition plain_cards :: "string list \<Rightarrow> gas_card list" where
  "plain_cards names = map (\<lambda>g. \<lparr>card_gpuName = g, card_xeLinkedTileIds = []\<rparr>) names"

lemma plain_cards_simps [simp]:
  "plain_cards [] = []" "map card_gpuName (plain_cards names) = names"
  "length (plain_cards names) = length names"
  by (simp_all add: plain_cards_def comp_def)

lemma eligible_charged:
  "(\<And>j res. card_amount used' j res = card_amount used j res + (if j = g then amount request res else 0)) \<Longrightarrow>
     fst ` set used' = fst ` set used \<Longrightarrow> j \<noteq> g \<Longrightarrow>
     eligible m node pod request capacity used' gpuMap j \<longleftrightarrow> eligible m node pod request capacity used gpuMap j"
  by (simp add: eligible_def fits_def card_amount_def)

lemma cards_loop_success:
  assumes "cards_loop n m node pod request capacity gpuMap usedMap cards pref used =
      Some (Inr (cards', pref'), used')"
    and "node_ok used" "sane request"
  shows "\<exists>new. cards' = cards @ plain_cards new \<and> length new = n \<and> distinct new \<and>
    set new \<inter> set usedMap = {} \<and>
    (\<forall>g \<in> set new. eligible m node pod request capacity used gpuMap g) \<and>
    node_ok used' \<and> fst ` set used' = fst ` set used \<and>
    (\<forall>g res. card_amount used' g res = card_amount used g res + (if g \<in> set new then amount request res else 0))"
  using assms(1,2)
proof (induction n arbitrary: usedMap cards pref used)
  case 0
  then show ?case by (intro exI [of _ "[]"]) auto
next
  case (Suc n)
  obtain names prefCard where c: "candidates m node used = (names, prefCard)" by fastforce
  from Suc.prems(1) c obtain i g used1 where
    hit: "find_fitting_gpu m node pod request capacity used gpuMap usedMap (enumerate 0 names) = Some (Some (i, g))"
    and ch: "charge_gpu used g request = Some used1"
    and rest: "cards_loop n m node pod request capacity gpuMap (List.insert g usedMap)
        (cards @ [\<lparr>card_gpuName = g, card_xeLinkedTileIds = []\<rparr>]) (pref \<or> (i = 0 \<and> prefCard \<noteq> [])) used1 =
      Some (Inr (cards', pref'), used')"
    by (auto split: bind_splits option.splits)
  note h = find_fitting_gpu_Some [OF hit]
  then have gk: "g \<in> fst ` set used"
    using candidates_set [of m node used] c enumerate_mem [of g names] by auto
  with h have el: "eligible m node pod request capacity used gpuMap g" by (simp add: eligible_def)
  have f: "fits request capacity (gm_getd [] used g)" using h by blast
  note u1 = charge_gpu_fitsD [OF ch Suc.prems(2) assms(3) gk f]
  from Suc.IH [OF rest u1(1)] obtain new where new:
    "cards' = (cards @ [\<lparr>card_gpuName = g, card_xeLinkedTileIds = []\<rparr>]) @ plain_cards new"
    "length new = n" "distinct new" "set new \<inter> set (List.insert g usedMap) = {}"
    "\<forall>j \<in> set new. eligible m node pod request capacity used1 gpuMap j" "node_ok used'"
    "fst ` set used' = fst ` set used1"
    "\<forall>j res. card_amount used' j res = card_amount used1 j res + (if j \<in> set new then amount request res else 0)"
    by blast
  from new(4) have fresh: "g \<notin> set new" "set new \<inter> set usedMap = {}" by auto
  have "eligible m node pod request capacity used gpuMap j" if "j \<in> set new" for j
    using that new(5) fresh(1) eligible_charged [OF u1(3,2), of j] by blast
  with new fresh el h u1 show ?case
    by (intro exI [of _ "g # new"]) (auto simp: plain_cards_def)
qed

lemma cards_loop_failure:
  assumes "cards_loop n m node pod request capacity gpuMap usedMap cards pref used = Some (Inl err, used')"
    and "node_ok used" "sane request"
  shows "err = ErrWontFit \<and>
    card {g. eligible m node pod request capacity used gpuMap g \<and> g \<notin> set usedMap} < n"
  using assms(1,2)
proof (induction n arbitrary: usedMap cards pref used)
  case 0
  then show ?case by simp
next
  case (Suc n)
  have fin: "finite {g. eligible m node pod request capacity u gpuMap g \<and> g \<notin> set um}" for u um
    by (rule finite_subset [of _ "fst ` set u"]) (auto simp: eligible_def)
  obtain names prefCard where c: "candidates m node used = (names, prefCard)" by fastforce
  from Suc.prems(1) c obtain hit where
    hit: "find_fitting_gpu m node pod request capacity used gpuMap usedMap (enumerate 0 names) = Some hit"
    by (auto split: bind_splits)
  show ?case
  proof (cases hit)
    case None
    have "\<not> (eligible m node pod request capacity used gpuMap g \<and> g \<notin> set usedMap)" for g
    proof
      assume g: "eligible m node pod request capacity used gpuMap g \<and> g \<notin> set usedMap"
      then have "g \<in> set names" using candidates_set [of m node used] c by (simp add: eligible_def)
      then obtain i where "(i, g) \<in> set (enumerate 0 names)" using enumerate_mem [of g names] by blast
      from find_fitting_gpu_None [OF hit [unfolded None] this] g show False by (auto simp: eligible_def)
    qed
    then have e: "{g. eligible m node pod request capacity used gpuMap g \<and> g \<notin> set usedMap} = {}" by blast
    have "err = ErrWontFit"
      using Suc.prems(1) by (simp add: c hit None)
    then show ?thesis unfolding e by simp
  next
    case (Some ig)
    obtain i g where ig: "ig = (i, g)" by (cases ig)
    note h = find_fitting_gpu_Some [OF hit [unfolded Some ig]]
    from Suc.prems(1) c hit Some ig obtain used1 where ch: "charge_gpu used g request = Some used1"
      and rest: "cards_loop n m node pod request capacity gpuMap (List.insert g usedMap)
        (cards @ [\<lparr>card_gpuName = g, card_xeLinkedTileIds = []\<rparr>]) (pref \<or> (i = 0 \<and> prefCard \<noteq> [])) used1 =
      Some (Inl err, used')"
      by (auto split: bind_splits)
    have gk: "g \<in> fst ` set used"
      using h candidates_set [of m node used] c enumerate_mem [of g names] by auto
    have f: "fits request capacity (gm_getd [] used g)" using h by blast
    note u1 = charge_gpu_fitsD [OF ch Suc.prems(2) assms(3) gk f]
    have own: "eligible m node pod request capacity used gpuMap g"
      using h gk by (simp add: eligible_def)
    have others: "j \<noteq> g \<Longrightarrow> eligible m node pod request capacity used1 gpuMap j \<longleftrightarrow>
        eligible m node pod request capacity used gpuMap j" for j
      by (rule eligible_charged [OF u1(3,2)])
    have "{j. eligible m node pod request capacity used gpuMap j \<and> j \<notin> set usedMap} =
        insert g {j. eligible m node pod request capacity used1 gpuMap j \<and> j \<notin> set (List.insert g usedMap)}"
      using own others h by auto
    then have "card {j. eligible m node pod request capacity used gpuMap j \<and> j \<notin> set usedMap} =
        Suc (card {j. eligible m node pod request capacity used1 gpuMap j \<and> j \<notin> set (List.insert g usedMap)})"
      using card_insert_disjoint [OF fin [of used1 "List.insert g usedMap"], of g] by simp
    with Suc.IH [OF rest u1(1)] show ?thesis by simp
  qed
qed

lemma cards_loop_returns:
  assumes "node_ok used" "sane request"
    "\<And>g. g \<in> set gpuMap \<Longrightarrow> isGPUUsable m g node pod \<noteq> None"
  shows "\<exists>r. cards_loop n m node pod request capacity gpuMap usedMap cards pref used = Some r"
  using assms(1)
proof (induction n arbitrary: usedMap cards pref used)
  case 0
  then show ?case by simp
next
  case (Suc n)
  obtain names prefCard where c: "candidates m node used = (names, prefCard)" by fastforce
  obtain hit where
    hit: "find_fitting_gpu m node pod request capacity used gpuMap usedMap (enumerate 0 names) = Some hit"
    using find_fitting_gpu_returns [of "enumerate 0 names" gpuMap m node pod request capacity used usedMap]
      assms(3) by blast
  show ?case
  proof (cases hit)
    case None
    with c hit show ?thesis by simp
  next
    case (Some ig)
    obtain i g where ig: "ig = (i, g)" by (cases ig)
    note h = find_fitting_gpu_Some [OF hit [unfolded Some ig]]
    have gk: "g \<in> fst ` set used"
      using h candidates_set [of m node used] c enumerate_mem [of g names] by auto
    from charge_gpu_fits [OF Suc.prems assms(2) gk] h obtain used1
      where "charge_gpu used g request = Some used1" "node_ok used1" by blast
    with Suc.IH [of used1] c hit Some ig show ?thesis by simp
  qed
qed

subsection \<open>One container\<close>

text \<open>How many GPUs a container gets, and what it takes from each of them.\<close>

definition gpus_wanted :: "resource_map \<Rightarrow> nat" where
  "gpus_wanted request = nat (getNumGPUReq request)"

definition share :: "resource_map \<Rightarrow> resource_map" where
  "share request = fst (getPerGPUResourceRequest request)"

lemma getNumGPUReq_nonneg [simp]: "0 \<le> getNumGPUReq request"
  by (auto simp: getNumGPUReq_def split: option.splits)

lemma getPerGPUResourceRequest_eq:
  "getPerGPUResourceRequest request = (share request, getNumGPUReq request)"
  by (auto simp: getPerGPUResourceRequest_def share_def rm_divide_def Let_def)

lemma share_amount:
  assumes "sane request"
  shows "sane (share request)" "fst ` set (share request) = fst ` set request"
    "amount (share request) res =
      (if 1 < getNumGPUReq request then amount request res div getNumGPUReq request else amount request res)"
proof -
  have nc: "newCopy request = request" using assms by auto
  obtain d where d: "1 < getNumGPUReq request \<Longrightarrow> rm_divide request (getNumGPUReq request) = Inr d"
    using rm_divide_Inr_iff [of request "getNumGPUReq request"] by (cases "rm_divide request (getNumGPUReq request)") auto
  have sh: "share request = (if 1 < getNumGPUReq request then d else request)"
    using d by (simp add: share_def getPerGPUResourceRequest_def Let_def nc)
  have keys: "1 < getNumGPUReq request \<Longrightarrow> fst ` set d = fst ` set request"
    using rm_divide_keys [OF d] by (metis set_map)
  show "sane (share request)" "fst ` set (share request) = fst ` set request"
    "amount (share request) res =
      (if 1 < getNumGPUReq request then amount request res div getNumGPUReq request else amount request res)"
    using sh assms rm_divide_amount [OF assms d] keys by auto
qed

lemma getCards_success:
  assumes "getCardsForContainerGPURequest m request capacity node pod gpuMap used = Some (Inr (cards, pref), used')"
    and "node_ok used" "sane request"
  shows "\<exists>new. cards = plain_cards new \<and> length new = gpus_wanted request \<and> distinct new \<and>
    (\<forall>g \<in> set new. eligible m node pod (share request) capacity used gpuMap g) \<and>
    node_ok used' \<and> fst ` set used' = fst ` set used \<and>
    (\<forall>g res. card_amount used' g res =
       card_amount used g res + (if g \<in> set new then amount (share request) res else 0))"
proof (cases "request = []")
  case True
  with assms show ?thesis
    by (intro exI [of _ "[]"])
      (auto simp: getCardsForContainerGPURequest_def gpus_wanted_def getNumGPUReq_def getPluginResourceName_def)
next
  case False
  with assms(1) have "cards_loop (gpus_wanted request) m node pod (share request) capacity gpuMap [] [] False used =
      Some (Inr (cards, pref), used')"
    by (simp add: getCardsForContainerGPURequest_def getCardsForContainerGPURequestImpl_def
        getPerGPUResourceRequest_eq gpus_wanted_def)
  from cards_loop_success [OF this assms(2) share_amount(1) [OF assms(3)]] show ?thesis by auto
qed

lemma getCards_failure:
  assumes "getCardsForContainerGPURequest m request capacity node pod gpuMap used = Some (Inl err, used')"
    and "node_ok used" "sane request"
  shows "err = ErrWontFit \<and>
    card {g. eligible m node pod (share request) capacity used gpuMap g} < gpus_wanted request"
proof -
  have "request \<noteq> []"
    using assms(1) by (auto simp: getCardsForContainerGPURequest_def)
  with assms(1) have "cards_loop (gpus_wanted request) m node pod (share request) capacity gpuMap [] [] False used =
      Some (Inl err, used')"
    by (simp add: getCardsForContainerGPURequest_def getCardsForContainerGPURequestImpl_def
        getPerGPUResourceRequest_eq gpus_wanted_def)
  from cards_loop_failure [OF this assms(2) share_amount(1) [OF assms(3)]] show ?thesis by simp
qed

lemma getCards_returns:
  assumes "node_ok used" "sane request" "\<And>g. g \<in> set gpuMap \<Longrightarrow> isGPUUsable m g node pod \<noteq> None"
  shows "\<exists>r. getCardsForContainerGPURequest m request capacity node pod gpuMap used = Some r"
  using cards_loop_returns [OF assms(1) share_amount(1) [OF assms(2)] assms(3)]
  by (simp add: getCardsForContainerGPURequest_def getCardsForContainerGPURequestImpl_def
      getPerGPUResourceRequest_eq)

text \<open>C5: the GPUs that a container gets are as many as it asks for, all different, each of them in the
  search map, usable (not disabled, allowed, not denied) and with room for the container's share;
  the share is added to exactly those GPUs, exactly.\<close>

theorem getCardsForContainerGPURequest_sound:
  assumes "getCardsForContainerGPURequest m request capacity node pod gpuMap used = Some (Inr (cards, pref), used')"
    and "node_ok used" "sane request"
  shows "distinct (map card_gpuName cards) \<and> length cards = nat (getNumGPUReq request) \<and>
    (\<forall>c \<in> set cards. card_gpuName c \<in> set gpuMap \<and> isGPUUsable m (card_gpuName c) node pod = Some True \<and>
       (\<forall>(res, need) \<in> set (share request).
          card_amount used (card_gpuName c) res + sint need \<le> amount capacity res)) \<and>
    node_ok used' \<and>
    (\<forall>g res. card_amount used' g res = card_amount used g res +
       (if g \<in> card_gpuName ` set cards then amount (share request) res else 0))"
proof -
  from getCards_success [OF assms] obtain new where new: "cards = plain_cards new"
    "length new = gpus_wanted request" "distinct new"
    "\<forall>g \<in> set new. eligible m node pod (share request) capacity used gpuMap g" "node_ok used'"
    "\<forall>g res. card_amount used' g res =
       card_amount used g res + (if g \<in> set new then amount (share request) res else 0)"
    by blast
  have "card_gpuName ` set cards = set new"
    by (simp add: new(1) plain_cards_def image_image)
  moreover have "card_gpuName c \<in> set new" if "c \<in> set cards" for c
    using that by (auto simp: new(1) plain_cards_def)
  ultimately show ?thesis
    using new by (fastforce simp: gpus_wanted_def eligible_def usable_def fits_def card_amount_def)
qed

text \<open>C6: a container is turned away only when it has to be. The allocation succeeds exactly when the
  node has at least as many suitable GPUs as the container asks for, and the only error is that it
  will not fit; trying the GPUs greedily loses nothing.\<close>

theorem getCardsForContainerGPURequest_complete:
  assumes "node_ok used" "sane request" "\<forall>g \<in> set gpuMap. isGPUUsable m g node pod \<noteq> None"
  shows "\<exists>result used'. getCardsForContainerGPURequest m request capacity node pod gpuMap used = Some (result, used') \<and>
    ((\<exists>cards pref. result = Inr (cards, pref)) \<longleftrightarrow>
       nat (getNumGPUReq request) \<le> card {g. eligible m node pod (share request) capacity used gpuMap g}) \<and>
    (isl result \<longrightarrow> result = Inl ErrWontFit)"
proof -
  have fin: "finite {g. eligible m node pod (share request) capacity used gpuMap g}"
    by (rule finite_subset [of _ "fst ` set used"]) (auto simp: eligible_def)
  obtain result used' where
    r: "getCardsForContainerGPURequest m request capacity node pod gpuMap used = Some (result, used')"
    using getCards_returns [of used request gpuMap m node pod capacity] assms by auto
  show ?thesis
  proof (cases result)
    case (Inl err)
    with getCards_failure [OF r [unfolded Inl] assms(1,2)] r show ?thesis
      by (auto simp: gpus_wanted_def)
  next
    case (Inr cp)
    obtain cards pref where cp: "cp = (cards, pref)" by (cases cp)
    from getCards_success [OF r [unfolded Inr cp] assms(1,2)] obtain new where
      new: "length new = gpus_wanted request" "distinct new"
      "\<forall>g \<in> set new. eligible m node pod (share request) capacity used gpuMap g" by blast
    then have "gpus_wanted request = card (set new)"
      by (simp add: distinct_card)
    also have "\<dots> \<le> card {g. eligible m node pod (share request) capacity used gpuMap g}"
      using new(3) fin by (intro card_mono) auto
    finally show ?thesis using r Inr cp by (auto simp: gpus_wanted_def)
  qed
qed

definition plain_extender :: gas_extender where
  "plain_extender = \<lparr>balancedResource = [], allowlistEnabled = True, denylistEnabled = True\<rparr>"

definition two_gpu_node :: node where
  "two_gpu_node = \<lparr>node_name = ''n1'', node_labels = Some [(''gpu.intel.com/gpu-numbers'', ''0.1'')],
     node_capacity = [(''gpu.intel.com/i915'', 4)],
     node_allocatable = [(''gpu.intel.com/i915'', 4), (''gpu.intel.com/tiles'', 4)]\<rparr>"

theorem getCardsForContainerGPURequest_sound_witness:
  "\<exists>used'. getCardsForContainerGPURequest plain_extender [(''gpu.intel.com/i915'', 2)]
      [(''gpu.intel.com/i915'', 2)] two_gpu_node sample_pod [''card0'', ''card1'']
      [(''card0'', []), (''card1'', [])] =
    Some (Inr (plain_cards [''card0'', ''card1''], False), used') \<and>
    card_amount used' ''card1'' ''gpu.intel.com/i915'' = 1"
proof -
  have e: "getCardsForContainerGPURequest plain_extender [(''gpu.intel.com/i915'', 2)]
      [(''gpu.intel.com/i915'', 2)] two_gpu_node sample_pod [''card0'', ''card1'']
      [(''card0'', []), (''card1'', [])] = Some (Inr (plain_cards [''card0'', ''card1''], False),
      [(''card0'', [(''gpu.intel.com/i915'', 1)]), (''card1'', [(''gpu.intel.com/i915'', 1)])])"
    (is "_ = Some (_, ?used')")
    by code_simp
  have ok: "node_ok [(''card0'', []), (''card1'', [])]" by (auto simp: node_ok_def wf_map_def)
  have s: "sane [(''gpu.intel.com/i915'', 2)]" by (simp add: sane_def wf_map_def)
  have "card_amount ?used' ''card1'' ''gpu.intel.com/i915'' =
      card_amount [(''card0'', []), (''card1'', [])] ''card1'' ''gpu.intel.com/i915'' +
      (if ''card1'' \<in> card_gpuName ` set (plain_cards [''card0'', ''card1''])
       then amount (share [(''gpu.intel.com/i915'', 2)]) ''gpu.intel.com/i915'' else 0)"
    using getCardsForContainerGPURequest_sound [OF e ok s] by blast
  also have "\<dots> = 1" by code_simp
  finally show ?thesis using e by blast
qed

theorem getCardsForContainerGPURequest_complete_witness:
  "\<exists>used'. getCardsForContainerGPURequest plain_extender [(''gpu.intel.com/i915'', 3)]
      [(''gpu.intel.com/i915'', 2)] two_gpu_node sample_pod [''card0'', ''card1'']
      [(''card0'', []), (''card1'', [])] = Some (Inl ErrWontFit, used')"
proof -
  have s: "node_ok [(''card0'', []), (''card1'', [])]" "sane [(''gpu.intel.com/i915'', 3)]"
    by (auto simp: node_ok_def wf_map_def sane_def)
  have u: "\<forall>g \<in> set [''card0'', ''card1'']. isGPUUsable plain_extender g two_gpu_node sample_pod \<noteq> None"
    by code_simp
  have n: "nat (getNumGPUReq [(''gpu.intel.com/i915'', 3)]) = 3" by code_simp
  have "card {g. eligible plain_extender two_gpu_node sample_pod (share [(''gpu.intel.com/i915'', 3)])
      [(''gpu.intel.com/i915'', 2)] [(''card0'', []), (''card1'', [])] [''card0'', ''card1''] g} \<le>
    card {''card0'', ''card1''}"
    by (rule card_mono) (auto simp: eligible_def)
  also have "\<dots> < 3" by simp
  finally show ?thesis
    using getCardsForContainerGPURequest_complete [OF s u, of "[(''gpu.intel.com/i915'', 2)]"]
    unfolding n by (metis not_le old.prod.exhaust sum.collapse(2))
qed

end
