(* ===== verification/Gpu_Tiles.thy ===== *)
theory Gpu_Tiles
  imports Gpu_Scheduler
begin

text \<open>
  What the annotations of \<^verbatim>\<open>scheduler.go\<close> guarantee: the tiles that a pod is given are free ones, and
  the cache, which later parses the annotation, reads back exactly the GPUs and tiles that were
  chosen.
\<close>

subsection \<open>Free tiles\<close>

lemma getFreeTiles_set:
  assumes "range_order ord"
  shows "set (getFreeTiles ord tileStatus cap node g alloc) =
    {0..cap - 1} - set (gm_getd [] (tileStatus (node_name node)) g) - set (gm_getd [] alloc g)"
  by (auto simp: getFreeTiles_def range_order_set [OF assms])

lemma getFreeTiles_distinct:
  assumes "range_order ord"
  shows "distinct (getFreeTiles ord tileStatus cap node g alloc)"
proof -
  have "mset (ord xs) = mset xs" for xs using assms by (simp add: range_order_def)
  then have "distinct (ord xs) \<longleftrightarrow> distinct xs" for xs by (metis mset_eq_imp_distinct_iff)
  then show ?thesis by (simp add: getFreeTiles_def)
qed

lemma getFreeTiles_reordered:
  assumes "range_order ord" "free = getFreeTiles ord tileStatus cap node g alloc"
  shows "set (if 0 < length pref then reorderPreferredTilesFirst free pref else free) = set free"
    "distinct (if 0 < length pref then reorderPreferredTilesFirst free pref else free)"
    "length (if 0 < length pref then reorderPreferredTilesFirst free pref else free) = length free"
proof -
  have "mset (reorderPreferredTilesFirst free pref) = mset free"
    by (simp add: reorderPreferredTilesFirst_def reorder_fold_mset)
  then show "set (if 0 < length pref then reorderPreferredTilesFirst free pref else free) = set free"
    "distinct (if 0 < length pref then reorderPreferredTilesFirst free pref else free)"
    "length (if 0 < length pref then reorderPreferredTilesFirst free pref else free) = length free"
    using getFreeTiles_distinct [OF assms(1)] unfolding assms(2)
    by (auto dest: mset_eq_setD mset_eq_imp_distinct_iff mset_eq_length)
qed

subsection \<open>Writing and reading a tile list\<close>

definition tile_list :: "int list \<Rightarrow> string" where
  "tile_list tiles = join_with CHR ''+'' (map (\<lambda>tile. tileString @ itoa tile) tiles)"

definition plain_name :: "string \<Rightarrow> bool" where
  "plain_name s \<longleftrightarrow> CHR '','' \<notin> set s \<and> CHR '':'' \<notin> set s \<and> CHR ''|'' \<notin> set s \<and> CHR ''+'' \<notin> set s"

lemma tile_name_plain:
  assumes "0 \<le> tile"
  shows "plain_name (tileString @ itoa tile)"
proof -
  have "\<not> is_digit CHR '',''" "\<not> is_digit CHR '':''" "\<not> is_digit CHR ''|''" "\<not> is_digit CHR ''+''"
    by (simp_all add: is_digit_def)
  with itoa_nonneg_chars [OF assms] show ?thesis
    by (auto simp: plain_name_def tileString_def)
qed

lemma tile_list_chars:
  assumes "\<forall>tile \<in> set tiles. 0 \<le> tile"
  shows "CHR '','' \<notin> set (tile_list tiles) \<and> CHR '':'' \<notin> set (tile_list tiles) \<and> CHR ''|'' \<notin> set (tile_list tiles)"
proof -
  have "set (tile_list tiles) \<subseteq> insert CHR ''+'' (\<Union>tile \<in> set tiles. set (tileString @ itoa tile))"
    unfolding tile_list_def
    using set_join_with [of "CHR ''+''" "map (\<lambda>tile. tileString @ itoa tile) tiles"] by auto
  moreover have "\<forall>tile \<in> set tiles. plain_name (tileString @ itoa tile)"
    using assms tile_name_plain by blast
  ultimately show ?thesis by (auto simp: plain_name_def subset_iff split: if_splits)
qed

lemma getTileIndices_names:
  "\<forall>tile \<in> set tiles. 0 \<le> tile \<and> tile < 2 ^ 63 \<Longrightarrow>
     getTileIndices (map (\<lambda>tile. tileString @ itoa tile) tiles) = tiles"
  by (induction tiles) (auto simp: getTileIndices_def atoi_itoa)

lemma getTileIndices_list:
  assumes "tiles \<noteq> []" "\<forall>tile \<in> set tiles. 0 \<le> tile \<and> tile < 2 ^ 63"
  shows "getTileIndices (split_on CHR ''+'' (tile_list tiles)) = tiles"
proof -
  have "split_on CHR ''+'' (tile_list tiles) = map (\<lambda>tile. tileString @ itoa tile) tiles"
    unfolding tile_list_def
    by (rule split_on_join) (use assms tile_name_plain in \<open>auto simp: plain_name_def\<close>)
  then show ?thesis using getTileIndices_names [OF assms(2)] by simp
qed

lemma entry_tiles_list:
  assumes "plain_name g" "tiles \<noteq> []" "\<forall>tile \<in> set tiles. 0 \<le> tile \<and> tile < 2 ^ 63"
  shows "entry_tiles j (g @ '':'' @ tile_list tiles) = (if j = g then set tiles else {})"
proof -
  have "CHR '':'' \<notin> set (tile_list tiles)" using tile_list_chars assms(3) by blast
  then have "split_on CHR '':'' (g @ CHR '':'' # tile_list tiles) = [g, tile_list tiles]"
    using assms(1) by (simp add: split_on_append split_on_no_sep plain_name_def)
  with getTileIndices_list [OF assms(2,3)] show ?thesis by (simp add: entry_tiles_def)
qed

lemma entry_tiles_Nil [simp]: "entry_tiles j [] = {}"
  by (simp add: entry_tiles_def)

subsection \<open>The annotation of one GPU\<close>

lemma gm_getd_append_tiles:
  "set (gm_getd [] (fold (\<lambda>tile tilesMap. gm_append g [tile] tilesMap) tiles m) j) =
     set (gm_getd [] m j) \<union> (if j = g then set tiles else {})"
  by (induction tiles arbitrary: m) auto

lemma createTileAnnotation_cases:
  assumes ord: "range_order ord" and name: "plain_name (card_gpuName c)"
    and plain: "length (card_xeLinkedTileIds c) \<noteq> 1"
    and eq: "createTileAnnotation ord tileStatus c numCards request capacity node alloc pref = (annotation, alloc')"
  shows "annotation = [] \<and> alloc' = alloc \<or>
    (\<exists>tiles. annotation = card_gpuName c @ '':'' @ tile_list tiles \<and> distinct tiles \<and>
       int (length tiles) = amount request gpuTileResource sdiv numCards \<and>
       set tiles \<subseteq> {0..amount capacity gpuTileResource - 1} -
         set (gm_getd [] (tileStatus (node_name node)) (card_gpuName c)) -
         set (gm_getd [] alloc (card_gpuName c)) \<and>
       (\<forall>g. entry_tiles g annotation = (if g = card_gpuName c then set tiles else {})) \<and>
       (\<forall>g. set (gm_getd [] alloc' g) = set (gm_getd [] alloc g) \<union> entry_tiles g annotation))"
proof (cases "annotation = []")
  case True
  with eq show ?thesis by (auto simp: createTileAnnotation_def Let_def split: if_splits)
next
  case False
  let ?n = "amount request gpuTileResource sdiv numCards" and ?cap = "amount capacity gpuTileResource"
  let ?g = "card_gpuName c"
  let ?free = "getFreeTiles ord tileStatus ?cap node ?g alloc"
  let ?order = "if 0 < length pref then reorderPreferredTilesFirst ?free pref else ?free"
  let ?tiles = "take (nat ?n) ?order"
  from False eq plain have n: "0 < ?n" "?n \<le> int (length ?free)"
    and ann: "annotation = ?g @ '':'' @ tile_list ?tiles"
    and alloc': "alloc' = fold (\<lambda>tile tilesMap. gm_append ?g [tile] tilesMap) ?tiles alloc"
    by (auto simp: createTileAnnotation_def amount_def tile_list_def Let_def split: if_splits)
  note ro = getFreeTiles_reordered [OF ord refl, where pref = pref]
  have sub: "set ?tiles \<subseteq> set ?free" using ro(1) set_take_subset by metis
  then have free: "set ?tiles \<subseteq> {0..?cap - 1} -
      set (gm_getd [] (tileStatus (node_name node)) ?g) - set (gm_getd [] alloc ?g)"
    by (simp add: getFreeTiles_set [OF ord])
  have len: "int (length ?tiles) = ?n" using n ro(3) by simp
  then have ne: "?tiles \<noteq> []" using n(1) by auto
  have "?cap < 2 ^ 63" using amount_le_max [of capacity gpuTileResource] by (simp add: max_int64_def)
  with free have bounds: "\<forall>tile \<in> set ?tiles. 0 \<le> tile \<and> tile < 2 ^ 63" by fastforce
  have entry: "entry_tiles j annotation = (if j = ?g then set ?tiles else {})" for j
    unfolding ann by (rule entry_tiles_list [OF name ne bounds])
  have "distinct ?tiles" using ro(2) by (rule distinct_take)
  then show ?thesis
    using ann len free entry gm_getd_append_tiles [of ?g ?tiles alloc] unfolding alloc'
    by (intro disjI2 exI [of _ ?tiles]) simp
qed

lemma createTileAnnotation_empty_iff:
  assumes ord: "range_order ord" and plain: "length (card_xeLinkedTileIds c) \<noteq> 1"
    and eq: "createTileAnnotation ord tileStatus c numCards request capacity node alloc pref = (annotation, alloc')"
  shows "annotation = [] \<longleftrightarrow> amount request gpuTileResource sdiv numCards \<le> 0 \<or>
    int (card ({0..amount capacity gpuTileResource - 1} -
      set (gm_getd [] (tileStatus (node_name node)) (card_gpuName c)) - set (gm_getd [] alloc (card_gpuName c))))
      < amount request gpuTileResource sdiv numCards"
proof -
  let ?n = "amount request gpuTileResource sdiv numCards" and ?cap = "amount capacity gpuTileResource"
  let ?g = "card_gpuName c"
  let ?free = "getFreeTiles ord tileStatus ?cap node ?g alloc"
  have len: "card ({0..?cap - 1} - set (gm_getd [] (tileStatus (node_name node)) ?g) - set (gm_getd [] alloc ?g)) =
      length ?free"
    using distinct_card [OF getFreeTiles_distinct [OF ord, of tileStatus ?cap node ?g alloc]]
    by (simp add: getFreeTiles_set [OF ord])
  have "length ?free \<le> card {0..?cap - 1}" unfolding len [symmetric] by (intro card_mono) auto
  then have cap: "?cap < ?n \<Longrightarrow> ?n \<le> 0 \<or> int (length ?free) < ?n" by (simp add: nat_less_iff) linarith
  show ?thesis
    using eq plain cap unfolding len
    by (auto simp: createTileAnnotation_def amount_def Let_def split: if_splits)
qed

text \<open>A GPU's part of the tile annotation. When its share of the container's tiles is positive and at
  least as many of its tiles are neither in use on the node nor given out already, the part names
  exactly that many of those tiles, all different, and they are marked as given out; whoever parses
  the annotation reads back exactly these tiles. Otherwise the part is left out.\<close>

theorem createTileAnnotation_spec:
  assumes ord: "range_order ord" and name: "plain_name (card_gpuName c)"
    and plain: "length (card_xeLinkedTileIds c) \<noteq> 1"
    and eq: "createTileAnnotation ord tileStatus c numCards request capacity node alloc pref = (annotation, alloc')"
    and free: "free = {0..amount capacity gpuTileResource - 1} -
      set (gm_getd [] (tileStatus (node_name node)) (card_gpuName c)) - set (gm_getd [] alloc (card_gpuName c))"
    and n: "n = amount request gpuTileResource sdiv numCards"
  shows "if n \<le> 0 \<or> int (card free) < n then annotation = [] \<and> alloc' = alloc
    else \<exists>tiles. annotation = card_gpuName c @ '':'' @ tile_list tiles \<and> distinct tiles \<and>
       int (length tiles) = n \<and> set tiles \<subseteq> free \<and>
       (\<forall>g. entry_tiles g annotation = (if g = card_gpuName c then set tiles else {})) \<and>
       (\<forall>g. set (gm_getd [] alloc' g) = set (gm_getd [] alloc g) \<union> entry_tiles g annotation)"
proof -
  note e = createTileAnnotation_empty_iff [OF ord plain eq]
  note c = createTileAnnotation_cases [OF ord name plain eq]
  show ?thesis
  proof (cases "annotation = []")
    case True
    then show ?thesis using e c unfolding free n by auto
  next
    case False
    then have "\<not> (n \<le> 0 \<or> int (card free) < n)" using e unfolding free n by simp
    then show ?thesis using c False unfolding free n by simp
  qed
qed

definition sample_card :: gas_card where
  "sample_card = \<lparr>card_gpuName = ''card0'', card_xeLinkedTileIds = []\<rparr>"

theorem createTileAnnotation_spec_witness:
  "entry_tiles ''card0'' (fst (createTileAnnotation rev
     (\<lambda>nodeName. [(''card0'', [2])]) sample_card 1 [(''gpu.intel.com/tiles'', 2)] [(''gpu.intel.com/tiles'', 4)]
     \<lparr>node_name = ''n'', node_labels = None, node_capacity = [], node_allocatable = []\<rparr> [(''card0'', [0])] [])) = {1, 3}"
    (is "entry_tiles _ (fst ?call) = _")
proof -
  obtain annotation alloc' where e: "?call = (annotation, alloc')" by fastforce
  have "range_order (rev :: int list \<Rightarrow> int list)" by (simp add: range_order_def)
  moreover have "plain_name (card_gpuName sample_card)" "length (card_xeLinkedTileIds sample_card) \<noteq> 1"
    by code_simp+
  moreover have "amount [(''gpu.intel.com/tiles'', 2)] gpuTileResource sdiv 1 = 2"
    "amount [(''gpu.intel.com/tiles'', 4)] gpuTileResource = 4" by code_simp+
  moreover have free: "{0..3} - {2} - {0} = {1, 3 :: int}" by auto
  ultimately obtain tiles where t: "distinct tiles" "int (length tiles) = 2" "set tiles \<subseteq> {1, 3}"
    "entry_tiles ''card0'' annotation = set tiles"
    using createTileAnnotation_spec [of rev sample_card, OF _ _ _ e refl refl] by (auto simp: sample_card_def)
  then have "card (set tiles) = 2" by (simp add: distinct_card)
  with t(3) have "set tiles = {1, 3}" by (intro card_subset_eq) auto
  with t(4) e show ?thesis by simp
qed

subsection \<open>The annotations of a pod\<close>

definition plain_card :: "gas_card \<Rightarrow> bool" where
  "plain_card c \<longleftrightarrow> plain_name (card_gpuName c) \<and> length (card_xeLinkedTileIds c) \<noteq> 1"

definition part_tiles :: "string \<Rightarrow> string \<Rightarrow> int set" where
  "part_tiles g part = (\<Union>s \<in> set (split_on CHR '','' part). entry_tiles g s)"

lemma annotation_tiles_parts: "annotation_tiles g t = (\<Union>part \<in> set (split_on CHR ''|'' t). part_tiles g part)"
  by (auto simp: annotation_tiles_def part_tiles_def)

lemma tile_entry_chars:
  assumes "range_order ord" "plain_card c"
    and "createTileAnnotation ord tileStatus c n request capacity node alloc pref = (annotation, alloc')"
  shows "CHR '','' \<notin> set annotation \<and> CHR ''|'' \<notin> set annotation"
proof -
  have n: "plain_name (card_gpuName c)" "length (card_xeLinkedTileIds c) \<noteq> 1"
    using assms(2) by (simp_all add: plain_card_def)
  from createTileAnnotation_cases [OF assms(1) n assms(3)] show ?thesis
  proof (elim disjE exE conjE)
    fix tiles
    assume a: "annotation = card_gpuName c @ '':'' @ tile_list tiles"
      "set tiles \<subseteq> {0..amount capacity gpuTileResource - 1} -
         set (gm_getd [] (tileStatus (node_name node)) (card_gpuName c)) - set (gm_getd [] alloc (card_gpuName c))"
    then have "\<forall>tile \<in> set tiles. 0 \<le> tile" by auto
    from tile_list_chars [OF this] n(1) a(1) show ?thesis by (auto simp: plain_name_def)
  qed simp
qed

lemma card_tile_annotations_spec:
  assumes ord: "range_order ord"
    and eq: "card_tile_annotations ord tileStatus n request capacity node prefs cards unusable = (strs, unusable')"
    and cards: "\<forall>c \<in> set cards. plain_card c"
  shows "(\<forall>s \<in> set strs. CHR '','' \<notin> set s \<and> CHR ''|'' \<notin> set s) \<and>
    (\<forall>g. (\<Union>s \<in> set strs. entry_tiles g s) \<inter>
       (set (gm_getd [] (tileStatus (node_name node)) g) \<union> set (gm_getd [] unusable g)) = {}) \<and>
    (\<forall>g. set (gm_getd [] unusable' g) = set (gm_getd [] unusable g) \<union> (\<Union>s \<in> set strs. entry_tiles g s))"
  using eq cards
proof (induction cards arbitrary: unusable strs)
  case Nil
  then show ?case by simp
next
  case (Cons c cards)
  obtain s unusable1 where st: "createTileAnnotation ord tileStatus c n request capacity node unusable
      (gm_getd [] prefs (card_gpuName c)) = (s, unusable1)" by fastforce
  obtain rest unusable2 where r: "card_tile_annotations ord tileStatus n request capacity node prefs cards unusable1 =
      (rest, unusable2)" by fastforce
  from Cons.prems st r have strs: "strs = s # rest" and u: "unusable' = unusable2" and c: "plain_card c"
    and cs: "\<forall>c \<in> set cards. plain_card c" by auto
  from c have n: "plain_name (card_gpuName c)" "length (card_xeLinkedTileIds c) \<noteq> 1"
    by (simp_all add: plain_card_def)
  have new: "entry_tiles g s \<inter> (set (gm_getd [] (tileStatus (node_name node)) g) \<union> set (gm_getd [] unusable g)) = {}"
    "set (gm_getd [] unusable1 g) = set (gm_getd [] unusable g) \<union> entry_tiles g s" for g
    using createTileAnnotation_cases [OF ord n st] by (auto split: if_splits)
  note ih = Cons.IH [OF r [folded u] cs]
  have "(\<Union>s \<in> set strs. entry_tiles g s) \<inter>
      (set (gm_getd [] (tileStatus (node_name node)) g) \<union> set (gm_getd [] unusable g)) = {}" for g
  proof -
    have "(\<Union>s \<in> set rest. entry_tiles g s) \<inter>
      (set (gm_getd [] (tileStatus (node_name node)) g) \<union> set (gm_getd [] unusable1 g)) = {}"
      using ih by blast
    with new(1) [of g] show ?thesis unfolding new(2) strs by (simp only: list.set UN_insert) blast
  qed
  moreover have "set (gm_getd [] unusable' g) = set (gm_getd [] unusable g) \<union> (\<Union>s \<in> set strs. entry_tiles g s)" for g
    using ih new [of g] unfolding strs by auto
  ultimately show ?case
    using ih tile_entry_chars [OF ord c st] unfolding strs by auto
qed

lemma part_tiles_join:
  assumes "\<forall>s \<in> set strs. CHR '','' \<notin> set s"
  shows "part_tiles g (join_with CHR '','' strs) = (\<Union>s \<in> set strs. entry_tiles g s)"
proof (cases "strs = []")
  case True
  then show ?thesis by (simp add: part_tiles_def)
next
  case False
  with split_on_join [of strs "CHR '',''"] assms show ?thesis by (simp add: part_tiles_def)
qed

lemma join_chars: "c \<noteq> d \<Longrightarrow> \<forall>s \<in> set strs. c \<notin> set s \<Longrightarrow> c \<notin> set (join_with d strs)"
  using set_join_with [of d strs] by auto

lemma container_annotations_tiles:
  assumes ord: "range_order ord"
    and cards: "\<forall>(request, cs) \<in> set pairs. \<forall>c \<in> set cs. plain_card c"
  shows "\<forall>(cardPart, tilePart) \<in> set (container_annotations ord tileStatus capacity node prefs pairs unusable).
    CHR ''|'' \<notin> set tilePart \<and> (\<forall>g. part_tiles g tilePart \<inter>
       (set (gm_getd [] (tileStatus (node_name node)) g) \<union> set (gm_getd [] unusable g)) = {})"
  using cards
proof (induction pairs arbitrary: unusable)
  case Nil
  then show ?case by simp
next
  case (Cons p pairs)
  obtain request cs where p: "p = (request, cs)" by (cases p)
  have cs: "\<forall>c \<in> set cs. plain_card c" using Cons.prems p by simp
  show ?case
  proof (cases "containerHasTiles request")
    case False
    with Cons p show ?thesis by (simp add: part_tiles_def)
  next
    case True
    obtain strs unusable' where st: "card_tile_annotations ord tileStatus (int (length cs)) request capacity
        node prefs cs unusable = (strs, unusable')" by fastforce
    note sp = card_tile_annotations_spec [OF ord st cs]
    have nc: "\<forall>s \<in> set strs. CHR '','' \<notin> set s" "\<forall>s \<in> set strs. CHR ''|'' \<notin> set s" using sp by auto
    have tail: "\<forall>(cardPart, tilePart) \<in> set (container_annotations ord tileStatus capacity node prefs pairs unusable').
      CHR ''|'' \<notin> set tilePart \<and> (\<forall>g. part_tiles g tilePart \<inter>
       (set (gm_getd [] (tileStatus (node_name node)) g) \<union> set (gm_getd [] unusable' g)) = {})"
      using Cons.prems by (intro Cons.IH) simp
    have "CHR ''|'' \<notin> set (join_with CHR '','' strs)" using nc(2) by (intro join_chars) auto
    with tail sp part_tiles_join [OF nc(1)] True st show ?thesis
      by (auto 0 3 simp: p Let_def)
  qed
qed

lemma container_annotations_cards:
  "map fst (container_annotations ord tileStatus capacity node prefs pairs unusable) =
     map (\<lambda>(request, cs). join_with CHR '','' (map card_gpuName cs)) pairs"
  by (induction ord tileStatus capacity node prefs pairs unusable rule: container_annotations.induct)
    (auto simp: Let_def split: prod.splits)

lemma map_zip_right: "length xs = length ys \<Longrightarrow> map (\<lambda>(x, y). f y) (zip xs ys) = map f ys"
  by (induction xs ys rule: list_induct2) auto

lemma convert_parts:
  assumes "convertNodeCardsToAnnotations ord tileStatus pod node containerCards = Some (annotation, tileAnnotation)"
    and "length containerCards = length (containers pod)"
  obtains capacity prefs unusable where
    "annotation = join_with CHR ''|'' (map (\<lambda>cs. join_with CHR '','' (map card_gpuName cs)) containerCards)"
    "tileAnnotation = join_with CHR ''|'' (map snd (container_annotations ord tileStatus capacity node prefs
       (zip (map container_request (containers pod)) containerCards) unusable))"
proof -
  have len: "length (map container_request (containers pod)) = length containerCards" using assms(2) by simp
  obtain capacity prefs unusable where
    a: "annotation = join_with CHR ''|'' (map fst (container_annotations ord tileStatus capacity node prefs
       (zip (map container_request (containers pod)) containerCards) unusable))"
    and t: "tileAnnotation = join_with CHR ''|'' (map snd (container_annotations ord tileStatus capacity node prefs
       (zip (map container_request (containers pod)) containerCards) unusable))"
    using assms by (auto simp: convertNodeCardsToAnnotations_def containerRequests_def Let_def
        split: bind_splits prod.splits)
  show thesis
    using that [OF _ t] a unfolding container_annotations_cards map_zip_right [OF len] by blast
qed

lemma card_annotation_parts:
  assumes "convertNodeCardsToAnnotations ord tileStatus pod node containerCards = Some (annotation, tileAnnotation)"
    and "length containerCards = length (containers pod)" "containers pod \<noteq> []"
    and "\<forall>cs \<in> set containerCards. \<forall>c \<in> set cs. plain_name (card_gpuName c)"
  shows "split_on CHR ''|'' annotation = map (\<lambda>cs. join_with CHR '','' (map card_gpuName cs)) containerCards \<and>
    (\<forall>cs \<in> set containerCards. cs \<noteq> [] \<longrightarrow>
       split_on CHR '','' (join_with CHR '','' (map card_gpuName cs)) = map card_gpuName cs)"
proof -
  from convert_parts [OF assms(1,2)] have ann:
    "annotation = join_with CHR ''|'' (map (\<lambda>cs. join_with CHR '','' (map card_gpuName cs)) containerCards)"
    by metis
  have nb: "CHR ''|'' \<notin> set (join_with CHR '','' (map card_gpuName cs))" if "cs \<in> set containerCards" for cs
    using that assms(4) by (intro join_chars) (auto simp: plain_name_def)
  have "containerCards \<noteq> []" using assms(2,3) by auto
  then have "split_on CHR ''|'' annotation = map (\<lambda>cs. join_with CHR '','' (map card_gpuName cs)) containerCards"
    unfolding ann using nb by (intro split_on_join) auto
  moreover have "split_on CHR '','' (join_with CHR '','' (map card_gpuName cs)) = map card_gpuName cs"
    if "cs \<in> set containerCards" "cs \<noteq> []" for cs
    using that assms(4) by (intro split_on_join) (auto simp: plain_name_def)
  ultimately show ?thesis by blast
qed

text \<open>The card annotation of a pod says for every container which GPUs it got: splitting it the way
  the cache does gives back the containers' GPU names.\<close>

theorem card_annotation_roundtrip:
  assumes "convertNodeCardsToAnnotations ord tileStatus pod node containerCards = Some (annotation, tileAnnotation)"
    and "length containerCards = length (containers pod)" "containers pod \<noteq> []"
    and "\<forall>cs \<in> set containerCards. \<forall>c \<in> set cs. plain_name (card_gpuName c)"
  shows "split_on CHR ''|'' annotation = map (\<lambda>cs. join_with CHR '','' (map card_gpuName cs)) containerCards \<and>
    (\<forall>cs \<in> set containerCards. cs \<noteq> [] \<longrightarrow>
       split_on CHR '','' (join_with CHR '','' (map card_gpuName cs)) = map card_gpuName cs)"
  by (rule card_annotation_parts [OF assms])

lemma annotation_tiles_free:
  assumes "range_order ord"
    and "convertNodeCardsToAnnotations ord tileStatus pod node containerCards = Some (annotation, tileAnnotation)"
    and "length containerCards = length (containers pod)"
    and "\<forall>cs \<in> set containerCards. \<forall>c \<in> set cs. plain_card c"
  shows "annotation_tiles g tileAnnotation \<inter> set (gm_getd [] (tileStatus (node_name node)) g) = {}"
proof -
  obtain capacity prefs unusable where t: "tileAnnotation = join_with CHR ''|'' (map snd
      (container_annotations ord tileStatus capacity node prefs
        (zip (map container_request (containers pod)) containerCards) unusable))"
    using convert_parts [OF assms(2,3)] by metis
  define parts where "parts = container_annotations ord tileStatus capacity node prefs
        (zip (map container_request (containers pod)) containerCards) unusable"
  have "\<forall>(request, cs) \<in> set (zip (map container_request (containers pod)) containerCards). \<forall>c \<in> set cs. plain_card c"
    using assms(4) by (auto dest: set_zip_rightD)
  from container_annotations_tiles [OF assms(1) this, of tileStatus capacity node prefs unusable]
  have p: "CHR ''|'' \<notin> set tp" "part_tiles g tp \<inter> set (gm_getd [] (tileStatus (node_name node)) g) = {}"
    if "tp \<in> snd ` set parts" for tp
    using that unfolding parts_def by fastforce+
  show ?thesis
  proof (cases "parts = []")
    case True
    then show ?thesis using t by (simp add: parts_def annotation_tiles_def)
  next
    case False
    have "split_on CHR ''|'' tileAnnotation = map snd parts"
      unfolding t parts_def [symmetric] using False p(1) by (intro split_on_join) auto
    with p(2) show ?thesis by (auto simp: annotation_tiles_parts)
  qed
qed


definition tiled_pod :: pod where
  "tiled_pod = sample_pod\<lparr>containers := [\<lparr>container_name = ''a'',
     requests = [(''gpu.intel.com/i915'', 1), (''gpu.intel.com/tiles'', 1)]\<rparr>]\<rparr>"

definition tiled_node :: node where
  "tiled_node = \<lparr>node_name = ''n1'', node_labels = Some [(''gpu.intel.com/gpu-numbers'', ''0'')],
     node_capacity = [], node_allocatable = [(''gpu.intel.com/i915'', 1), (''gpu.intel.com/tiles'', 2)]\<rparr>"

lemma tiled_conversion:
  "convertNodeCardsToAnnotations id (\<lambda>nodeName. [(''card0'', [0])]) tiled_pod tiled_node [[sample_card]] =
     Some (''card0'', ''card0:gt1'')"
  by code_simp

lemma tiled_plain: "\<forall>cs \<in> set [[sample_card]]. \<forall>c \<in> set cs. plain_card c"
  by code_simp

theorem card_annotation_roundtrip_witness:
  "split_on CHR ''|'' ''card0'' = [''card0'']"
proof -
  have "length [[sample_card]] = length (containers tiled_pod)" "containers tiled_pod \<noteq> []"
    by (simp_all add: tiled_pod_def)
  from card_annotation_roundtrip [OF tiled_conversion this] tiled_plain show ?thesis
    by (simp add: plain_card_def sample_card_def)
qed


end
