(* ===== verification/Gpu_Fit.thy ===== *)
theory Gpu_Fit
  imports Gpu_Alloc Gpu_Tiles
begin

text \<open>
  From one container to a whole pod: whatever GPUs \<^verbatim>\<open>checkForSpaceResourceRequests\<close> assigns to the
  containers of a pod, together with what is in use already they stay within every GPU's capacity.
  The statement covers pods whose containers share a GPU and single-NUMA pods, where a search map
  that failed leaves its charges behind; Xe-linked pairs are left out (a GPU linked to itself is
  charged twice after one check).
\<close>

subsection \<open>States of the search\<close>

text \<open>\<open>grows\<close> relates the copy of the resources in use before and after a part of the search: amounts
  only grow, and an amount that did grow is within the capacity.\<close>

definition grows :: "resource_map \<Rightarrow> node_resources \<Rightarrow> node_resources \<Rightarrow> bool" where
  "grows capacity used used' \<longleftrightarrow> node_ok used' \<and> fst ` set used' = fst ` set used \<and>
     (\<forall>g res. card_amount used g res \<le> card_amount used' g res \<and>
        (card_amount used' g res = card_amount used g res \<or> card_amount used' g res \<le> amount capacity res))"

lemma grows_refl [intro]: "node_ok used \<Longrightarrow> grows capacity used used"
  by (simp add: grows_def)

lemma grows_trans: "grows capacity a b \<Longrightarrow> grows capacity b c \<Longrightarrow> grows capacity a c"
  unfolding grows_def by (smt (verit))

lemma grows_ok: "grows capacity a b \<Longrightarrow> node_ok b"
  by (simp add: grows_def)

lemma charge_grows:
  assumes "charge_gpu used g request = Some used'"
    and "node_ok used" "sane request" "g \<in> fst ` set used" "fits request capacity (gm_getd [] used g)"
  shows "grows capacity used used'"
proof -
  note d = charge_gpu_fitsD [OF assms]
  have "amount request res = 0 \<or> card_amount used g res + amount request res \<le> amount capacity res" for res
    using fits_amount [OF assms(5) sane_wf [OF assms(3)], of res] assms(3)
    by (cases "res \<in> fst ` set request") (auto simp: card_amount_def)
  with d assms(3) show ?thesis by (auto simp: grows_def)
qed

lemma cards_loop_grows:
  assumes "cards_loop n m node pod request capacity gpuMap usedMap cards pref used = Some (result, used')"
    and "node_ok used" "sane request"
  shows "grows capacity used used'"
  using assms(1,2)
proof (induction n arbitrary: usedMap cards pref used)
  case 0
  then show ?case by auto
next
  case (Suc n)
  obtain names prefCard where c: "candidates m node used = (names, prefCard)" by fastforce
  from Suc.prems(1) c obtain hit where
    hit: "find_fitting_gpu m node pod request capacity used gpuMap usedMap (enumerate 0 names) = Some hit"
    by (auto split: bind_splits)
  show ?case
  proof (cases hit)
    case None
    then have "used' = used" using Suc.prems(1) by (simp add: c hit)
    with Suc.prems(2) show ?thesis by auto
  next
    case (Some ig)
    obtain i g where ig: "ig = (i, g)" by (cases ig)
    note h = find_fitting_gpu_Some [OF hit [unfolded Some ig]]
    from Suc.prems(1) c hit Some ig obtain used1 where ch: "charge_gpu used g request = Some used1"
      and rest: "cards_loop n m node pod request capacity gpuMap (List.insert g usedMap)
        (cards @ [\<lparr>card_gpuName = g, card_xeLinkedTileIds = []\<rparr>]) (pref \<or> (i = 0 \<and> prefCard \<noteq> [])) used1 =
      Some (result, used')"
      by (auto split: bind_splits)
    have gk: "g \<in> fst ` set used"
      using h candidates_set [of m node used] c enumerate_mem [of g names] by auto
    have "grows capacity used used1"
      using charge_grows [OF ch Suc.prems(2) assms(3) gk] h by blast
    with Suc.IH [OF rest] show ?thesis by (blast intro: grows_trans dest: grows_ok)
  qed
qed

lemma getCards_grows:
  assumes "getCardsForContainerGPURequest m request capacity node pod gpuMap used = Some (result, used')"
    and "node_ok used" "sane request"
  shows "grows capacity used used'"
  using assms cards_loop_grows [OF _ assms(2) share_amount(1) [OF assms(3)]]
  by (auto simp: getCardsForContainerGPURequest_def getCardsForContainerGPURequestImpl_def
      getPerGPUResourceRequest_eq split: if_splits)

subsection \<open>What an assignment charges\<close>

definition cards_charge :: "string \<Rightarrow> string \<Rightarrow> (resource_map \<times> gas_card list) list \<Rightarrow> int" where
  "cards_charge g res pairs =
     sum_list (map (\<lambda>(request, cs). int (count_list (map card_gpuName cs) g) *
       (amount request res div int (length cs))) pairs)"

lemma cards_charge_simps [simp]:
  "cards_charge g res [] = 0"
  "cards_charge g res ((request, cs) # pairs) =
     int (count_list (map card_gpuName cs) g) * (amount request res div int (length cs)) + cards_charge g res pairs"
  "cards_charge g res (xs @ ys) = cards_charge g res xs + cards_charge g res ys"
  by (simp_all add: cards_charge_def)

lemma count_list_distinct: "distinct xs \<Longrightarrow> x \<in> set xs \<Longrightarrow> count_list xs x = 1"
  by (induction xs) (auto simp: count_list_0_iff)

lemma getCards_charge:
  assumes "getCardsForContainerGPURequest m request capacity node pod gpuMap used = Some (Inr (cards, pref), used')"
    and "node_ok used" "sane request"
  shows "card_amount used' g res = card_amount used g res + cards_charge g res [(request, cards)]"
proof -
  from getCards_success [OF assms] obtain new where new: "cards = plain_cards new"
    "length new = gpus_wanted request" "distinct new"
    "\<forall>g res. card_amount used' g res =
       card_amount used g res + (if g \<in> set new then amount (share request) res else 0)" by blast
  have "g \<in> set new \<Longrightarrow> count_list new g = 1"
    using new(3) by (rule count_list_distinct)
  moreover have "amount (share request) res = amount request res div int (length new)" if "g \<in> set new"
  proof -
    have "0 < gpus_wanted request" using that new(2) by (metis length_pos_if_in_set)
    then have "0 < getNumGPUReq request" "int (length new) = getNumGPUReq request"
      using new(2) by (simp_all add: gpus_wanted_def)
    then show ?thesis using share_amount(3) [OF assms(3), of res]
      by (cases "getNumGPUReq request = 1") simp_all
  qed
  ultimately show ?thesis using new(1,4) by (auto simp: count_list_0_iff)
qed

subsection \<open>Containers that share a GPU\<close>

definition total_request :: "nat list \<Rightarrow> resource_map list \<Rightarrow> string \<Rightarrow> int" where
  "total_request idxs reqs res = sum_list (map (\<lambda>i. amount (reqs ! i) res) idxs)"

lemma combine_loop:
  assumes "efold (\<lambda>index acc. addRM acc (reqs ! index)) idxs acc = Inr c"
    and "sane acc" "\<forall>i \<in> set idxs. sane (reqs ! i)"
  shows "sane c \<and> (\<forall>res. amount c res = amount acc res + total_request idxs reqs res)"
  using assms
proof (induction idxs arbitrary: acc)
  case Nil
  then show ?case by (simp add: total_request_def)
next
  case (Cons i idxs)
  then obtain acc1 where a: "addRM acc (reqs ! i) = Inr acc1"
    and rest: "efold (\<lambda>index acc. addRM acc (reqs ! index)) idxs acc1 = Inr c"
    by (auto split: sum.splits)
  from Cons.prems have "wf_map (reqs ! i)" by auto
  from addrm.upd_result [OF Cons.prems(2) this a] have "sane acc1"
    "\<forall>k. amount acc1 k = amount acc k + amount (reqs ! i) k" by auto
  with Cons.IH [OF rest] Cons.prems(3) show ?case by (simp add: total_request_def)
qed

lemma plugin_name_cases: "getPluginResourceName request =
    (if 0 < amount request xePluginResource then xePluginResource else i915PluginResource)"
  by (auto simp: getPluginResourceName_def amount_def gm_getd_def split: option.splits)

lemma getNumGPUReq_amount: "getNumGPUReq request = max 0 (amount request (getPluginResourceName request))"
  by (auto simp: getNumGPUReq_def amount_def gm_getd_def split: option.splits)

lemma plugin_names_differ [simp]: "xePluginResource \<noteq> i915PluginResource" "i915PluginResource \<noteq> xePluginResource"
  by (simp_all add: xePluginResource_def i915PluginResource_def)

lemma combine_spec:
  assumes c: "combineSamegpuResourceRequests idxs reqs = Inr c"
    and s: "\<forall>i \<in> set idxs. sane (reqs ! i)"
  defines "P \<equiv> getPluginResourceName c"
  shows "sane c" "c \<noteq> []" "getNumGPUReq c = 1" "amount c P = 1"
    "\<And>res. res \<noteq> P \<Longrightarrow> amount c res = total_request idxs reqs res"
    "P = (if 0 < total_request idxs reqs xePluginResource then xePluginResource else i915PluginResource)"
proof -
  from c obtain c0 where l: "efold (\<lambda>index acc. addRM acc (reqs ! index)) idxs [] = Inr c0"
    and c: "c = AList.update (getPluginResourceName c0) 1 c0"
    by (auto simp: combineSamegpuResourceRequests_def split: sum.splits)
  from combine_loop [OF l sane_Nil s] have s0: "sane c0"
    and am: "\<And>res. amount c0 res = total_request idxs reqs res" by auto
  have P: "P = getPluginResourceName c0"
    unfolding P_def by (auto simp: plugin_name_cases c)
  have "getPluginResourceName c0 \<in> fst ` set c" by (simp add: c)
  then show "c \<noteq> []" by auto
  show "sane c" using s0 by (auto simp: c)
  show "amount c P = 1" by (simp add: P c)
  then show "getNumGPUReq c = 1" by (simp add: getNumGPUReq_amount P_def)
  show "res \<noteq> P \<Longrightarrow> amount c res = total_request idxs reqs res" for res
    using am by (simp add: P c)
  show "P = (if 0 < total_request idxs reqs xePluginResource then xePluginResource else i915PluginResource)"
    unfolding P plugin_name_cases am ..
qed

lemma sanitize_spec:
  assumes "sanitizeSamegpuResourcesRequest idxs reqs = Inr u" "i \<in> set idxs"
  shows "getNumGPUReq (reqs ! i) = 1"
  using assms by (auto simp: sanitizeSamegpuResourcesRequest_def samegpuMaxI915Request_def list_all_iff
      split: if_splits)

lemma samegpu_plugin_total:
  assumes "sanitizeSamegpuResourcesRequest idxs reqs = Inr u" "\<forall>i \<in> set idxs. sane (reqs ! i)"
    and "P = (if 0 < total_request idxs reqs xePluginResource then xePluginResource else i915PluginResource)"
  shows "total_request idxs reqs P \<le> int (length idxs)"
proof -
  have le: "amount (reqs ! i) P \<le> 1" if "i \<in> set idxs" for i
  proof (cases "0 < amount (reqs ! i) xePluginResource")
    case True
    then have xe: "amount (reqs ! i) xePluginResource = 1"
      using sanitize_spec [OF assms(1) that] by (simp add: getNumGPUReq_amount plugin_name_cases)
    have "0 \<le> amount (reqs ! j) xePluginResource" if "j \<in> set idxs" for j
      using that assms(2) by simp
    then have nn: "0 \<le> total_request xs reqs xePluginResource" if "set xs \<subseteq> set idxs" for xs
      using that unfolding total_request_def by (intro sum_list_nonneg) (auto dest: subsetD)
    obtain xs ys where xs: "idxs = xs @ i # ys" using \<open>i \<in> set idxs\<close> by (meson split_list)
    have "total_request idxs reqs xePluginResource =
        total_request xs reqs xePluginResource + 1 + total_request ys reqs xePluginResource"
      using xe by (simp add: total_request_def xs)
    moreover have "0 \<le> total_request xs reqs xePluginResource" by (rule nn) (auto simp: xs)
    moreover have "0 \<le> total_request ys reqs xePluginResource" by (rule nn) (auto simp: xs)
    ultimately have "0 < total_request idxs reqs xePluginResource" by linarith
    with assms(3) xe show ?thesis by simp
  next
    case False
    with sanitize_spec [OF assms(1) that] assms(3) show ?thesis
      by (auto simp: getNumGPUReq_amount plugin_name_cases max_def split: if_splits)
  qed
  have "total_request xs reqs P \<le> int (length xs)" if "set xs \<subseteq> set idxs" for xs
    using that by (induction xs) (use le in \<open>fastforce simp: total_request_def\<close>)+
  then show ?thesis by blast
qed

lemma prune_gpu_map_Cons: "prune_gpu_map cap P n ((j, rm) # used) gpuMap =
    prune_gpu_map cap P n used
      (if sint (gm_getd 0 cap P - gm_getd 0 rm P) < int n then removeAll j gpuMap else gpuMap)"
  by (simp add: prune_gpu_map_def)

lemma prune_gpu_map_Nil: "prune_gpu_map cap P n [] gpuMap = gpuMap"
  by (simp add: prune_gpu_map_def)

lemma prune_subset: "g \<in> set (prune_gpu_map cap P n used gpuMap) \<Longrightarrow> g \<in> set gpuMap"
proof (induction used arbitrary: gpuMap)
  case (Cons e used)
  obtain j rm where e: "e = (j, rm)" by (cases e)
  from Cons.prems [unfolded e prune_gpu_map_Cons] show ?case
    by (auto dest!: Cons.IH split: if_splits)
qed (simp add: prune_gpu_map_Nil)

lemma prune_mem:
  "g \<in> set (prune_gpu_map cap P n used gpuMap) \<Longrightarrow> (g, rm) \<in> set used \<Longrightarrow>
     int n \<le> sint (gm_getd 0 cap P - gm_getd 0 rm P)"
proof (induction used arbitrary: gpuMap)
  case (Cons e used)
  obtain j rm' where e: "e = (j, rm')" by (cases e)
  show ?case
  proof (cases "(g, rm) = (j, rm')")
    case True
    show ?thesis
    proof (rule ccontr)
      assume "\<not> int n \<le> sint (gm_getd 0 cap P - gm_getd 0 rm P)"
      with True Cons.prems(1) have "g \<in> set (prune_gpu_map cap P n used (removeAll g gpuMap))"
        by (simp add: e prune_gpu_map_Cons)
      from prune_subset [OF this] show False by simp
    qed
  next
    case False
    then have "(g, rm) \<in> set used" using Cons.prems(2) e by auto
    from Cons.IH [OF _ this] Cons.prems(1) show ?thesis unfolding e prune_gpu_map_Cons by blast
  qed
qed simp

lemma charge_books:
  assumes "charge_gpu used g [(P, word_of_int (int n - 1))] = Some used'"
    and "addRM (gm_getd [] used g) [(P, word_of_int (int n - 1))] = Inr rm"
    and "node_ok used" "g \<in> fst ` set used" "1 \<le> n" "int n \<le> max_int64"
  shows "node_ok used'" "fst ` set used' = fst ` set used"
    "card_amount used' j res = card_amount used j res + (if j = g \<and> res = P then int n - 1 else 0)"
proof -
  have v: "sint (word_of_int (int n - 1) :: int64) = int n - 1"
    using assms(5,6) by (intro sint_of_int64) (simp_all add: max_int64_def)
  have wf: "wf_map [(P, word_of_int (int n - 1) :: int64)]" by (simp add: wf_map_def)
  from assms(4) obtain old where "map_of used g = Some old" by (auto simp: map_of_Some_keys)
  then have u: "used' = AList.update g rm used"
    using assms(1,2) by (simp add: charge_gpu_def)
  from addrm.upd_result [OF node_ok_sane [OF assms(3)] wf assms(2)]
  show "node_ok used'" "fst ` set used' = fst ` set used"
    "card_amount used' j res = card_amount used j res + (if j = g \<and> res = P then int n - 1 else 0)"
    using assms(3,4) v by (auto simp: u card_amount_def)
qed

text \<open>The GPU that the containers share stays within its capacity: for the plugin's resource because of the pruning of the
  GPU map, for the others because the combined request fitted.\<close>

lemma samegpu_within:
  assumes combined: "sane combined" "getNumGPUReq combined = 1" "amount combined P = 1"
    and el: "eligible m node pod (share combined) capacity used (prune_gpu_map capacity P n used gpuMap) g" and ok: "node_ok used"
  shows "card_amount used g P + int n \<le> amount capacity P"
    "amount combined res = 0 \<or> card_amount used g res + amount combined res \<le> amount capacity res"
proof -
  from el have gk: "g \<in> fst ` set used" and gm: "g \<in> set (prune_gpu_map capacity P n used gpuMap)"
    and f: "fits (share combined) capacity (gm_getd [] used g)" by (auto simp: eligible_def)
  have sh: "amount (share combined) res = amount combined res" for res
    using share_amount(3) [OF combined(1), of res] combined(2) by simp
  have "P \<in> fst ` set (share combined)"
    using combined(3) share_amount(2) [OF combined(1)] amount_missing [of P combined] by fastforce
  then have cap: "0 < amount capacity P" using f by (auto simp: fits_def)
  have "(g, gm_getd [] used g) \<in> set used" using gk by (rule gm_getd_in_set)
  from prune_mem [OF gm this] show "card_amount used g P + int n \<le> amount capacity P"
    using cap card_amount_nonneg [OF ok, of g P] by (simp add: amount_def card_amount_def sub_int64_nonneg)
  show "amount combined res = 0 \<or> card_amount used g res + amount combined res \<le> amount capacity res"
  proof (cases "res \<in> fst ` set (share combined)")
    case True
    have "sane (share combined)" by (rule share_amount(1) [OF combined(1)])
    from fits_amount [OF f sane_wf [OF this] True] sh show ?thesis by (simp add: card_amount_def)
  next
    case False
    then show ?thesis using share_amount(2) [OF combined(1)] by simp
  qed
qed

lemma getCardForSamegpu_success:
  assumes eq: "getCardForSamegpu m idxs reqs capacity node pod gpuMap used = Some (Inr (cards, pref), used')"
    and ok: "node_ok used" and idxs: "idxs \<noteq> []" "int (length idxs) \<le> max_int64"
    and s: "\<forall>i \<in> set idxs. sane (reqs ! i)"
  shows "\<exists>g. cards = plain_cards [g] \<and> g \<in> set gpuMap \<and> usable m node pod g \<and> grows capacity used used' \<and>
    (\<forall>j res. card_amount used j res + (if j = g then total_request idxs reqs res else 0) \<le> card_amount used' j res)"
proof -
  from eq obtain u combined where san: "sanitizeSamegpuResourcesRequest idxs reqs = Inr u"
    and comb: "combineSamegpuResourceRequests idxs reqs = Inr combined"
    by (auto simp: getCardForSamegpu_def split: sum.splits)
  define P where "P = getPluginResourceName combined"
  define n where "n = length idxs"
  note cs = combine_spec [OF comb s, folded P_def]
  obtain used1 gcard rest rm where
    get: "getCardsForContainerGPURequest m combined capacity node pod (prune_gpu_map capacity P n used gpuMap) used =
        Some (Inr (cards, pref), used1)"
    and cards: "cards = gcard # rest"
    and rm: "addRM (gm_getd [] used1 (card_gpuName gcard)) [(P, word_of_int (int n - 1))] = Inr rm"
    and ch: "charge_gpu used1 (card_gpuName gcard) [(P, word_of_int (int n - 1))] = Some used'"
    using eq unfolding getCardForSamegpu_def san comb
    by (auto simp: P_def n_def Let_def split: bind_splits sum.splits list.splits)
  from getCards_success [OF get ok cs(1)] obtain new where new: "cards = plain_cards new"
    "length new = gpus_wanted combined"
    "\<forall>g \<in> set new. eligible m node pod (share combined) capacity used (prune_gpu_map capacity P n used gpuMap) g"
    "node_ok used1" "fst ` set used1 = fst ` set used"
    "\<forall>g res. card_amount used1 g res = card_amount used g res + (if g \<in> set new then amount (share combined) res else 0)"
    by blast
  have "length new = 1" using new(2) cs(3) by (simp add: gpus_wanted_def)
  then obtain g where g: "new = [g]" by (auto simp: length_Suc_conv)
  with new(1) cards have gc: "card_gpuName gcard = g" by (simp add: plain_cards_def)
  have el: "eligible m node pod (share combined) capacity used (prune_gpu_map capacity P n used gpuMap) g"
    using new(3) g by simp
  then have gk1: "g \<in> fst ` set used1" and gm: "g \<in> set (prune_gpu_map capacity P n used gpuMap)"
    and us: "usable m node pod g" using new(5) by (auto simp: eligible_def)
  have sh: "amount (share combined) res = amount combined res" for res
    using share_amount(3) [OF cs(1), of res] cs(3) by simp
  have n: "1 \<le> n" "int n \<le> max_int64" using idxs by (simp_all add: n_def Suc_le_eq)
  note bk = charge_books [OF ch [unfolded gc] rm [unfolded gc] new(4) gk1 n]
  have am: "card_amount used' j res = card_amount used j res +
      (if j = g then amount combined res + (if res = P then int n - 1 else 0) else 0)" for j res
    using bk(3) [of j res] new(6) g sh by simp
  have "card_amount used' g res = card_amount used g res \<or> card_amount used' g res \<le> amount capacity res" for res
    using samegpu_within(1) [OF cs(1,3,4) el ok] samegpu_within(2) [OF cs(1,3,4) el ok, of res] cs(4) am [of g res]
    by (cases "res = P") auto
  moreover have "0 \<le> amount combined res" for res using cs(1) by simp
  ultimately have "grows capacity used used'"
    unfolding grows_def using bk(1,2) new(5) am n by (auto simp: all_conj_distrib)
  moreover have "total_request idxs reqs res \<le> amount combined res + (if res = P then int n - 1 else 0)" for res
    using cs(5) [of res] samegpu_plugin_total [OF san s cs(6)] cs(4) by (auto simp: n_def)
  ultimately show ?thesis
    using g new(1) us prune_subset [OF gm] am by (intro exI [of _ g]) auto
qed

subsection \<open>All containers\<close>

definition requested_cards :: "string search_map list \<Rightarrow> gas_card list \<Rightarrow> bool" where
  "requested_cards gpuMaps cards \<longleftrightarrow>
     (\<exists>new. cards = plain_cards new \<and> distinct new \<and> set new \<subseteq> (\<Union>gpuMap \<in> set gpuMaps. set gpuMap))"

lemma try_gpu_maps_spec:
  assumes "try_gpu_maps ord tileStatus m request capacity node pod gpuMaps used tiles = Some (result, used', tiles')"
    and xe: "nil_get (pod_annotations pod) xelinkAnnotationName = None"
    and "node_ok used" "sane request"
  shows "grows capacity used used' \<and>
    (result = None \<longrightarrow> gpuMaps = []) \<and>
    (\<forall>cards pref. result = Some (Inr (cards, pref)) \<longrightarrow> requested_cards gpuMaps cards \<and>
      (\<forall>g res. card_amount used g res + cards_charge g res [(request, cards)] \<le> card_amount used' g res))"
  using assms(1,3)
proof (induction gpuMaps arbitrary: used tiles)
  case Nil
  then show ?case by auto
next
  case (Cons gpuMap gpuMaps)
  from Cons.prems(1) xe obtain r used1 tiles1 where
    get: "getCardsForContainerGPURequest m request capacity node pod gpuMap used = Some (r, used1)"
    and tiles1: "tiles1 = tiles"
    by (auto simp: container_cards_def split: bind_splits)
  note g1 = getCards_grows [OF get Cons.prems(2) assms(4)]
  show ?case
  proof (cases r)
    case (Inr cp)
    obtain cards pref where cp: "cp = (cards, pref)" by (cases cp)
    with Cons.prems(1) get Inr xe have res: "result = Some (Inr (cards, pref))" "used' = used1"
      by (auto simp: container_cards_def)
    from getCards_success [OF get [unfolded Inr cp] Cons.prems(2) assms(4)]
    have "requested_cards (gpuMap # gpuMaps) cards"
      by (force simp: requested_cards_def eligible_def)
    moreover note getCards_charge [OF get [unfolded Inr cp] Cons.prems(2) assms(4)]
    ultimately show ?thesis using g1 res by auto
  next
    case (Inl err)
    show ?thesis
    proof (cases "gpuMaps = []")
      case True
      with Cons.prems(1) get Inl xe g1 show ?thesis by (auto simp: container_cards_def)
    next
      case False
      with Cons.prems(1) get Inl xe have
        rest: "try_gpu_maps ord tileStatus m request capacity node pod gpuMaps used1 tiles = Some (result, used', tiles')"
        by (auto simp: container_cards_def)
      note ih = Cons.IH [OF rest grows_ok [OF g1]]
      have "requested_cards gpuMaps cards \<Longrightarrow> requested_cards (gpuMap # gpuMaps) cards" for cards
        by (auto simp: requested_cards_def)
      moreover have "card_amount used1 g res + k \<le> x \<Longrightarrow> card_amount used g res + k \<le> x" for g res k x
        using g1 unfolding grows_def by (meson add_right_mono order_trans)
      ultimately show ?thesis
        using ih False grows_trans [OF g1] by simp
    qed
  qed
qed

definition samegpu_charge :: "string \<Rightarrow> string \<Rightarrow> nat list \<Rightarrow> gas_card list \<Rightarrow> (nat \<times> resource_map) list \<Rightarrow> int" where
  "samegpu_charge g res idxs samegpuCard reqs =
     sum_list (map (\<lambda>(i, request). if i \<in> set idxs then cards_charge g res [(request, samegpuCard)] else 0) reqs)"

lemma containers_loop_spec:
  assumes "containers_loop ord tileStatus m capacity node pod gpuMaps idxs samegpuCard reqs cc pref used tiles =
      Some (Inr (cc', pref'))"
    and xe: "nil_get (pod_annotations pod) xelinkAnnotationName = None"
    and maps: "gpuMaps \<noteq> []" and "node_ok used" and "\<forall>(i, request) \<in> set reqs. sane request"
  shows "\<exists>new used'. cc' = cc @ new \<and> length new = length reqs \<and> grows capacity used used' \<and>
    (\<forall>cs \<in> set new. cs = samegpuCard \<or> requested_cards gpuMaps cs) \<and>
    (\<forall>g res. card_amount used g res + cards_charge g res (zip (map snd reqs) new) \<le>
       card_amount used' g res + samegpu_charge g res idxs samegpuCard reqs)"
  using assms(1,4,5)
proof (induction reqs arbitrary: cc pref used tiles)
  case Nil
  then show ?case by (intro exI [of _ "[]"] exI [of _ used]) (auto simp: samegpu_charge_def)
next
  case (Cons ir reqs)
  obtain i request where ir: "ir = (i, request)" by (cases ir)
  have s: "sane request" and ss: "\<forall>(i, request) \<in> set reqs. sane request" using Cons.prems(3) ir by auto
  show ?case
  proof (cases "i \<in> set idxs")
    case True
    with Cons.prems(1) ir have
      "containers_loop ord tileStatus m capacity node pod gpuMaps idxs samegpuCard reqs (cc @ [samegpuCard]) pref used tiles =
        Some (Inr (cc', pref'))" by simp
    from Cons.IH [OF this Cons.prems(2) ss] obtain new used' where
      "cc' = (cc @ [samegpuCard]) @ new" "length new = length reqs" "grows capacity used used'"
      "\<forall>cs \<in> set new. cs = samegpuCard \<or> requested_cards gpuMaps cs"
      "\<forall>g res. card_amount used g res + cards_charge g res (zip (map snd reqs) new) \<le>
         card_amount used' g res + samegpu_charge g res idxs samegpuCard reqs" by blast
    then show ?thesis
      using True ir by (intro exI [of _ "samegpuCard # new"] exI [of _ used']) (simp add: samegpu_charge_def)
  next
    case False
    with Cons.prems(1) ir obtain r used1 tiles1 where
      tr: "try_gpu_maps ord tileStatus m request capacity node pod gpuMaps used tiles = Some (r, used1, tiles1)"
      by (auto split: bind_splits)
    note t = try_gpu_maps_spec [OF tr xe Cons.prems(2) s]
    with maps obtain x where x: "r = Some x" by (cases r) auto
    from False Cons.prems(1) ir tr x obtain cards pref1 where r: "r = Some (Inr (cards, pref1))"
      and rest: "containers_loop ord tileStatus m capacity node pod gpuMaps idxs samegpuCard reqs (cc @ [cards])
        pref1 used1 tiles1 = Some (Inr (cc', pref'))"
      by (auto split: sum.splits)
    have g1: "grows capacity used used1" using t by blast
    from Cons.IH [OF rest grows_ok [OF g1] ss] obtain new used' where
      n: "cc' = (cc @ [cards]) @ new" "length new = length reqs" "grows capacity used1 used'"
      "\<forall>cs \<in> set new. cs = samegpuCard \<or> requested_cards gpuMaps cs"
      "\<forall>g res. card_amount used1 g res + cards_charge g res (zip (map snd reqs) new) \<le>
         card_amount used' g res + samegpu_charge g res idxs samegpuCard reqs" by blast
    have step: "card_amount used g res + cards_charge g res [(request, cards)] \<le> card_amount used1 g res"
      "requested_cards gpuMaps cards" for g res using t r by auto
    have "card_amount used g res + cards_charge g res (zip (map snd (ir # reqs)) (cards # new)) \<le>
        card_amount used' g res + samegpu_charge g res idxs samegpuCard (ir # reqs)" for g res
    proof -
      have "card_amount used1 g res + cards_charge g res (zip (map snd reqs) new) \<le>
         card_amount used' g res + samegpu_charge g res idxs samegpuCard reqs" using n(5) by blast
      with step(1) [of g res] False show ?thesis by (simp add: ir samegpu_charge_def)
    qed
    with n step(2) grows_trans [OF g1 n(3)] show ?thesis
      by (intro exI [of _ "cards # new"] exI [of _ used']) auto
  qed
qed

lemma samegpu_charge_total:
  assumes "idxs = filter Q [0..<length reqs]"
  shows "samegpu_charge g res idxs (plain_cards [g0]) (enumerate 0 reqs) =
    (if g = g0 then total_request idxs reqs res else 0)"
proof -
  have en: "enumerate 0 reqs = map (\<lambda>i. (i, reqs ! i)) [0..<length reqs]"
    by (rule nth_equalityI) (simp_all add: nth_enumerate_eq)
  have "sum_list (map (\<lambda>i. if i \<in> set idxs then f i else 0) xs) = sum_list (map f (filter (\<lambda>i. i \<in> set idxs) xs))"
    for f :: "nat \<Rightarrow> int" and xs by (induction xs) auto
  moreover have "filter (\<lambda>i. i \<in> set idxs) [0..<length reqs] = idxs"
    unfolding assms by (rule filter_cong) auto
  ultimately have "samegpu_charge g res idxs (plain_cards [g0]) (enumerate 0 reqs) =
      sum_list (map (\<lambda>i. cards_charge g res [(reqs ! i, plain_cards [g0])]) idxs)"
    by (simp add: samegpu_charge_def en comp_def)
  also have "\<dots> = (if g = g0 then total_request idxs reqs res else 0)"
    by (auto simp: total_request_def plain_cards_def)
  finally show ?thesis .
qed

lemma samegpu_charge_none: "samegpu_charge g res [] cs reqs = 0"
  by (induction reqs) (auto simp: samegpu_charge_def)

lemma requested_cards_Nil [simp]: "requested_cards gpuMaps []"
  unfolding requested_cards_def by (intro exI [of _ "[]"]) simp

text \<open>What is set aside for the containers that share a GPU, before the others get theirs.\<close>

lemma samegpu_set_aside:
  assumes "if 0 < length idxs
      then getCardForSamegpu m idxs reqs capacity node pod gpuMap used = Some (Inr (samegpuCard, pref), used1)
      else samegpuCard = [] \<and> used1 = used"
    and "gpuMap \<in> set gpuMaps" "node_ok used" "int (length idxs) \<le> max_int64" "\<forall>i \<in> set idxs. sane (reqs ! i)"
    and "idxs = filter Q [0..<length reqs]"
  shows "requested_cards gpuMaps samegpuCard \<and> grows capacity used used1 \<and>
    (\<forall>g res. card_amount used g res + samegpu_charge g res idxs samegpuCard (enumerate 0 reqs) \<le> card_amount used1 g res)"
proof (cases "idxs = []")
  case True
  then show ?thesis using assms(1,3) by (auto simp: samegpu_charge_none)
next
  case False
  with assms(1) have get: "getCardForSamegpu m idxs reqs capacity node pod gpuMap used = Some (Inr (samegpuCard, pref), used1)"
    by simp
  from getCardForSamegpu_success [OF get assms(3) False assms(4,5)] obtain g0 where
    g0: "samegpuCard = plain_cards [g0]" "g0 \<in> set gpuMap" "grows capacity used used1"
    "\<forall>j res. card_amount used j res + (if j = g0 then total_request idxs reqs res else 0) \<le> card_amount used1 j res"
    by blast
  have "requested_cards gpuMaps samegpuCard"
    using g0(1,2) assms(2) by (auto simp: requested_cards_def intro!: exI [of _ "[g0]"])
  then show ?thesis using g0(3,4) unfolding g0(1) samegpu_charge_total [OF assms(6)] by blast
qed

lemma checkForSpaceResourceRequests_charges:
  assumes eq: "checkForSpaceResourceRequests ord tileStatus m capacity pod node used gpuMaps = Some (Inr (cc, pref))"
    and xe: "nil_get (pod_annotations pod) xelinkAnnotationName = None"
    and maps: "gpuMaps \<noteq> []" and ok: "node_ok used" and pod: "pod_sane pod"
    and len: "int (length (containers pod)) \<le> max_int64"
  shows "length cc = length (containers pod) \<and>
    (\<forall>cs \<in> set cc. requested_cards gpuMaps cs) \<and>
    (\<exists>used'. grows capacity used used' \<and>
      (\<forall>g res. card_amount used g res + cards_charge g res (zip (map container_request (containers pod)) cc) \<le>
         card_amount used' g res))"
proof -
  from eq obtain names where names: "containersRequestingSamegpu pod = Inr names"
    by (auto simp: checkForSpaceResourceRequests_def split: sum.splits)
  define reqs where "reqs = map container_request (containers pod)"
  define idxs where "idxs = filter (\<lambda>i. container_name (containers pod ! i) \<in> set names) [0..<length reqs]"
  have cr: "containerRequests pod names = (idxs, reqs)"
    by (simp add: containerRequests_def idxs_def reqs_def)
  have sane: "\<forall>request \<in> set reqs. sane request"
    using pod by (simp add: pod_sane_def containerRequests_def reqs_def)
  have "set idxs \<subseteq> {0..<length reqs}" by (auto simp: idxs_def)
  then have sidx: "\<forall>i \<in> set idxs. sane (reqs ! i)" using sane by auto
  have "length idxs \<le> length reqs" unfolding idxs_def using length_filter_le by (metis length_upt diff_zero)
  then have ilen: "int (length idxs) \<le> max_int64" using len by (simp add: reqs_def)
  have sen: "\<forall>(i, request) \<in> set (enumerate 0 reqs). sane request"
    using sane by (auto simp: in_set_enumerate_eq)
  from maps obtain gpuMap rest where gm: "gpuMaps = gpuMap # rest" by (cases gpuMaps) auto
  obtain samegpuCard pref0 used1 where
    loop: "containers_loop ord tileStatus m capacity node pod gpuMaps idxs samegpuCard (enumerate 0 reqs) [] pref0 used1 [] =
      Some (Inr (cc, pref))"
    and same: "if 0 < length idxs
      then getCardForSamegpu m idxs reqs capacity node pod gpuMap used = Some (Inr (samegpuCard, pref0), used1)
      else samegpuCard = [] \<and> used1 = used"
    using eq unfolding checkForSpaceResourceRequests_def names sum.case cr gm
    by (auto split: bind_splits sum.splits if_splits)
  have aside: "requested_cards gpuMaps samegpuCard" "grows capacity used used1"
    "card_amount used g res + samegpu_charge g res idxs samegpuCard (enumerate 0 reqs) \<le> card_amount used1 g res" for g res
    using samegpu_set_aside [OF same _ ok ilen sidx idxs_def, of gpuMaps] gm by auto
  from containers_loop_spec [OF loop xe maps grows_ok [OF aside(2)] sen] obtain new used' where
    n: "cc = [] @ new" "length new = length (enumerate 0 reqs)" "grows capacity used1 used'"
    "\<forall>cs \<in> set new. cs = samegpuCard \<or> requested_cards gpuMaps cs"
    "\<And>g res. card_amount used1 g res + cards_charge g res (zip (map snd (enumerate 0 reqs)) new) \<le>
       card_amount used' g res + samegpu_charge g res idxs samegpuCard (enumerate 0 reqs)"
    by blast
  have "card_amount used g res + cards_charge g res (zip reqs new) \<le> card_amount used' g res" for g res
    using n(5) [of g res] aside(3) [of g res] by simp
  then show ?thesis using n(1,2,4) aside(1) grows_trans [OF aside(2) n(3)] by (auto simp: reqs_def)
qed

lemma assignment_fits:
  assumes "checkForSpaceResourceRequests ord tileStatus m capacity pod node used gpuMaps = Some (Inr (cc, pref))"
    and "nil_get (pod_annotations pod) xelinkAnnotationName = None"
    and "gpuMaps \<noteq> []" "node_ok used" "pod_sane pod" "int (length (containers pod)) \<le> max_int64"
  shows "length cc = length (containers pod) \<and>
    (\<forall>cs \<in> set cc. distinct (map card_gpuName cs) \<and>
       set (map card_gpuName cs) \<subseteq> (\<Union>gpuMap \<in> set gpuMaps. set gpuMap)) \<and>
    (\<forall>g res. 0 < cards_charge g res (zip (snd (containerRequests pod [])) cc) \<longrightarrow>
       card_amount used g res + cards_charge g res (zip (snd (containerRequests pod [])) cc) \<le> amount capacity res)"
proof -
  note c = checkForSpaceResourceRequests_charges [OF assms]
  then obtain used' where u: "grows capacity used used'"
    "\<And>g res. card_amount used g res + cards_charge g res (zip (snd (containerRequests pod [])) cc) \<le>
       card_amount used' g res"
    by (auto simp: containerRequests_def)
  have "card_amount used g res + cards_charge g res (zip (snd (containerRequests pod [])) cc) \<le> amount capacity res"
    if "0 < cards_charge g res (zip (snd (containerRequests pod [])) cc)" for g res
    using that u(1) u(2) [of g res] unfolding grows_def by (smt (verit))
  moreover have "distinct (map card_gpuName cs) \<and>
      set (map card_gpuName cs) \<subseteq> (\<Union>gpuMap \<in> set gpuMaps. set gpuMap)" if "cs \<in> set cc" for cs
  proof -
    from that c have "requested_cards gpuMaps cs" by blast
    then obtain new where "cs = plain_cards new" "distinct new"
      "set new \<subseteq> (\<Union>gpuMap \<in> set gpuMaps. set gpuMap)" unfolding requested_cards_def by blast
    then show ?thesis by (simp only: plain_cards_simps simp_thms)
  qed
  ultimately show ?thesis using c by blast
qed


definition shared_pod :: pod where
  "shared_pod = sample_pod\<lparr>pod_annotations := Some [(''gas-same-gpu'', ''a,b'')],
     containers := [\<lparr>container_name = ''a'', requests = [(''gpu.intel.com/i915'', 1)]\<rparr>,
       \<lparr>container_name = ''b'', requests = [(''gpu.intel.com/i915'', 1), (''gpu.intel.com/mem'', 5)]\<rparr>]\<rparr>"


end
