(* ===== verification/Gpu_XeLink.thy ===== *)
theory Gpu_XeLink
  imports Gpu_Alloc
begin

text \<open>
  GPUs with an Xe link (\<^verbatim>\<open>getXELinkedCardsForContainerGPURequest\<close> of \<^verbatim>\<open>scheduler.go\<close>): the cards of a
  container come in pairs that the node's label links tile by tile, the tiles are free, and no GPU
  serves two pairs.
\<close>

subsection \<open>Tiles that may be taken\<close>

lemma combineMappings_contains:
  "set (gm_getd [] dest g) \<union> set (gm_getd [] source g) \<subseteq> set (gm_getd [] (combineMappings source dest) g)"
proof (induction source arbitrary: dest)
  case (Cons x source)
  obtain h tiles where x: "x = (h, tiles)" by (cases x)
  have "set (gm_getd [] (gm_append h tiles dest) g) \<union> set (gm_getd [] source g) \<subseteq>
      set (gm_getd [] (combineMappings (x # source) dest) g)"
    using Cons.IH [of "gm_append h tiles dest"] by (simp add: combineMappings_def x)
  then show ?case by (auto simp: x split: if_splits)
qed (simp add: combineMappings_def)

text \<open>A tile that no label disables, no pod uses and no container of the pod was given.\<close>

definition tile_free :: "(string \<Rightarrow> node_tiles) \<Rightarrow> node \<Rightarrow> int \<Rightarrow> node_tiles \<Rightarrow> string \<Rightarrow> int \<Rightarrow> bool" where
  "tile_free tileStatus node tilesPerGpu alloc g tile \<longleftrightarrow>
     tile \<notin> set (gm_getd [] alloc g) \<and> tile \<notin> set (gm_getd [] (tileStatus (node_name node)) g) \<and>
     tile \<notin> set (gm_getd [] (sanitizeTiles (createDisabledTileMapping (node_labels node)) tilesPerGpu) g)"

lemma available_free:
  assumes ord: "range_order ord"
    and eq: "createAvailableXeLinkedTilesStat ord tileStatus node tilesPerGpu gpuNames alloc = Some available"
  shows "\<forall>g. \<forall>tile \<in> set (gm_getd [] available g). tile_free tileStatus node tilesPerGpu alloc g tile"
proof -
  let ?un = "createUnavailableTilesStat tileStatus node tilesPerGpu alloc"
  have free: "tile_free tileStatus node tilesPerGpu alloc g tile" if "tile \<notin> set (gm_getd [] ?un g)" for g tile
  proof -
    have "set (gm_getd [] alloc g) \<union> set (gm_getd [] (tileStatus (node_name node)) g) \<union>
        set (gm_getd [] (sanitizeTiles (createDisabledTileMapping (node_labels node)) tilesPerGpu) g) \<subseteq>
        set (gm_getd [] ?un g)"
      unfolding createUnavailableTilesStat_def Let_def
      by (meson combineMappings_contains le_sup_iff subset_trans)
    with that show ?thesis by (auto simp: tile_free_def)
  qed
  show ?thesis
    using eq unfolding createAvailableXeLinkedTilesStat_def Let_def
  proof (rule ofold_invariant)
    fix x s s'
    assume "\<forall>g. \<forall>tile \<in> set (gm_getd [] s g). tile_free tileStatus node tilesPerGpu alloc g tile"
      and "(do {
             gpuAvailableTiles \<leftarrow> getXeLinkedTiles x node;
             Some (AList.update x (ord (filter (\<lambda>index. index \<notin> set (gm_getd [] ?un x)) gpuAvailableTiles)) s)
           }) = Some s'"
    then show "\<forall>g. \<forall>tile \<in> set (gm_getd [] s' g). tile_free tileStatus node tilesPerGpu alloc g tile"
      using free by (auto simp: range_order_set [OF ord] split: bind_splits if_splits)
  qed simp
qed

subsection \<open>One pair\<close>

text \<open>A link: a GPU and its tile, the linked GPU and its tile.\<close>

type_synonym xe_link = "string \<times> int \<times> string \<times> int"

definition link_gpus :: "xe_link \<Rightarrow> string set" where
  "link_gpus link = (case link of (g, t, g', t') \<Rightarrow> {g, g'})"

definition link_cards :: "xe_link \<Rightarrow> gas_card list" where
  "link_cards link = (case link of (g, t, g', t') \<Rightarrow>
     [\<lparr>card_gpuName = g, card_xeLinkedTileIds = [t]\<rparr>, \<lparr>card_gpuName = g', card_xeLinkedTileIds = [t']\<rparr>])"

definition link_ok ::
  "(string \<Rightarrow> node_tiles) \<Rightarrow> gas_extender \<Rightarrow> node \<Rightarrow> pod \<Rightarrow> resource_map \<Rightarrow> resource_map \<Rightarrow>
   string search_map \<Rightarrow> node_resources \<Rightarrow> node_tiles \<Rightarrow> xe_link \<Rightarrow> bool" where
  "link_ok tileStatus m node pod request capacity gpuMap used alloc link \<longleftrightarrow>
     (case link of (g, t, g', t') \<Rightarrow>
        getXeLinkedGPUInfo g t node = Some (g', t') \<and>
        tile_free tileStatus node (amount capacity gpuTileResource) alloc g t \<and>
        tile_free tileStatus node (amount capacity gpuTileResource) alloc g' t' \<and>
        (\<forall>h \<in> {g, g'}. h \<in> set gpuMap \<and> usable m node pod h \<and> fits request capacity (gm_getd [] used h)))"

lemma checkGpuAvailability_True: "checkGpuAvailability m g node pod usedMap gpuMap = Some True \<longleftrightarrow>
    g \<notin> set usedMap \<and> g \<in> set gpuMap \<and> usable m node pod g"
  by (auto simp: checkGpuAvailability_def usable_def)

lemma find_linked_tile_Some:
  "find_linked_tile m node pod request capacity used available gpuMap usedMap g tiles = Some (Some (t, g', t')) \<Longrightarrow>
     t \<in> set tiles \<and> getXeLinkedGPUInfo g t node = Some (g', t') \<and> t' \<in> set (gm_getd [] available g') \<and>
     g' \<notin> set usedMap \<and> g' \<in> set gpuMap \<and> usable m node pod g' \<and> fits request capacity (gm_getd [] used g')"
  by (induction tiles)
    (auto simp: checkGpuAvailability_True checkResourceCapacity_fits split: bind_splits if_splits)

lemma find_linked_pair_Some:
  "find_linked_pair m node pod request capacity used available gpuMap usedMap gpuNames = Some (Some (g, t, g', t')) \<Longrightarrow>
     t \<in> set (gm_getd [] available g) \<and> t' \<in> set (gm_getd [] available g') \<and>
     getXeLinkedGPUInfo g t node = Some (g', t') \<and>
     (\<forall>h \<in> {g, g'}. h \<notin> set usedMap \<and> h \<in> set gpuMap \<and> usable m node pod h \<and>
       fits request capacity (gm_getd [] used h))"
proof (induction gpuNames)
  case (Cons gpuName gpuNames)
  obtain available' linked where a: "checkGpuAvailability m gpuName node pod usedMap gpuMap = Some available'"
    and l: "(if available' \<and> checkResourceCapacity request capacity (gm_getd [] used gpuName)
       then find_linked_tile m node pod request capacity used available gpuMap usedMap gpuName
              (gm_getd [] available gpuName)
       else Some None) = Some linked"
    using Cons.prems by (auto split: bind_splits)
  show ?case
  proof (cases linked)
    case None
    with Cons.prems a l have "find_linked_pair m node pod request capacity used available gpuMap usedMap gpuNames =
        Some (Some (g, t, g', t'))" by simp
    then show ?thesis by (rule Cons.IH)
  next
    case (Some link)
    with Cons.prems a l have link: "link = (t, g', t')" "gpuName = g" by (auto split: prod.splits)
    with l Some have "available'" "fits request capacity (gm_getd [] used g)"
      "find_linked_tile m node pod request capacity used available gpuMap usedMap g (gm_getd [] available g) =
         Some (Some (t, g', t'))"
      by (auto simp: checkResourceCapacity_fits split: if_splits)
    with find_linked_tile_Some [OF this(3)] a link(2) show ?thesis by (auto simp: checkGpuAvailability_True)
  qed
qed simp

subsection \<open>All pairs\<close>

lemma charge_gpu_other:
  "charge_gpu used g request = Some used' \<Longrightarrow> j \<noteq> g \<Longrightarrow> gm_getd [] used' j = gm_getd [] used j"
  by (auto simp: charge_gpu_def split: sum.splits option.splits if_splits)

lemma findXeLinkedGPUPair_Inr:
  assumes "findXeLinkedGPUPair m gpuNames node pod used available alloc request capacity gpuMap usedMap =
      Some (Inr cardPair, used', alloc', usedMap')"
    and ord: "range_order ord"
    and "createAvailableXeLinkedTilesStat ord tileStatus node (amount capacity gpuTileResource) gpuNames alloc =
      Some available"
  obtains link where "cardPair = link_cards link" "link_ok tileStatus m node pod request capacity gpuMap used alloc link"
    "link_gpus link \<inter> set usedMap = {}" "set usedMap' = link_gpus link \<union> set usedMap"
    "\<And>g. set (gm_getd [] alloc g) \<subseteq> set (gm_getd [] alloc' g)"
    "\<And>g. g \<notin> link_gpus link \<Longrightarrow> gm_getd [] used' g = gm_getd [] used g"
proof -
  obtain g t g' t' used1 where p: "find_linked_pair m node pod request capacity used available gpuMap usedMap gpuNames =
      Some (Some (g, t, g', t'))" and c: "charge_gpu used g request = Some used1" "charge_gpu used1 g' request = Some used'"
    and r: "cardPair = link_cards (g, t, g', t')" "usedMap' = List.insert g' (List.insert g usedMap)"
      "alloc' = fold (\<lambda>gcard tiles. gm_append (card_gpuName gcard) (card_xeLinkedTileIds gcard) tiles) cardPair alloc"
    using assms(1) by (auto simp: findXeLinkedGPUPair_def link_cards_def Let_def split: bind_splits option.splits)
  note l = find_linked_pair_Some [OF p]
  have "link_ok tileStatus m node pod request capacity gpuMap used alloc (g, t, g', t')"
    using l available_free [OF ord assms(3)] by (auto simp: link_ok_def)
  moreover have "gm_getd [] used' h = gm_getd [] used h" if "h \<notin> {g, g'}" for h
    using that charge_gpu_other [OF c(1), of h] charge_gpu_other [OF c(2), of h] by simp
  ultimately show thesis
    using l r by (intro that [of "(g, t, g', t')"]) (auto simp: link_gpus_def link_cards_def)
qed

lemma link_ok_mono:
  assumes "link_ok tileStatus m node pod request capacity gpuMap used' alloc' link"
    and "\<And>g. set (gm_getd [] alloc g) \<subseteq> set (gm_getd [] alloc' g)"
    and "\<And>g. g \<in> link_gpus link \<Longrightarrow> gm_getd [] used' g = gm_getd [] used g"
  shows "link_ok tileStatus m node pod request capacity gpuMap used alloc link"
  using assms by (auto simp: link_ok_def link_gpus_def tile_free_def split: prod.splits)

lemma xe_pairs_loop_spec:
  assumes ord: "range_order ord"
  shows "xe_pairs_loop n ord tileStatus m node pod request capacity gpuMap usedMap cards preferredCard used alloc =
      Some (Inr (cards', pref), used', alloc') \<Longrightarrow>
    \<exists>links. cards' = cards @ concat (map link_cards links) \<and> length links = n \<and>
      (\<forall>link \<in> set links. link_ok tileStatus m node pod request capacity gpuMap used alloc link \<and>
         link_gpus link \<inter> set usedMap = {}) \<and>
      sorted_wrt (\<lambda>a b. link_gpus a \<inter> link_gpus b = {}) links"
proof (induction n arbitrary: usedMap cards preferredCard used alloc)
  case 0
  then show ?case by simp
next
  case (Suc n)
  obtain gpuNames preferred1 where cand: "candidates m node used = (gpuNames, preferred1)" by fastforce
  from Suc.prems cand obtain available cardPair used1 alloc1 usedMap1 where
    av: "createAvailableXeLinkedTilesStat ord tileStatus node (amount capacity gpuTileResource) gpuNames alloc = Some available"
    and fp: "findXeLinkedGPUPair m gpuNames node pod used available alloc request capacity gpuMap usedMap =
      Some (Inr cardPair, used1, alloc1, usedMap1)"
    and rest: "xe_pairs_loop n ord tileStatus m node pod request capacity gpuMap usedMap1 (cards @ cardPair) preferred1
      used1 alloc1 = Some (Inr (cards', pref), used', alloc')"
    by (auto simp: amount_def split: bind_splits sum.splits)
  from findXeLinkedGPUPair_Inr [OF fp ord av] obtain link where
    link: "cardPair = link_cards link" "link_ok tileStatus m node pod request capacity gpuMap used alloc link"
    "link_gpus link \<inter> set usedMap = {}" "set usedMap1 = link_gpus link \<union> set usedMap"
    "\<And>g. set (gm_getd [] alloc g) \<subseteq> set (gm_getd [] alloc1 g)"
    "\<And>g. g \<notin> link_gpus link \<Longrightarrow> gm_getd [] used1 g = gm_getd [] used g" by metis
  from Suc.IH [OF rest] obtain links where
    ih: "cards' = (cards @ cardPair) @ concat (map link_cards links)" "length links = n"
    "\<And>l. l \<in> set links \<Longrightarrow> link_ok tileStatus m node pod request capacity gpuMap used1 alloc1 l"
    "\<And>l. l \<in> set links \<Longrightarrow> link_gpus l \<inter> set usedMap1 = {}"
    "sorted_wrt (\<lambda>a b. link_gpus a \<inter> link_gpus b = {}) links" by blast
  have sep: "link_gpus link \<inter> link_gpus l = {}" "link_gpus l \<inter> set usedMap = {}" if "l \<in> set links" for l
    using ih(4) [OF that] unfolding link(4) by blast+
  have "link_ok tileStatus m node pod request capacity gpuMap used alloc l" if "l \<in> set links" for l
    using link_ok_mono [OF ih(3) [OF that] link(5)] link(6) sep(1) [OF that] by blast
  with ih(1,2,5) link(1-3) sep show ?case
    by (intro exI [of _ "link # links"]) simp
qed

text \<open>C38: the cards of a container that asks for Xe-linked GPUs. There are as many as it requested, in
  pairs; the two tiles of a pair are the ends of a link of the node's label, neither is disabled, in
  use on the node or given out before; both GPUs may be used by the pod and had room for the
  container's share; and no GPU is in two pairs.\<close>

theorem getXELinkedCards_spec:
  assumes "getXELinkedCardsForContainerGPURequest ord tileStatus m request capacity node pod gpuMap used alloc =
      Some (Inr (cards, pref), used', alloc')"
    and "range_order ord"
  shows "\<exists>links. cards = concat (map link_cards links) \<and> int (2 * length links) = getNumGPUReq request \<and>
    (\<forall>link \<in> set links. link_ok tileStatus m node pod (share request) capacity gpuMap used alloc link) \<and>
    sorted_wrt (\<lambda>a b. link_gpus a \<inter> link_gpus b = {}) links"
proof (cases "request = []")
  case True
  with assms(1) show ?thesis
    by (intro exI [of _ "[]"]) (auto simp: getXELinkedCardsForContainerGPURequest_def getNumGPUReq_def getPluginResourceName_def)
next
  case False
  with assms(1) have even: "getNumGPUReq request mod 2 = 0"
    and l: "xe_pairs_loop (nat (getNumGPUReq request div 2)) ord tileStatus m node pod (share request) capacity gpuMap
      [] [] [] used alloc = Some (Inr (cards, pref), used', alloc')"
    by (auto simp: getXELinkedCardsForContainerGPURequest_def getPerGPUResourceRequest_eq split: if_splits)
  from xe_pairs_loop_spec [OF assms(2) l] obtain links where links: "cards = concat (map link_cards links)"
    "length links = nat (getNumGPUReq request div 2)"
    "\<forall>link \<in> set links. link_ok tileStatus m node pod (share request) capacity gpuMap used alloc link"
    "sorted_wrt (\<lambda>a b. link_gpus a \<inter> link_gpus b = {}) links" by auto
  moreover have "int (2 * length links) = getNumGPUReq request"
    using even links(2) getNumGPUReq_nonneg [of request] by (simp add: mod_eq_0_iff_dvd)
  ultimately show ?thesis by blast
qed

definition linked_node :: node where
  "linked_node = \<lparr>node_name = ''n1'', node_labels = Some [(''gpu.intel.com/gpu-numbers'', ''0.1''),
     (''gpu.intel.com/xe-links'', ''0.0-1.0_0.1-1.1'')], node_capacity = [],
     node_allocatable = [(''gpu.intel.com/i915'', 2), (''gpu.intel.com/tiles'', 4)]\<rparr>"

theorem getXELinkedCards_spec_witness:
  "\<exists>cards pref used' alloc' links. getXELinkedCardsForContainerGPURequest id (\<lambda>n. [(''card0'', [0])]) plain_extender
     [(''gpu.intel.com/i915'', 2)] [(''gpu.intel.com/i915'', 1), (''gpu.intel.com/tiles'', 2)] linked_node sample_pod
     [''card0'', ''card1''] [(''card0'', []), (''card1'', [])] [] = Some (Inr (cards, pref), used', alloc') \<and>
     cards = concat (map link_cards links) \<and> length links = 1"
    (is "\<exists>cards pref used' alloc' links. ?call = Some (Inr (cards, pref), used', alloc') \<and> _")
proof -
  have "map_option (\<lambda>(r, u, a). isl r) ?call = Some False" by code_simp
  then obtain cards pref used' alloc' where r: "?call = Some (Inr (cards, pref), used', alloc')"
    by (auto simp: isl_def split: sum.splits) (metis old.sum.exhaust surj_pair)
  have "getNumGPUReq [(''gpu.intel.com/i915'', 2)] = 2" by code_simp
  with getXELinkedCards_spec [OF r range_order_id] r show ?thesis by fastforce
qed

end
