(* ===== verification/Http.thy ===== *)
theory Http
  imports Go_Strings
begin

text \<open>
  The part of \<^verbatim>\<open>net/http\<close> that the handlers use: a response writer with its header map, whose
  status can be set once and is 200 when a body is written without one, and \<^verbatim>\<open>http.Error\<close> (of Go 1.21).
\<close>

record http_writer =
  w_header :: "(string, string list) gomap"
  w_status :: "int option"
  w_body :: string

definition new_writer :: http_writer where
  "new_writer = \<lparr>w_header = [], w_status = None, w_body = []\<rparr>"

definition header_set :: "string \<Rightarrow> string \<Rightarrow> http_writer \<Rightarrow> http_writer" where
  "header_set key v w = w\<lparr>w_header := AList.update key [v] (w_header w)\<rparr>"

definition header_add :: "string \<Rightarrow> string \<Rightarrow> http_writer \<Rightarrow> http_writer" where
  "header_add key v w = w\<lparr>w_header := AList.update key (gm_getd [] (w_header w) key @ [v]) (w_header w)\<rparr>"

definition write_header :: "int \<Rightarrow> http_writer \<Rightarrow> http_writer" where
  "write_header code w = (case w_status w of None \<Rightarrow> w\<lparr>w_status := Some code\<rparr> | Some _ \<Rightarrow> w)"

definition write_body :: "string \<Rightarrow> http_writer \<Rightarrow> http_writer" where
  "write_body s w = (let w = write_header 200 w in w\<lparr>w_body := w_body w @ s\<rparr>)"

definition http_error :: "string \<Rightarrow> int \<Rightarrow> http_writer \<Rightarrow> http_writer" where
  "http_error msg code w =
     (let w = header_set ''Content-Type'' ''text/plain; charset=utf-8'' w;
          w = header_set ''X-Content-Type-Options'' ''nosniff'' w
      in write_body (msg @ [char_of (10 :: nat)]) (write_header code w))"

text \<open>The status that the client sees: 200 when the handler set none.\<close>

definition answered :: "http_writer \<Rightarrow> int" where
  "answered w = (case w_status w of None \<Rightarrow> 200 | Some code \<Rightarrow> code)"

lemma write_header_once [simp]: "w_status w = Some s \<Longrightarrow> write_header code w = w"
  by (simp add: write_header_def)

lemma write_header_new [simp]: "write_header code new_writer = new_writer\<lparr>w_status := Some code\<rparr>"
  by (simp add: write_header_def new_writer_def)

lemma new_writer_simps [simp]: "w_status new_writer = None" "w_body new_writer = []" "w_header new_writer = []"
  by (simp_all add: new_writer_def)

lemma header_simps [simp]:
  "w_status (header_set k v w) = w_status w" "w_body (header_set k v w) = w_body w"
  "w_status (header_add k v w) = w_status w" "w_body (header_add k v w) = w_body w"
  by (simp_all add: header_set_def header_add_def)

lemma write_header_status [simp]:
  "w_status (write_header code w) = Some (case w_status w of None \<Rightarrow> code | Some c \<Rightarrow> c)"
  "w_body (write_header code w) = w_body w"
  by (simp_all add: write_header_def split: option.splits)

lemma write_body_status [simp]:
  "w_status (write_body s w) = Some (answered w)"
  "w_body (write_body s w) = w_body w @ s"
  by (simp_all add: write_body_def Let_def answered_def split: option.splits)

lemma http_error_status [simp]:
  "w_status (http_error msg code w) = Some (case w_status w of None \<Rightarrow> code | Some c \<Rightarrow> c)"
  "w_body (http_error msg code w) = w_body w @ msg @ [char_of (10 :: nat)]"
  by (simp_all add: http_error_def Let_def answered_def)

lemma answered_simps [simp]: "w_status w = Some code \<Longrightarrow> answered w = code" "w_status w = None \<Longrightarrow> answered w = 200"
  by (simp_all add: answered_def)

end
