(* ===== verification/Gpu_Bind.thy ===== *)
theory Gpu_Bind
  imports Gpu_Fit Http
begin

text \<open>
  The requests that GAS answers (\<^verbatim>\<open>scheduler.go\<close>): filtering the nodes of a pod and binding a pod to
  a node, with the HTTP handlers around them. The cache is used through \<^verbatim>\<open>CacheAPI\<close>
  (\<^verbatim>\<open>types.go\<close>), here the record \<open>cache_ops\<close>; \<open>gas_cache_ops\<close> is \<^verbatim>\<open>cacheAPI\<close> (\<^verbatim>\<open>cache_api.go\<close>), the
  implementation on the cache of \<^verbatim>\<open>Gpu_Cache\<close>. The extender's lock makes a request one step.
\<close>

subsection \<open>Interfaces\<close>

record 'c cache_ops =
  FetchNode :: "'c \<Rightarrow> string \<Rightarrow> gas_error + node"
  FetchPod :: "'c \<Rightarrow> string \<Rightarrow> string \<Rightarrow> gas_error + pod"
  GetNodeResourceStatus :: "'c \<Rightarrow> string \<Rightarrow> node_resources"
  GetNodeTileStatus :: "'c \<Rightarrow> string \<Rightarrow> node_tiles"
  AdjustPodResourcesL :: "'c \<Rightarrow> pod \<Rightarrow> bool \<Rightarrow> string \<Rightarrow> string \<Rightarrow> string \<Rightarrow> (gas_error + unit) \<times> 'c"

text \<open>The informers' stores, from which nodes and pods are fetched, are parameters.\<close>

definition gas_cache_ops ::
  "(int list \<Rightarrow> int list) \<Rightarrow> (string \<Rightarrow> string + node) \<Rightarrow> (string \<Rightarrow> string \<Rightarrow> string + pod) \<Rightarrow> cache cache_ops" where
  "gas_cache_ops ord get_node get_pod =
     \<lparr>FetchNode = (\<lambda>c nodeName. fetchNode get_node nodeName),
      FetchPod = (\<lambda>c podNs podName. fetchPod get_pod podNs podName),
      GetNodeResourceStatus = getNodeResourceStatus,
      GetNodeTileStatus = getNodeTileStatus,
      AdjustPodResourcesL = (\<lambda>c pod adj annotation tileAnnotation nodeName.
        adjustPodResourcesL ord pod adj annotation tileAnnotation nodeName c)\<rparr>"

record v1_binding =
  binding_pod :: string
  binding_uid :: string
  binding_node :: string

text \<open>The calls to Kubernetes, \<^const>\<open>Some\<close> text being their error, and the clock's time stamp.\<close>

record sched_api =
  api_patch :: "pod \<Rightarrow> patchValue list \<Rightarrow> string option"
  api_bind :: "string \<Rightarrow> v1_binding \<Rightarrow> string option"
  api_now :: string

datatype api_call = PatchPod pod "patchValue list" | BindPod string v1_binding

record bind_args =
  PodName :: string
  PodNamespace :: string
  PodUID :: string
  Node :: string

record extender_args =
  args_pod :: "pod option"
  NodeNames :: "string list option"

record filter_result =
  result_NodeNames :: "string list"
  FailedNodes :: "(string, string) gomap"
  result_Error :: string

definition tsAnnotationName :: string where "tsAnnotationName = ''gas-ts''"
definition metadataAnnotations :: string where "metadataAnnotations = ''/metadata/annotations/''"

fun error_text :: "gas_error \<Rightarrow> string" where
  "error_text ErrOverflow = ''integer overflow''"
| "error_text ErrInput = ''input error''"
| "error_text ErrUnknownAction = ''unknown action''"
| "error_text ErrBadArgs = ''bad args''"
| "error_text ErrNotFound = ''not found''"
| "error_text ErrEmptyBody = ''request body empty''"
| "error_text ErrDecode = ''error decoding request''"
| "error_text ErrWontFit = ''will not fit''"
| "error_text ErrExtractFail = ''failed to extract value(s)''"
| "error_text ErrBadUID = ''provided UID is incorrect''"
| "error_text ErrAnnotation = ''malformed annotation''"
| "error_text ErrResConflict = ''resources conflict''"
| "error_text (ErrLib text) = text"

subsection \<open>Binding\<close>

definition bind_payload :: "sched_api \<Rightarrow> string \<Rightarrow> string \<Rightarrow> pod \<Rightarrow> patchValue list" where
  "bind_payload api annotation tileAnnotation pod =
     (if pod_annotations pod = None
      then [\<lparr>patch_op = ''add'', patch_path = ''/metadata/annotations'', patch_value = JEmptyObject\<rparr>] else []) @
     [\<lparr>patch_op = ''add'', patch_path = metadataAnnotations @ tsAnnotationName,
       patch_value = JString (api_now api)\<rparr>,
      \<lparr>patch_op = ''add'', patch_path = metadataAnnotations @ cardAnnotationName,
       patch_value = JString annotation\<rparr>] @
     (if tileAnnotation \<noteq> []
      then [\<lparr>patch_op = ''add'', patch_path = metadataAnnotations @ tileAnnotationName,
             patch_value = JString tileAnnotation\<rparr>] else [])"

definition annotatePodBind ::
  "sched_api \<Rightarrow> string \<Rightarrow> string \<Rightarrow> pod \<Rightarrow> (gas_error + unit) \<times> api_call list" where
  "annotatePodBind api annotation tileAnnotation pod =
     (let payload = bind_payload api annotation tileAnnotation pod
      in (case api_patch api pod payload of
            None \<Rightarrow> Inr ()
          | Some err \<Rightarrow> Inl (ErrLib (''pod '' @ pod_name pod @ '' annotation failed: '' @ err)),
          [PatchPod pod payload]))"

definition retrievePod ::
  "'c cache_ops \<Rightarrow> 'c \<Rightarrow> string \<Rightarrow> string \<Rightarrow> string \<Rightarrow> gas_error + pod" where
  "retrievePod ops c podName podNamespace uid =
     (case FetchPod ops c podNamespace podName of
        Inl err \<Rightarrow> Inl (ErrLib (''could not retrieve pod '' @ podName @ '': '' @ error_text err))
      | Inr pod \<Rightarrow> if uid \<noteq> pod_uid pod then Inl ErrBadUID else Inr pod)"

definition getNodeForName :: "'c cache_ops \<Rightarrow> 'c \<Rightarrow> string \<Rightarrow> gas_error + node" where
  "getNodeForName ops c name =
     (case FetchNode ops c name of
        Inl err \<Rightarrow> Inl (ErrLib (''error reading node '' @ name @ '': '' @ error_text err))
      | Inr node \<Rightarrow> Inr node)"

definition createV1Binding :: "bind_args \<Rightarrow> v1_binding" where
  "createV1Binding args =
     \<lparr>binding_pod = PodName args, binding_uid = PodUID args, binding_node = Node args\<rparr>"

text \<open>
  The result is the error whose text becomes \<^verbatim>\<open>result.Error\<close>. The deferred error handler gives the
  resources back if they had been taken.
\<close>

definition bindNode ::
  "(int list \<Rightarrow> int list) \<Rightarrow> 'c cache_ops \<Rightarrow> gas_extender \<Rightarrow> sched_api \<Rightarrow> bind_args \<Rightarrow> 'c \<Rightarrow>
   (gas_error option \<times> 'c \<times> api_call list) option" where
  "bindNode ord ops m api args c =
     (case retrievePod ops c (PodName args) (PodNamespace args) (PodUID args) of
        Inl err \<Rightarrow> Some (Some err, c, [])
      | Inr pod \<Rightarrow>
          (case getNodeForName ops c (Node args) of
             Inl err \<Rightarrow> Some (Some err, c, [])
           | Inr node \<Rightarrow> do {
               fit \<leftarrow> checkForSpaceAndRetrieveCards ord (GetNodeTileStatus ops c) (GetNodeResourceStatus ops c) m
                 (Some pod) (Some node);
               case fit of
                 Inl err \<Rightarrow> Some (Some err, c, [])
               | Inr (cards, _) \<Rightarrow> do {
                   (annotation, tileAnnotation) \<leftarrow>
                     convertNodeCardsToAnnotations ord (GetNodeTileStatus ops c) pod node cards;
                   if annotation = [] then Some (None, c, [])
                   else
                     let undo = (\<lambda>c. snd (AdjustPodResourcesL ops c pod False annotation tileAnnotation (Node args)))
                     in case AdjustPodResourcesL ops c pod True annotation tileAnnotation (Node args) of
                          (Inl err, c) \<Rightarrow> Some (Some err, c, [])
                        | (Inr _, c) \<Rightarrow>
                            (case annotatePodBind api annotation tileAnnotation pod of
                               (Inl err, calls) \<Rightarrow> Some (Some err, undo c, calls)
                             | (Inr _, calls) \<Rightarrow>
                                 let call = BindPod (PodNamespace args) (createV1Binding args)
                                 in case api_bind api (PodNamespace args) (createV1Binding args) of
                                      Some err \<Rightarrow> Some (Some (ErrLib err), undo c, calls @ [call])
                                    | None \<Rightarrow> Some (None, c, calls @ [call]))
                 }
             }))"

subsection \<open>Filtering\<close>

definition createFilterResult :: filter_result where
  "createFilterResult = \<lparr>result_NodeNames = [], FailedNodes = [], result_Error = []\<rparr>"

fun filter_loop ::
  "(int list \<Rightarrow> int list) \<Rightarrow> 'c cache_ops \<Rightarrow> gas_extender \<Rightarrow> 'c \<Rightarrow> pod option \<Rightarrow> string list \<Rightarrow>
   string list \<Rightarrow> string list \<Rightarrow> (string, string) gomap \<Rightarrow>
   (string list \<times> string list \<times> (string, string) gomap) option" where
  "filter_loop ord ops m c podptr [] nodeNames preferredNodeNames failedNodes =
     Some (nodeNames, preferredNodeNames, failedNodes)"
| "filter_loop ord ops m c podptr (nodeName # names) nodeNames preferredNodeNames failedNodes =
     (case getNodeForName ops c nodeName of
        Inl err \<Rightarrow> filter_loop ord ops m c podptr names nodeNames preferredNodeNames
          (AList.update nodeName ''Couldn't retrieve node's information'' failedNodes)
      | Inr node \<Rightarrow> do {
          fit \<leftarrow> checkForSpaceAndRetrieveCards ord (GetNodeTileStatus ops c) (GetNodeResourceStatus ops c) m
            podptr (Some node);
          case fit of
            Inr (_, preferred) \<Rightarrow>
              if preferred
              then filter_loop ord ops m c podptr names nodeNames (preferredNodeNames @ [nodeName]) failedNodes
              else filter_loop ord ops m c podptr names (nodeNames @ [nodeName]) preferredNodeNames failedNodes
          | Inl err \<Rightarrow> filter_loop ord ops m c podptr names nodeNames preferredNodeNames
              (AList.update nodeName
                (''Not enough GPU-resources for deployment: '' @ error_text err) failedNodes)
        })"

text \<open>A nil pod panics in the log statement before the loop.\<close>

definition filterNodes ::
  "(int list \<Rightarrow> int list) \<Rightarrow> 'c cache_ops \<Rightarrow> gas_extender \<Rightarrow> 'c \<Rightarrow> extender_args \<Rightarrow> filter_result option" where
  "filterNodes ord ops m c args =
     (let result = createFilterResult
      in case NodeNames args of
           None \<Rightarrow> Some (result\<lparr>result_Error := ''No nodes to compare. This should not happen, perhaps the extender is misconfigured with NodeCacheCapable == false.''\<rparr>)
         | Some names \<Rightarrow>
             if length names = 0
             then Some (result\<lparr>result_Error := ''No nodes to compare. This should not happen, perhaps the extender is misconfigured with NodeCacheCapable == false.''\<rparr>)
             else if args_pod args = None then None
             else do {
               (nodeNames, preferredNodeNames, failedNodes) \<leftarrow> filter_loop ord ops m c (args_pod args) names [] [] [];
               Some \<lparr>result_NodeNames = (if 0 < length preferredNodeNames then preferredNodeNames else nodeNames),
                     FailedNodes = failedNodes, result_Error = []\<rparr>
             })"

subsection \<open>Handlers\<close>

text \<open>
  The body of a request, nil or some text, is decoded by the JSON decoder; closing it may fail.
  A result is written by the JSON encoder.
\<close>

definition decodeRequest :: "(string \<Rightarrow> 'a option) \<Rightarrow> string option \<Rightarrow> string option \<Rightarrow> gas_error + 'a" where
  "decodeRequest decode close_error body =
     (case body of
        None \<Rightarrow> Inl ErrEmptyBody
      | Some text \<Rightarrow>
          (case decode text of
             None \<Rightarrow> Inl ErrDecode
           | Some args \<Rightarrow>
               (case close_error of
                  Some err \<Rightarrow> Inl (ErrLib (''failed to close request body: '' @ err))
                | None \<Rightarrow> Inr args)))"

definition writeResponse :: "('a \<Rightarrow> string option) \<Rightarrow> 'a \<Rightarrow> http_writer \<Rightarrow> http_writer" where
  "writeResponse encode result w =
     (case encode result of
        Some text \<Rightarrow> write_body text w
      | None \<Rightarrow> http_error ''Encode error'' 400 w)"

definition Prioritize :: "http_writer \<Rightarrow> http_writer" where
  "Prioritize w = write_header 404 w"

definition Filter ::
  "(int list \<Rightarrow> int list) \<Rightarrow> 'c cache_ops \<Rightarrow> gas_extender \<Rightarrow> (string \<Rightarrow> extender_args option) \<Rightarrow>
   (filter_result \<Rightarrow> string option) \<Rightarrow> string option \<Rightarrow> string option \<Rightarrow> 'c \<Rightarrow> http_writer \<Rightarrow> http_writer option" where
  "Filter ord ops m decode encode close_error body c w =
     (case decodeRequest decode close_error body of
        Inl err \<Rightarrow> Some (write_header 404 w)
      | Inr args \<Rightarrow> do {
          filteredNodes \<leftarrow> filterNodes ord ops m c args;
          let w = (if result_Error filteredNodes \<noteq> [] then write_header 404 w else w);
          Some (writeResponse encode filteredNodes w)
        })"

definition Bind ::
  "(int list \<Rightarrow> int list) \<Rightarrow> 'c cache_ops \<Rightarrow> gas_extender \<Rightarrow> sched_api \<Rightarrow> (string \<Rightarrow> bind_args option) \<Rightarrow>
   (string \<Rightarrow> string option) \<Rightarrow> string option \<Rightarrow> string option \<Rightarrow> 'c \<Rightarrow> http_writer \<Rightarrow>
   (http_writer \<times> 'c \<times> api_call list) option" where
  "Bind ord ops m api decode encode close_error body c w =
     (case decodeRequest decode close_error body of
        Inl err \<Rightarrow> Some (write_header 404 w, c, [])
      | Inr args \<Rightarrow> do {
          (error, c, calls) \<leftarrow> bindNode ord ops m api args c;
          let result = (case error of None \<Rightarrow> [] | Some err \<Rightarrow> error_text err);
          let w = (if result \<noteq> [] then write_header 404 w else w);
          Some (writeResponse encode result w, c, calls)
        })"

definition errorHandler :: "http_writer \<Rightarrow> http_writer" where
  "errorHandler w = write_header 404 (header_add ''Content-Type'' ''application/json'' w)"

subsection \<open>The outcomes of a bind request\<close>

text \<open>The part of \<^verbatim>\<open>bindNode\<close> after the annotations are known.\<close>

definition bind_commit ::
  "'c cache_ops \<Rightarrow> sched_api \<Rightarrow> bind_args \<Rightarrow> pod \<Rightarrow> string \<Rightarrow> string \<Rightarrow> 'c \<Rightarrow>
   (gas_error option \<times> 'c \<times> api_call list) option" where
  "bind_commit ops api args pod annotation tileAnnotation c =
     (let undo = (\<lambda>c. snd (AdjustPodResourcesL ops c pod False annotation tileAnnotation (Node args)))
      in case AdjustPodResourcesL ops c pod True annotation tileAnnotation (Node args) of
           (Inl err, c) \<Rightarrow> Some (Some err, c, [])
         | (Inr _, c) \<Rightarrow>
             (case annotatePodBind api annotation tileAnnotation pod of
                (Inl err, calls) \<Rightarrow> Some (Some err, undo c, calls)
              | (Inr _, calls) \<Rightarrow>
                  let call = BindPod (PodNamespace args) (createV1Binding args)
                  in case api_bind api (PodNamespace args) (createV1Binding args) of
                       Some err \<Rightarrow> Some (Some (ErrLib err), undo c, calls @ [call])
                     | None \<Rightarrow> Some (None, c, calls @ [call])))"

lemma bindNode_commit: "bindNode ord ops m api args c =
     (case retrievePod ops c (PodName args) (PodNamespace args) (PodUID args) of
        Inl err \<Rightarrow> Some (Some err, c, [])
      | Inr pod \<Rightarrow>
          (case getNodeForName ops c (Node args) of
             Inl err \<Rightarrow> Some (Some err, c, [])
           | Inr node \<Rightarrow> do {
               fit \<leftarrow> checkForSpaceAndRetrieveCards ord (GetNodeTileStatus ops c) (GetNodeResourceStatus ops c) m
                 (Some pod) (Some node);
               case fit of
                 Inl err \<Rightarrow> Some (Some err, c, [])
               | Inr (cards, _) \<Rightarrow> do {
                   (annotation, tileAnnotation) \<leftarrow>
                     convertNodeCardsToAnnotations ord (GetNodeTileStatus ops c) pod node cards;
                   if annotation = [] then Some (None, c, [])
                   else bind_commit ops api args pod annotation tileAnnotation c
                 }
             }))"
  unfolding bindNode_def bind_commit_def ..

lemma bind_commit_cases:
  assumes "bind_commit ops api args pod annotation tileAnnotation c = Some (error, c', calls)"
  obtains (adjust) err where "error = Some err"
      "AdjustPodResourcesL ops c pod True annotation tileAnnotation (Node args) = (Inl err, c')"
  | (undone) err c1 where "error = Some err"
      "AdjustPodResourcesL ops c pod True annotation tileAnnotation (Node args) = (Inr (), c1)"
      "c' = snd (AdjustPodResourcesL ops c1 pod False annotation tileAnnotation (Node args))"
  | (bound) "error = None"
      "AdjustPodResourcesL ops c pod True annotation tileAnnotation (Node args) = (Inr (), c')"
      "calls = [PatchPod pod (bind_payload api annotation tileAnnotation pod),
         BindPod (PodNamespace args) (createV1Binding args)]"
      "api_bind api (PodNamespace args) (createV1Binding args) = None"
proof -
  obtain r c1 where adj: "AdjustPodResourcesL ops c pod True annotation tileAnnotation (Node args) = (r, c1)"
    by fastforce
  show thesis
  proof (cases r)
    case (Inl err)
    with assms adj have "error = Some err" "c' = c1" by (auto simp: bind_commit_def)
    with adj Inl adjust show ?thesis by blast
  next
    case (Inr u)
    then have adj: "AdjustPodResourcesL ops c pod True annotation tileAnnotation (Node args) = (Inr (), c1)"
      using adj by simp
    with assms undone [OF _ this] bound show ?thesis
      by (auto simp: bind_commit_def annotatePodBind_def Let_def split: option.splits)
  qed
qed

lemma bind_cases:
  assumes "bindNode ord ops m api args c = Some (error, c', calls)"
  obtains (early) "c' = c" "calls = []"
  | (commit) pod node cards pref annotation tileAnnotation where "annotation \<noteq> []"
      "retrievePod ops c (PodName args) (PodNamespace args) (PodUID args) = Inr pod"
      "getNodeForName ops c (Node args) = Inr node"
      "checkForSpaceAndRetrieveCards ord (GetNodeTileStatus ops c) (GetNodeResourceStatus ops c) m
         (Some pod) (Some node) = Some (Inr (cards, pref))"
      "convertNodeCardsToAnnotations ord (GetNodeTileStatus ops c) pod node cards = Some (annotation, tileAnnotation)"
      "bind_commit ops api args pod annotation tileAnnotation c = Some (error, c', calls)"
  using assms unfolding bindNode_commit
  by (auto split: sum.splits bind_splits if_splits)

subsection \<open>What the scheduler relies on\<close>

text \<open>
  The contract of \<^verbatim>\<open>CacheAPI\<close>: \<open>used\<close>, \<open>tiles\<close> and \<open>counted\<close> are the amounts, the tiles and the pods
  that the cache holds; \<open>inv\<close> is its invariant. An adjustment that fails changes nothing; one that
  succeeds has the effect on the amounts of \<open>charge_eff\<close>; adding can be undone; the status calls
  report what is held.
\<close>

locale cache_api =
  fixes ops :: "'c cache_ops"
    and inv :: "'c \<Rightarrow> bool"
    and used :: "'c \<Rightarrow> string \<Rightarrow> string \<Rightarrow> string \<Rightarrow> int"
    and tiles :: "'c \<Rightarrow> string \<Rightarrow> string \<Rightarrow> int set"
    and counted :: "'c \<Rightarrow> string \<Rightarrow> string option"
  assumes adjust_failed: "inv c \<Longrightarrow> pod_sane pod \<Longrightarrow>
      AdjustPodResourcesL ops c pod adj annotation tileAnnotation nodeName = (Inl err, c') \<Longrightarrow> c' = c"
    and adjust_inv: "inv c \<Longrightarrow> pod_sane pod \<Longrightarrow>
      AdjustPodResourcesL ops c pod adj annotation tileAnnotation nodeName = (Inr u, c') \<Longrightarrow> inv c'"
    and adjust_used: "inv c \<Longrightarrow> pod_sane pod \<Longrightarrow>
      AdjustPodResourcesL ops c pod adj annotation tileAnnotation nodeName = (Inr u, c') \<Longrightarrow>
      used c' n cardName res = (if n = nodeName
        then charge_eff adj (used c n cardName res) (pod_charge pod annotation cardName res)
        else used c n cardName res)"
    and adjust_tiles: "inv c \<Longrightarrow> pod_sane pod \<Longrightarrow>
      AdjustPodResourcesL ops c pod adj annotation tileAnnotation nodeName = (Inr u, c') \<Longrightarrow>
      tiles c' n g = (if n = nodeName
        then tile_eff adj (tiles c n g) (annotation_tiles g tileAnnotation) else tiles c n g)"
    and adjust_counted: "inv c \<Longrightarrow> pod_sane pod \<Longrightarrow>
      AdjustPodResourcesL ops c pod adj annotation tileAnnotation nodeName = (Inr u, c') \<Longrightarrow>
      counted c' = (counted c)(getKey pod := (if adj then Some annotation else None))"
    and adjust_undo: "inv c \<Longrightarrow> pod_sane pod \<Longrightarrow>
      AdjustPodResourcesL ops c pod True annotation tileAnnotation nodeName = (Inr u, c1) \<Longrightarrow>
      \<exists>c2. AdjustPodResourcesL ops c1 pod False annotation tileAnnotation nodeName = (Inr (), c2)"
    and used_nonneg: "inv c \<Longrightarrow> 0 \<le> used c n cardName res"
    and status_ok: "inv c \<Longrightarrow> node_ok (GetNodeResourceStatus ops c n)"
    and status_used: "inv c \<Longrightarrow> card_amount (GetNodeResourceStatus ops c n) cardName res = used c n cardName res"
    and status_tiles: "inv c \<Longrightarrow> set (gm_getd [] (GetNodeTileStatus ops c n) g) = tiles c n g"
begin

text \<open>A request that was added and taken back leaves no trace in the amounts.\<close>

lemma undo_restores:
  assumes "inv c" "pod_sane pod"
    and "AdjustPodResourcesL ops c pod True annotation tileAnnotation nodeName = (Inr u, c1)"
  shows "inv (snd (AdjustPodResourcesL ops c1 pod False annotation tileAnnotation nodeName)) \<and>
    used (snd (AdjustPodResourcesL ops c1 pod False annotation tileAnnotation nodeName)) = used c \<and>
    counted (snd (AdjustPodResourcesL ops c1 pod False annotation tileAnnotation nodeName)) =
      (counted c)(getKey pod := None)"
proof -
  from adjust_undo [OF assms] obtain c2 where
    c2: "AdjustPodResourcesL ops c1 pod False annotation tileAnnotation nodeName = (Inr (), c2)" by blast
  note inv1 = adjust_inv [OF assms]
  have "used c2 n cardName res = used c n cardName res" for n cardName res
    using adjust_used [OF inv1 assms(2) c2, of n cardName res] adjust_used [OF assms, of n cardName res]
      used_nonneg [OF assms(1), of n cardName res]
    by (cases "n = nodeName") (simp_all add: charge_eff_def)
  with c2 adjust_inv [OF inv1 assms(2) c2] adjust_counted [OF inv1 assms(2) c2] adjust_counted [OF assms]
  show ?thesis by (auto simp: fun_eq_iff)
qed

end

end
