(* ===== verification/Gpu_Safety.thy ===== *)
theory Gpu_Safety
  imports Gpu_Bind
begin

text \<open>
  What a bind request does to the cache: rollback of a failed one, the effect of one that succeeds,
  and the absence of overcommitment, proved for any implementation of \<^verbatim>\<open>CacheAPI\<close> that keeps its
  contract, and carried to \<open>Gpu_Cache\<close> by the interpretation \<open>gas\<close>.
\<close>

subsection \<open>The syntax of label values\<close>

text \<open>
  Kubernetes admits letters, digits, dashes, underscores and dots in the value of a label. The names
  of the GPUs are cut from label values, so the separators of the annotations are not in them.
\<close>

definition label_char :: "char \<Rightarrow> bool" where
  "label_char c \<longleftrightarrow> is_digit c \<or> c \<in> {CHR ''-'', CHR ''_'', CHR ''.''} \<or>
     (65 \<le> (of_char c :: nat) \<and> (of_char c :: nat) \<le> 90) \<or> (97 \<le> (of_char c :: nat) \<and> (of_char c :: nat) \<le> 122)"

definition labels_valid :: "node \<Rightarrow> bool" where
  "labels_valid node \<longleftrightarrow> list_all (\<lambda>(key, value). list_all label_char value) (nil_entries (node_labels node))"

definition label_text :: "string \<Rightarrow> bool" where
  "label_text s \<longleftrightarrow> list_all label_char s"

lemma label_text_simps [simp]:
  "label_text []" "label_text (c # s) \<longleftrightarrow> label_char c \<and> label_text s"
  "label_text (s @ t) \<longleftrightarrow> label_text s \<and> label_text t"
  by (simp_all add: label_text_def)

lemma label_text_drop [intro]: "label_text s \<Longrightarrow> label_text (drop n s)"
  by (auto simp: label_text_def list_all_iff dest: in_set_dropD)

lemma separators_not_label: "\<not> label_char CHR '',''" "\<not> label_char CHR '':''" "\<not> label_char CHR ''|''" "\<not> label_char CHR ''+''"
  by code_simp+

lemma label_text_plain: "label_text s \<Longrightarrow> plain_name s"
  using separators_not_label by (auto simp: label_text_def plain_name_def list_all_iff)

lemma label_text_split: "label_text s \<Longrightarrow> x \<in> set (split_on c s) \<Longrightarrow> label_text x"
proof (induction s arbitrary: x)
  case (Cons a s)
  then show ?case by (cases "split_on c s") (auto split: if_splits)
qed simp

lemma label_text_value: "labels_valid node \<Longrightarrow> nil_get (node_labels node) key = Some value \<Longrightarrow> label_text value"
  by (auto simp: labels_valid_def label_text_def list_all_iff nil_get_entries dest: map_of_SomeD)

lemma label_text_chunks:
  "concat_split_loop labels labelName n acc = Some v \<Longrightarrow>
     \<forall>key value. nil_get labels key = Some value \<longrightarrow> label_text value \<Longrightarrow> label_text acc \<Longrightarrow> label_text v"
proof (induction labels labelName n acc rule: concat_split_loop.induct)
  case (1 labels labelName n acc)
  then show ?case
    by (subst (asm) concat_split_loop.simps) (auto split: option.splits if_splits)
qed

lemma label_text_concatenated:
  "labels_valid node \<Longrightarrow> concatenateSplitLabel node labelName = Some v \<Longrightarrow> label_text v"
  unfolding concatenateSplitLabel_def
  by (erule label_text_chunks) (auto dest: label_text_value split: option.splits)

lemma label_text_cards: "label_text s \<Longrightarrow> g \<in> set (getCardNameSlice s) \<Longrightarrow> label_text g"
proof -
  have "label_text cardPrefix" by code_simp
  then show "label_text s \<Longrightarrow> g \<in> set (getCardNameSlice s) \<Longrightarrow> label_text g"
    by (auto simp: getCardNameSlice_def label_text_split)
qed

lemma label_text_gpus:
  assumes "labels_valid node" "getNodeGPUList (Some node) = Some gpus" "g \<in> set gpus"
  shows "label_text g"
  using assms by (auto simp: getNodeGPUList_def intro: label_text_cards label_text_split
      dest: label_text_concatenated label_text_value split: if_splits bind_splits option.splits)

lemma set_createSearchMap [simp]: "set (createSearchMapFromStrings xs) = set xs"
  by (simp add: createSearchMapFromStrings_def set_fold_insert)

lemma label_text_numa:
  assumes "\<forall>group \<in> set groups. label_text group" "\<forall>gpuMap \<in> set maps. \<forall>g \<in> set gpuMap. label_text g"
  shows "\<forall>gpuMap \<in> set (numa_gpu_maps groups maps). \<forall>g \<in> set gpuMap. label_text g"
  using assms
proof (induction groups maps rule: numa_gpu_maps.induct)
  case (2 numaGroup numaGroups maps)
  show ?case
  proof (cases "\<exists>numa gpuNumbers. split_on CHR ''-'' numaGroup = [numa, gpuNumbers]")
    case True
    then obtain numa gpuNumbers where s: "split_on CHR ''-'' numaGroup = [numa, gpuNumbers]" by blast
    then have "label_text gpuNumbers"
      using label_text_split [of numaGroup gpuNumbers "CHR ''-''"] "2.prems"(1) by simp
    then have "\<forall>g \<in> set (getCardNameSlice gpuNumbers). label_text g" using label_text_cards by blast
    with s 2 show ?thesis by simp
  next
    case False
    then have "numa_gpu_maps (numaGroup # numaGroups) maps = []" by (simp split: list.splits)
    then show ?thesis by simp
  qed
qed simp

lemma label_text_maps:
  assumes "labels_valid node" "createGPUMaps pod node gpus = Some gpuMaps" "\<forall>g \<in> set gpus. label_text g"
  shows "\<forall>gpuMap \<in> set gpuMaps. \<forall>g \<in> set gpuMap. label_text g"
proof -
  have "\<forall>gpuMap \<in> set (numa_gpu_maps (split_on CHR ''_'' v) []). \<forall>g \<in> set gpuMap. label_text g"
    if "label_text v" for v using that label_text_split by (intro label_text_numa) auto
  with assms show ?thesis
    by (auto simp: createGPUMaps_def dest: label_text_concatenated split: if_splits bind_splits)
qed

subsection \<open>The resources that the search starts from\<close>

lemma addEmptyResourceMaps_amounts:
  "card_amount (addEmptyResourceMaps gpus used) g res = card_amount used g res"
  by (induction gpus arbitrary: used) (simp_all add: addEmptyResourceMaps_def)

lemma addEmptyResourceMaps_ok: "node_ok used \<Longrightarrow> node_ok (addEmptyResourceMaps gpus used)"
  by (induction gpus arbitrary: used) (simp_all add: addEmptyResourceMaps_def)

lemma fold_singletons_wf:
  "\<forall>(cardName, rm) \<in> set m. wf_map rm \<Longrightarrow>
     \<forall>(cardName, rm) \<in> set (fold (\<lambda>(cardName, tiles) m.
       AList.update cardName [(gpuTileResource, f cardName tiles)] m) xs m). wf_map rm"
proof (induction xs arbitrary: m)
  case (Cons x xs)
  then have "\<forall>(cardName, rm) \<in> set (AList.update (fst x) [(gpuTileResource, f (fst x) (snd x))] m). wf_map rm"
    by (auto simp: wf_map_Cons dest: set_updateD)
  from Cons.IH [OF this] show ?case by (simp add: split_beta)
qed simp

lemma unavailable_wf:
  "\<forall>(cardName, rm) \<in> set (createUnavailableNodeResources tileStatus node tiles). wf_map rm"
  unfolding createUnavailableNodeResources_def Let_def by (rule fold_singletons_wf) simp

lemma addUnavailable_grows:
  assumes "node_ok used" "\<forall>(cardName, rm) \<in> set unavailable. wf_map rm"
  shows "node_ok (addUnavailableToUsedResources used unavailable) \<and>
    (\<forall>g res. card_amount used g res \<le> card_amount (addUnavailableToUsedResources used unavailable) g res)"
  using assms
proof (induction unavailable arbitrary: used)
  case Nil
  then show ?case by (simp add: addUnavailableToUsedResources_def)
next
  case (Cons x unavailable)
  obtain cardName res where x: "x = (cardName, res)" by (cases x)
  define used1 where "used1 = (case map_of used cardName of None \<Rightarrow> used
    | Some usedResources \<Rightarrow> (case addRM usedResources res of Inl err \<Rightarrow> used
        | Inr rm \<Rightarrow> AList.update cardName rm used))"
  have "node_ok used1 \<and> (\<forall>g r. card_amount used g r \<le> card_amount used1 g r)"
  proof (cases "\<exists>rm0 rm. map_of used cardName = Some rm0 \<and> addRM rm0 res = Inr rm")
    case True
    then obtain rm0 rm where m: "map_of used cardName = Some rm0" "addRM rm0 res = Inr rm" by blast
    have s0: "sane rm0" using m(1) Cons.prems(1) by (auto simp: node_ok_def)
    have wf: "wf_map res" using Cons.prems(2) x by simp
    have r: "sane rm" "\<And>k. amount rm k = amount rm0 k + amount res k"
      using addrm.upd_result [OF s0 wf m(2)] by auto
    have nn: "0 \<le> amount res k" for k
    proof -
      have "\<forall>(k, v) \<in> set res. 0 \<le> sint v"
        using addrm.upd_iff [OF s0 wf] m(2) by (auto simp: add_admits_def)
      then have "sane res" using wf by (simp add: sane_def)
      then show ?thesis by simp
    qed
    have "used1 = AList.update cardName rm used" by (simp add: used1_def m)
    with r(1) Cons.prems(1) nn show ?thesis
      by (auto simp: card_amount_def r(2) gm_getd_Some [OF m(1)])
  next
    case False
    then have "used1 = used" by (auto simp: used1_def split: option.splits sum.splits)
    with Cons.prems(1) show ?thesis by simp
  qed
  moreover have "addUnavailableToUsedResources used (x # unavailable) = addUnavailableToUsedResources used1 unavailable"
    by (simp add: addUnavailableToUsedResources_def used1_def x)
  ultimately show ?case using Cons.IH [of used1] Cons.prems(2)
    by (simp add: x) (meson order_trans)
qed

lemma fit_search:
  assumes "checkForSpaceAndRetrieveCards ord tileStatus resourceStatus m (Some pod) (Some node) =
      Some (Inr (cards, pref))"
    and "node_ok (resourceStatus (node_name node))"
  obtains gpus gpuMaps used where "getNodeGPUList (Some node) = Some gpus" "gpus \<noteq> []"
    "createGPUMaps pod node gpus = Some gpuMaps" "node_ok used"
    "\<And>g res. card_amount (resourceStatus (node_name node)) g res \<le> card_amount used g res"
    "checkForSpaceResourceRequests ord tileStatus m (getPerGPUResourceCapacity node (length gpus)) pod node
       used gpuMaps = Some (Inr (cards, pref))"
proof -
  obtain gpus gpuMaps tiles where g: "getNodeGPUList (Some node) = Some gpus" "gpus \<noteq> []"
    "createGPUMaps pod node gpus = Some gpuMaps"
    "checkForSpaceResourceRequests ord tileStatus m (getPerGPUResourceCapacity node (length gpus)) pod node
       (addUnavailableToUsedResources (addEmptyResourceMaps gpus (resourceStatus (node_name node)))
         (createUnavailableNodeResources tileStatus node tiles)) gpuMaps = Some (Inr (cards, pref))"
    using assms(1) by (auto simp: checkForSpaceAndRetrieveCards_def readNodeResources_def checkPod_def Let_def
        split: bind_splits if_splits)
  note a = addUnavailable_grows [OF addEmptyResourceMaps_ok [OF assms(2)] unavailable_wf, of gpus tileStatus node tiles]
  show thesis
    using a by (intro that [OF g(1-3) _ _ g(4)]) (auto simp: addEmptyResourceMaps_amounts)
qed

lemma containers_loop_no_maps:
  "containers_loop ord tileStatus m capacity node pod [] [] samegpuCard reqs cc pref used tiles = Some (Inr (cc', pref')) \<Longrightarrow>
     cc' = cc"
  by (induction reqs arbitrary: pref used tiles) auto

text \<open>Without a search map (a malformed NUMA label) no container gets cards and nothing is bound.\<close>

lemma no_maps_no_annotation:
  assumes "checkForSpaceResourceRequests ord tileStatus m capacity pod node used [] = Some (Inr (cards, pref))"
    and "convertNodeCardsToAnnotations ord tileStatus pod node cards = Some (annotation, tileAnnotation)"
  shows "annotation = []"
proof -
  have "cards = []"
    using assms(1) by (auto simp: checkForSpaceResourceRequests_def dest: containers_loop_no_maps
        split: sum.splits prod.splits if_splits bind_splits)
  with assms(2) show ?thesis
    by (auto simp: convertNodeCardsToAnnotations_def container_annotations.simps Let_def
        split: bind_splits prod.splits if_splits)
qed

subsection \<open>What an annotation charges\<close>

lemma parts_charge:
  assumes "\<forall>request \<in> set reqs. sane request"
    and "\<forall>cs \<in> set cards. cs \<noteq> [] \<longrightarrow>
      split_on CHR '','' (join_with CHR '','' (map card_gpuName cs)) = map card_gpuName cs"
  shows "containers_charge g res (zip reqs (map (\<lambda>cs. join_with CHR '','' (map card_gpuName cs)) cards)) \<le>
    cards_charge g res (zip reqs cards)"
  using assms
proof (induction reqs arbitrary: cards)
  case Nil
  then show ?case by (simp add: containers_charge_def)
next
  case (Cons request reqs)
  show ?case
  proof (cases cards)
    case Nil
    then show ?thesis by (simp add: containers_charge_def)
  next
    case (Cons cs rest)
    have "0 \<le> amount request res" using Cons.prems(1) by simp
    then have "0 \<le> int (count_list (map card_gpuName cs) g) * (amount request res div int (length cs))"
      by (cases "cs = []") (simp_all add: pos_imp_zdiv_nonneg_iff)
    then have "container_charge g res (request, join_with CHR '','' (map card_gpuName cs)) \<le>
        cards_charge g res [(request, cs)]"
      using Cons.prems(2) Cons by (cases "cs = []") (auto simp: container_charge_def)
    moreover have "containers_charge g res (zip reqs (map (\<lambda>cs. join_with CHR '','' (map card_gpuName cs)) rest)) \<le>
        cards_charge g res (zip reqs rest)"
      using Cons.prems Cons by (intro Cons.IH) auto
    ultimately show ?thesis by (simp add: Cons containers_charge_def)
  qed
qed

lemma annotation_charge:
  assumes "convertNodeCardsToAnnotations ord tileStatus pod node cards = Some (annotation, tileAnnotation)"
    and "annotation \<noteq> []" "length cards = length (containers pod)" "pod_sane pod"
    and "\<forall>cs \<in> set cards. \<forall>c \<in> set cs. plain_name (card_gpuName c)"
  shows "pod_charge pod annotation g res \<le> cards_charge g res (zip (snd (containerRequests pod [])) cards)"
proof -
  have "containers pod \<noteq> []"
    using assms(1,2,3) by (auto simp: convertNodeCardsToAnnotations_def containerRequests_def Let_def
        split: bind_splits prod.splits if_splits)
  note parts = card_annotation_parts [OF assms(1,3) this assms(5)]
  show ?thesis
    using parts_charge [of "snd (containerRequests pod [])" cards] parts assms(4)
    by (simp add: pod_charge_def pod_sane_def)
qed

subsection \<open>The cards chosen on a node\<close>

text \<open>
  Everything a commit relies on: the charge of the annotation fits every GPU next to what the cache
  held, and its tiles were free.
\<close>

lemma chosen_cards:
  assumes fit: "checkForSpaceAndRetrieveCards ord tileStatus resourceStatus m (Some pod) (Some node) =
      Some (Inr (cards, pref))"
    and conv: "convertNodeCardsToAnnotations ord tileStatus pod node cards = Some (annotation, tileAnnotation)"
    and ann: "annotation \<noteq> []" and ok: "node_ok (resourceStatus (node_name node))"
    and pod: "pod_sane pod" "int (length (containers pod)) \<le> max_int64"
      "nil_get (pod_annotations pod) xelinkAnnotationName = None"
    and labels: "labels_valid node" and gpus: "getNodeGPUList (Some node) = Some gpus"
  shows "length (containers pod) = length cards \<and> (\<forall>cs \<in> set cards. \<forall>c \<in> set cs. plain_card c) \<and>
    (\<forall>g res. 0 < pod_charge pod annotation g res \<longrightarrow>
      card_amount (resourceStatus (node_name node)) g res + pod_charge pod annotation g res \<le>
      amount (getPerGPUResourceCapacity node (length gpus)) res)"
proof -
  obtain gpuMaps used where s: "createGPUMaps pod node gpus = Some gpuMaps" "node_ok used"
    "\<And>g res. card_amount (resourceStatus (node_name node)) g res \<le> card_amount used g res"
    "checkForSpaceResourceRequests ord tileStatus m (getPerGPUResourceCapacity node (length gpus)) pod node
       used gpuMaps = Some (Inr (cards, pref))"
    using fit_search [OF fit ok] gpus by (metis option.inject)
  have "gpuMaps \<noteq> []" using no_maps_no_annotation [OF _ conv] s(4) ann by blast
  note c = checkForSpaceResourceRequests_charges [OF s(4) pod(3) this s(2) pod(1,2)]
  note a = assignment_fits [OF s(4) pod(3) \<open>gpuMaps \<noteq> []\<close> s(2) pod(1,2)]
  have maps: "\<forall>gpuMap \<in> set gpuMaps. \<forall>g \<in> set gpuMap. label_text g"
    using label_text_maps [OF labels s(1)] label_text_gpus [OF labels gpus] by blast
  have plain: "plain_card card" if "cs \<in> set cards" "card \<in> set cs" for cs card
  proof -
    from c that(1) obtain new where new: "cs = plain_cards new" "set new \<subseteq> (\<Union>gpuMap \<in> set gpuMaps. set gpuMap)"
      unfolding requested_cards_def by blast
    with that(2) obtain g where "g \<in> set new" "card = \<lparr>card_gpuName = g, card_xeLinkedTileIds = []\<rparr>"
      by (auto simp: plain_cards_def)
    moreover from this new(2) maps have "label_text g" by blast
    ultimately show ?thesis by (simp add: plain_card_def label_text_plain)
  qed
  have "card_amount (resourceStatus (node_name node)) g res + pod_charge pod annotation g res \<le>
      amount (getPerGPUResourceCapacity node (length gpus)) res" if "0 < pod_charge pod annotation g res" for g res
  proof -
    have "pod_charge pod annotation g res \<le> cards_charge g res (zip (snd (containerRequests pod [])) cards)"
      using annotation_charge [OF conv ann _ pod(1)] a plain by (auto simp: plain_card_def)
    moreover from this that a have "card_amount used g res +
        cards_charge g res (zip (snd (containerRequests pod [])) cards) \<le>
        amount (getPerGPUResourceCapacity node (length gpus)) res"
      by (meson less_le_trans)
    ultimately show ?thesis using s(3) [of g res] by linarith
  qed
  with c plain show ?thesis by simp
qed

subsection \<open>Bind requests on any cache that keeps the contract\<close>

context cache_api begin

lemma undo_tiles:
  assumes "inv c" "pod_sane pod"
    and "AdjustPodResourcesL ops c pod True annotation tileAnnotation nodeName = (Inr u, c1)"
    and "annotation_tiles g tileAnnotation \<inter> tiles c nodeName g = {}"
  shows "tiles (snd (AdjustPodResourcesL ops c1 pod False annotation tileAnnotation nodeName)) n g = tiles c n g"
proof -
  from adjust_undo [OF assms(1-3)] obtain c2 where
    c2: "AdjustPodResourcesL ops c1 pod False annotation tileAnnotation nodeName = (Inr (), c2)" by blast
  have "tiles c2 n g = (if n = nodeName then tiles c1 n g - annotation_tiles g tileAnnotation else tiles c1 n g)"
    using adjust_tiles [OF adjust_inv [OF assms(1-3)] assms(2) c2] by (simp add: tile_eff_def)
  moreover have "tiles c1 n g = (if n = nodeName then tiles c n g \<union> annotation_tiles g tileAnnotation else tiles c n g)"
    using adjust_tiles [OF assms(1-3)] by (simp add: tile_eff_def)
  ultimately show ?thesis using assms(4) c2 by (auto split: if_splits)
qed

lemma bind_failure:
  assumes "inv c" "bindNode ord ops m api args c = Some (Some err, c', calls)"
    and "\<forall>pod. retrievePod ops c (PodName args) (PodNamespace args) (PodUID args) = Inr pod \<longrightarrow> pod_sane pod"
  shows "inv c' \<and> used c' = used c \<and>
    (counted c' = counted c \<or> (\<exists>pod. retrievePod ops c (PodName args) (PodNamespace args) (PodUID args) = Inr pod \<and>
       counted c' = (counted c)(getKey pod := None)))"
  using assms(2)
proof (cases rule: bind_cases)
  case early
  with assms(1) show ?thesis by simp
next
  case (commit pod node cards pref annotation tileAnnotation)
  note sane = assms(3) [rule_format, OF commit(2)]
  from commit(6) show ?thesis
  proof (cases rule: bind_commit_cases)
    case (adjust err')
    with adjust_failed [OF assms(1) sane adjust(2)] assms(1) show ?thesis by simp
  next
    case (undone err' c1)
    with undo_restores [OF assms(1) sane undone(2)] commit(2) show ?thesis by auto
  qed simp
qed

lemma bind_success:
  assumes "inv c" "bindNode ord ops m api args c = Some (None, c', calls)"
    and "\<forall>pod. retrievePod ops c (PodName args) (PodNamespace args) (PodUID args) = Inr pod \<longrightarrow> pod_sane pod"
  shows "c' = c \<and> calls = [] \<or>
    (\<exists>pod annotation tileAnnotation.
       retrievePod ops c (PodName args) (PodNamespace args) (PodUID args) = Inr pod \<and>
       calls = [PatchPod pod (bind_payload api annotation tileAnnotation pod),
         BindPod (PodNamespace args) (createV1Binding args)] \<and> inv c' \<and>
       (\<forall>n g res. used c' n g res =
          used c n g res + (if n = Node args then pod_charge pod annotation g res else 0)) \<and>
       (\<forall>n g. tiles c' n g = tiles c n g \<union> (if n = Node args then annotation_tiles g tileAnnotation else {})) \<and>
       counted c' = (counted c)(getKey pod \<mapsto> annotation))"
  using assms(2)
proof (cases rule: bind_cases)
  case (commit pod node cards pref annotation tileAnnotation)
  note sane = assms(3) [rule_format, OF commit(2)]
  from commit(6) show ?thesis
  proof (cases rule: bind_commit_cases)
    case bound
    note b = adjust_inv [OF assms(1) sane bound(2)] adjust_used [OF assms(1) sane bound(2)]
      adjust_tiles [OF assms(1) sane bound(2)] adjust_counted [OF assms(1) sane bound(2)]
    show ?thesis
      using commit(2) bound(3) b
      by (intro disjI2 exI [of _ pod] exI [of _ annotation] exI [of _ tileAnnotation])
        (simp add: charge_eff_def tile_eff_def)
  qed simp_all
qed simp

lemma bind_within_capacity:
  assumes "inv c" "bindNode ord ops m api args c = Some (error, c', calls)"
    and pod: "retrievePod ops c (PodName args) (PodNamespace args) (PodUID args) = Inr pod" "pod_sane pod"
      "int (length (containers pod)) \<le> max_int64" "nil_get (pod_annotations pod) xelinkAnnotationName = None"
    and node: "getNodeForName ops c (Node args) = Inr node" "node_name node = Node args" "labels_valid node"
      "getNodeGPUList (Some node) = Some gpus"
    and ord: "range_order ord"
  shows "(\<forall>n g res. used c' n g res = used c n g res \<or>
      n = Node args \<and> used c' n g res \<le> amount (getPerGPUResourceCapacity node (length gpus)) res) \<and>
    (\<forall>n g. if error = None then tiles c n g \<subseteq> tiles c' n g else tiles c' n g = tiles c n g) \<and>
    (error = None \<longrightarrow> calls \<noteq> [] \<longrightarrow> (\<exists>annotation tileAnnotation.
       PatchPod pod (bind_payload api annotation tileAnnotation pod) \<in> set calls \<and>
       (\<forall>g. tiles c' (Node args) g - tiles c (Node args) g = annotation_tiles g tileAnnotation)))"
  using assms(2)
proof (cases rule: bind_cases)
  case early
  then show ?thesis by simp
next
  case (commit pod' node' cards pref annotation tileAnnotation)
  with pod(1) node(1) have eqs: "pod' = pod" "node' = node" by simp_all
  note fit = commit(4) [unfolded eqs] and conv = commit(5) [unfolded eqs]
  note cc = chosen_cards [OF fit conv commit(1) status_ok [OF assms(1)] pod(2-4) node(3,4), unfolded node(2)]
  have free: "annotation_tiles g tileAnnotation \<inter> tiles c (Node args) g = {}" for g
    using annotation_tiles_free [OF ord conv, of g] cc status_tiles [OF assms(1)] by (simp add: node(2))
  from commit(6) [unfolded eqs] show ?thesis
  proof (cases rule: bind_commit_cases)
    case (adjust err)
    with adjust_failed [OF assms(1) pod(2) adjust(2)] show ?thesis by simp
  next
    case (undone err c1)
    with undo_restores [OF assms(1) pod(2) undone(2)] undo_tiles [OF assms(1) pod(2) undone(2) free]
    show ?thesis by simp
  next
    case bound
    note a = adjust_used [OF assms(1) pod(2) bound(2)] adjust_tiles [OF assms(1) pod(2) bound(2)]
    have nn: "0 \<le> pod_charge pod annotation g res" for g res
      unfolding pod_charge_def by (intro containers_charge_nonneg requests_sane_zip pod(2))
    have "used c' n g res = used c n g res \<or>
      n = Node args \<and> used c' n g res \<le> amount (getPerGPUResourceCapacity node (length gpus)) res" for n g res
      using a(1) [of n g res] cc status_used [OF assms(1)] nn [of g res]
      by (cases "0 < pod_charge pod annotation g res") (auto simp: charge_eff_def)
    moreover have "tiles c n g \<subseteq> tiles c' n g" for n g using a(2) by (simp add: tile_eff_def)
    moreover have "tiles c' (Node args) g - tiles c (Node args) g = annotation_tiles g tileAnnotation" for g
      using a(2) free [of g] by (auto simp: tile_eff_def)
    ultimately show ?thesis using bound by auto
  qed
qed

end

subsection \<open>The cache of GAS keeps the contract\<close>

lemma fold_copy:
  "wf_map m \<Longrightarrow> fold (\<lambda>(k, v) dst. AList.update k (f v) dst) m [] = map (\<lambda>(k, v). (k, f v)) m"
proof (induction m rule: rev_induct)
  case (snoc x m)
  obtain k v where x: "x = (k, v)" by (cases x)
  with wf_map_snocD [of m k v] snoc have "k \<notin> fst ` set m" "wf_map m" by simp_all
  moreover from this have "k \<notin> fst ` set (map (\<lambda>(k, v). (k, f v)) m)" by force
  ultimately show ?case using snoc.IH by (simp add: x update_snoc_fresh)
qed simp

lemma fold_append_copy: "wf_map m \<Longrightarrow> fold (\<lambda>(k, v) dst. gm_append k v dst) m [] = m"
proof (induction m rule: rev_induct)
  case (snoc x m)
  obtain k v where x: "x = (k, v)" by (cases x)
  with wf_map_snocD [of m k v] snoc have "k \<notin> fst ` set m" "wf_map m" by simp_all
  with snoc.IH show ?case by (simp add: x gm_append_def gm_getd_missing update_snoc_fresh)
qed simp

lemma fold_update_copy: "wf_map rm \<Longrightarrow> fold (\<lambda>(key, value) m. AList.update key value m) rm [] = rm"
  using fold_copy [of rm "\<lambda>v. v"] by simp

lemma getNodeResourceStatus_copy:
  assumes "cache_inv c"
  shows "getNodeResourceStatus c nodeName = gm_getd [] (nodeStatuses c) nodeName"
proof -
  let ?nr = "gm_getd [] (nodeStatuses c) nodeName"
  have ok: "node_ok ?nr" using assms by simp
  then have wf: "wf_map rm" if "(cardName, rm) \<in> set ?nr" for cardName rm
    using that by (auto simp: node_ok_def wf_map_lookup)
  have "getNodeResourceStatus c nodeName =
      map (\<lambda>(cardName, rm). (cardName, fold (\<lambda>(key, value) m. AList.update key value m) rm [])) ?nr"
    unfolding getNodeResourceStatus_def using ok by (intro fold_copy) auto
  also have "\<dots> = map (\<lambda>x. x) ?nr" using wf by (intro map_cong) (auto simp: fold_update_copy)
  finally show ?thesis by simp
qed

lemma getNodeTileStatus_copy:
  assumes "cache_inv c"
  shows "getNodeTileStatus c nodeName = gm_getd [] (nodeTileStatuses c) nodeName"
proof -
  have "wf_map (gm_getd [] (nodeTileStatuses c) nodeName)"
    using assms by (auto simp: cache_inv_def tiles_ok_def gm_getd_def split: option.splits)
  then show ?thesis by (simp add: getNodeTileStatus_def fold_append_copy)
qed

lemma gas_cache_ops_simps [simp]:
  "AdjustPodResourcesL (gas_cache_ops ord get_node get_pod) c pod adj annotation tileAnnotation nodeName =
     adjustPodResources ord pod adj annotation tileAnnotation nodeName c"
  "GetNodeResourceStatus (gas_cache_ops ord get_node get_pod) = getNodeResourceStatus"
  "GetNodeTileStatus (gas_cache_ops ord get_node get_pod) = getNodeTileStatus"
  by (simp_all add: gas_cache_ops_def adjustPodResourcesL_def)

interpretation gas: cache_api "gas_cache_ops ord get_node get_pod" "\<lambda>c. range_order ord \<and> cache_inv c"
  node_usage tiles_used "\<lambda>c. map_of (annotatedPods c)"
proof (unfold_locales, goal_cases)
  case (1 c pod adj annotation tileAnnotation nodeName err c')
  then show ?case using adjustPodResources_spec [of c pod ord adj annotation tileAnnotation nodeName] by fastforce
next
  case (2 c pod adj annotation tileAnnotation nodeName u c')
  then show ?case using adjustPodResources_spec [of c pod ord adj annotation tileAnnotation nodeName] by fastforce
next
  case (3 c pod adj annotation tileAnnotation nodeName u c' n cardName res)
  then show ?case using adjustPodResources_spec [of c pod ord adj annotation tileAnnotation nodeName]
    by (fastforce simp: adjust_result_def)
next
  case (4 c pod adj annotation tileAnnotation nodeName u c' n g)
  then show ?case using adjustPodResources_spec [of c pod ord adj annotation tileAnnotation nodeName]
    by (fastforce simp: adjust_result_def)
next
  case (5 c pod adj annotation tileAnnotation nodeName u c')
  then show ?case using adjustPodResources_spec [of c pod ord adj annotation tileAnnotation nodeName]
    by (fastforce simp: adjust_result_def)
next
  case (6 c pod annotation tileAnnotation nodeName u c1)
  then show ?case using adjust_undo_added [of c pod ord annotation tileAnnotation nodeName c1]
    by (auto simp: adjustPodResourcesL_def)
next
  case (7 c n cardName res)
  then show ?case by (simp add: node_usage_def)
next
  case (8 c n)
  then show ?case by (simp add: getNodeResourceStatus_copy)
next
  case (9 c n cardName res)
  then show ?case by (simp add: getNodeResourceStatus_copy node_usage_def)
next
  case (10 c n g)
  then show ?case by (simp add: getNodeTileStatus_copy tiles_used_def)
qed

lemma retrievePod_gas: "retrievePod (gas_cache_ops ord get_node get_pod) c podName ns uid = Inr pod \<longleftrightarrow>
    get_pod ns podName = Inr pod \<and> pod_uid pod = uid"
  by (auto simp: retrievePod_def gas_cache_ops_def fetchPod_def split: sum.splits)

lemma getNodeForName_gas: "getNodeForName (gas_cache_ops ord get_node get_pod) c name = Inr node \<longleftrightarrow>
    get_node name = Inr node"
  by (auto simp: getNodeForName_def gas_cache_ops_def fetchNode_def split: sum.splits)

subsection \<open>Properties of bind requests\<close>

text \<open>C3: a bind request that fails leaves no charge. Whatever the step that failed (no pod, no node, no
  space, the adjustment, the annotation of the pod or the binding itself), afterwards every amount of
  every node is what it was, the cache is well formed, and no pod became counted.\<close>

theorem bindNode_failure_restores:
  assumes "range_order ord" "cache_inv c"
    and "bindNode ord (gas_cache_ops ord get_node get_pod) m api args c = Some (Some err, c', calls)"
    and "\<forall>pod. get_pod (PodNamespace args) (PodName args) = Inr pod \<longrightarrow> pod_sane pod"
  shows "cache_inv c' \<and> node_usage c' = node_usage c \<and>
    (\<forall>key. map_of (annotatedPods c') key = map_of (annotatedPods c) key \<or> map_of (annotatedPods c') key = None)"
proof -
  have "\<forall>pod. retrievePod (gas_cache_ops ord get_node get_pod) c (PodName args) (PodNamespace args) (PodUID args) = Inr pod \<longrightarrow>
      pod_sane pod" using assms(4) unfolding retrievePod_gas by blast
  from gas.bind_failure [OF conjI [OF assms(1,2)] assms(3) this] show ?thesis
    by (elim conjE disjE exE) simp_all
qed



definition small_pod :: pod where
  "small_pod = sample_pod\<lparr>containers := [\<lparr>container_name = ''a'',
     requests = [(''gpu.intel.com/i915'', 1), (''gpu.intel.com/tiles'', 1)]\<rparr>]\<rparr>"

definition small_args :: bind_args where
  "small_args = \<lparr>PodName = ''p'', PodNamespace = ''ns'', PodUID = ''u1'', Node = ''n1''\<rparr>"

definition small_bind :: "string option \<Rightarrow> (gas_error option \<times> cache \<times> api_call list) option" where
  "small_bind bind_error = bindNode id (gas_cache_ops id (\<lambda>name. Inr two_gpu_node) (\<lambda>ns name. Inr small_pod))
     plain_extender \<lparr>api_patch = (\<lambda>pod payload. None), api_bind = (\<lambda>ns b. bind_error), api_now = ''1''\<rparr>
     small_args newCache"

lemma small_bind_runs:
  "map_option (\<lambda>(error, c', calls). (error, node_usage c' ''n1'' ''card0'' ''gpu.intel.com/i915'',
     tiles_used c' ''n1'' ''card0'', length calls)) (small_bind None) = Some (None, 1, {0}, 2)"
  "map_option (\<lambda>(error, c', calls). (error, length calls)) (small_bind (Some ''timeout'')) =
     Some (Some (ErrLib ''timeout''), 2)"
  by code_simp+

lemma small_pod_sane [simp]: "pod_sane small_pod"
  by code_simp

theorem bindNode_failure_restores_witness:
  "\<exists>c' calls. small_bind (Some ''timeout'') = Some (Some (ErrLib ''timeout''), c', calls) \<and>
     node_usage c' = node_usage newCache"
proof -
  obtain c' calls where e: "small_bind (Some ''timeout'') = Some (Some (ErrLib ''timeout''), c', calls)"
    using small_bind_runs(2) by auto
  from bindNode_failure_restores [OF range_order_id newCache_inv e [unfolded small_bind_def]] e show ?thesis by simp
qed



end
