(* ===== verification/Gpu_Requests.thy ===== *)
theory Gpu_Requests
  imports Gpu_Safety
begin

text \<open>
  The answers of GAS: which nodes a filter request keeps and rejects, what the status code of a bind
  response tells the scheduler, and the bind requests that report success without binding.
\<close>

subsection \<open>Filtering\<close>

text \<open>Whether a node is found and has room for the pod, with the given verdict on preference.\<close>

definition node_fits ::
  "(int list \<Rightarrow> int list) \<Rightarrow> 'c cache_ops \<Rightarrow> gas_extender \<Rightarrow> 'c \<Rightarrow> pod option \<Rightarrow> bool \<Rightarrow> string \<Rightarrow> bool" where
  "node_fits ord ops m c podptr pref nodeName =
     (case getNodeForName ops c nodeName of
        Inl err \<Rightarrow> False
      | Inr node \<Rightarrow>
          (case checkForSpaceAndRetrieveCards ord (GetNodeTileStatus ops c) (GetNodeResourceStatus ops c) m
                  podptr (Some node) of
             Some (Inr (cards, preferred)) \<Rightarrow> preferred = pref
           | _ \<Rightarrow> False))"

lemma filter_loop_spec:
  assumes "filter_loop ord ops m c podptr names nodeNames preferredNodeNames failedNodes = Some (ns, ps, fs)"
  shows "ns = nodeNames @ filter (node_fits ord ops m c podptr False) names \<and>
    ps = preferredNodeNames @ filter (node_fits ord ops m c podptr True) names \<and>
    (\<forall>n. map_of fs n \<noteq> None \<longleftrightarrow> map_of failedNodes n \<noteq> None \<or>
       n \<in> set names \<and> \<not> node_fits ord ops m c podptr False n \<and> \<not> node_fits ord ops m c podptr True n)"
  using assms
proof (induction names arbitrary: nodeNames preferredNodeNames failedNodes)
  case (Cons nodeName names)
  show ?case
  proof (cases "getNodeForName ops c nodeName")
    case (Inl err)
    with Cons.prems have "filter_loop ord ops m c podptr names nodeNames preferredNodeNames
        (AList.update nodeName ''Couldn't retrieve node's information'' failedNodes) = Some (ns, ps, fs)" by simp
    from Cons.IH [OF this] Inl show ?thesis by (auto simp: node_fits_def split: if_splits)
  next
    case (Inr node)
    then obtain fit where fit: "checkForSpaceAndRetrieveCards ord (GetNodeTileStatus ops c) (GetNodeResourceStatus ops c) m
        podptr (Some node) = Some fit" using Cons.prems by (auto split: bind_splits)
    show ?thesis
    proof (cases fit)
      case (Inl err)
      with Cons.prems Inr fit have "filter_loop ord ops m c podptr names nodeNames preferredNodeNames
          (AList.update nodeName (''Not enough GPU-resources for deployment: '' @ error_text err) failedNodes) =
          Some (ns, ps, fs)" by simp
      from Cons.IH [OF this] Inl Inr fit show ?thesis by (auto simp: node_fits_def split: if_splits)
    next
      case (Inr r)
      obtain cards preferred where r: "r = (cards, preferred)" by (cases r)
      with Cons.prems \<open>getNodeForName ops c nodeName = Inr node\<close> fit Inr have
        "filter_loop ord ops m c podptr names (if preferred then nodeNames else nodeNames @ [nodeName])
          (if preferred then preferredNodeNames @ [nodeName] else preferredNodeNames) failedNodes = Some (ns, ps, fs)"
        by (simp split: if_splits)
      from Cons.IH [OF this] \<open>getNodeForName ops c nodeName = Inr node\<close> fit Inr r show ?thesis
        by (auto simp: node_fits_def split: if_splits)
    qed
  qed
qed simp

text \<open>C33: the answer to a filter request. Every node of the request that cannot be read or has no room
  for the pod is among the failed nodes, and only those; the nodes that have room are returned in the
  order of the request, and when some of them would place the pod on their preferred GPU then only
  these are returned.\<close>

theorem filterNodes_spec:
  assumes "filterNodes ord ops m c args = Some result" "NodeNames args = Some names" "names \<noteq> []"
  shows "result_Error result = [] \<and>
    result_NodeNames result =
      (if \<exists>n \<in> set names. node_fits ord ops m c (args_pod args) True n
       then filter (node_fits ord ops m c (args_pod args) True) names
       else filter (node_fits ord ops m c (args_pod args) False) names) \<and>
    (\<forall>n. map_of (FailedNodes result) n \<noteq> None \<longleftrightarrow>
       n \<in> set names \<and> (\<forall>pref. \<not> node_fits ord ops m c (args_pod args) pref n))"
proof -
  from assms obtain ns ps fs where l: "filter_loop ord ops m c (args_pod args) names [] [] [] = Some (ns, ps, fs)"
    and r: "result = \<lparr>result_NodeNames = (if 0 < length ps then ps else ns), FailedNodes = fs, result_Error = []\<rparr>"
    by (auto simp: filterNodes_def createFilterResult_def split: if_splits bind_splits)
  from filter_loop_spec [OF l] r show ?thesis
    by (auto simp: all_bool_eq filter_empty_conv)
qed

definition partial_ops :: "cache cache_ops" where
  "partial_ops = gas_cache_ops id (\<lambda>name. if name = ''n1'' then Inr two_gpu_node else Inl ''gone'')
     (\<lambda>ns name. Inr small_pod)"

theorem filterNodes_spec_witness:
  "\<exists>result. filterNodes id partial_ops plain_extender newCache
       \<lparr>args_pod = Some small_pod, NodeNames = Some [''n2'', ''n1'']\<rparr> = Some result \<and>
     result_NodeNames result = [''n1''] \<and> map_of (FailedNodes result) ''n2'' \<noteq> None"
proof -
  let ?args = "\<lparr>args_pod = Some small_pod, NodeNames = Some [''n2'', ''n1'']\<rparr>"
  have "filterNodes id partial_ops plain_extender newCache ?args \<noteq> None" by code_simp
  then obtain result where r: "filterNodes id partial_ops plain_extender newCache ?args = Some result" by blast
  have f: "\<not> node_fits id partial_ops plain_extender newCache (Some small_pod) True ''n1''"
    "\<not> node_fits id partial_ops plain_extender newCache (Some small_pod) True ''n2''"
    "node_fits id partial_ops plain_extender newCache (Some small_pod) False ''n1''"
    "\<not> node_fits id partial_ops plain_extender newCache (Some small_pod) False ''n2''"
    by code_simp+
  then have "\<forall>pref. \<not> node_fits id partial_ops plain_extender newCache (Some small_pod) pref ''n2''"
    by (auto simp: all_bool_eq)
  with f filterNodes_spec [OF r, of "[''n2'', ''n1'']"] r show ?thesis by simp
qed

subsection \<open>The status of a bind response\<close>

text \<open>The scheduler sees status 200 on a bind request exactly when the request could be decoded,
  the bind ended without an error (or one with an empty text) and its result could be encoded; in
  every other case the status is 404 or 400.\<close>

theorem Bind_status:
  assumes "Bind ord ops m api decode encode close_error body c new_writer = Some (w, c', calls)"
  shows "(w_status w = Some 200 \<longleftrightarrow>
      (\<exists>args error. decodeRequest decode close_error body = Inr args \<and>
        bindNode ord ops m api args c = Some (error, c', calls) \<and>
        (case error of None \<Rightarrow> [] | Some err \<Rightarrow> error_text err) = [] \<and> encode [] \<noteq> None)) \<and>
    w_status w \<in> {Some 200, Some 400, Some 404}"
proof (cases "decodeRequest decode close_error body")
  case (Inl err)
  with assms show ?thesis by (auto simp: Bind_def)
next
  case (Inr args)
  with assms obtain error where b: "bindNode ord ops m api args c = Some (error, c', calls)"
    and w: "w = writeResponse encode (case error of None \<Rightarrow> [] | Some err \<Rightarrow> error_text err)
      (if (case error of None \<Rightarrow> [] | Some err \<Rightarrow> error_text err) \<noteq> [] then write_header 404 new_writer else new_writer)"
    by (auto simp: Bind_def Let_def split: bind_splits)
  define result where "result = (case error of None \<Rightarrow> [] | Some err \<Rightarrow> error_text err)"
  have "w_status w = Some (if result \<noteq> [] then 404 else if encode [] = None then 400 else 200)"
    unfolding w result_def [symmetric]
    by (auto simp: writeResponse_def http_error_def new_writer_def write_header_def split: option.splits)
  with Inr b show ?thesis by (auto simp: result_def)
qed

theorem Bind_status_witness:
  "\<exists>w c' calls. Bind id (gas_cache_ops id (\<lambda>name. Inr two_gpu_node) (\<lambda>ns name. Inr small_pod)) plain_extender
      \<lparr>api_patch = (\<lambda>pod payload. None), api_bind = (\<lambda>ns b. Some ''timeout''), api_now = ''1''\<rparr>
      (\<lambda>text. Some small_args) Some None (Some ''{}'') newCache new_writer = Some (w, c', calls) \<and>
    w_status w \<noteq> Some 200"
    (is "\<exists>w c' calls. ?call = Some (w, c', calls) \<and> _")
proof -
  have "?call \<noteq> None" by code_simp
  then obtain w c' calls where r: "?call = Some (w, c', calls)" by (cases "?call") auto
  have "decodeRequest (\<lambda>text. Some small_args) None (Some ''{}'') = Inr small_args" by code_simp
  with Bind_status [OF r] small_bind_runs(2) have "w_status w \<noteq> Some 200"
    unfolding small_bind_def by auto
  with r show ?thesis by blast
qed

subsection \<open>Success without a binding\<close>

lemma containers_loop_without_maps:
  "containers_loop ord tileStatus m capacity node pod [] [] samegpuCard reqs cc pref used tiles = Some (Inr (cc, pref))"
  by (induction reqs arbitrary: pref used tiles) auto

text \<open>A node whose NUMA label is malformed takes every single-NUMA pod. When no search map can be
  made of the label, the pod counts as fitting without any GPU: the bind request reports success,
  although the pod was neither annotated nor bound and the cache does not count it.\<close>

theorem bindNode_malformed_numa:
  assumes "retrievePod ops c (PodName args) (PodNamespace args) (PodUID args) = Inr pod"
    and "getNodeForName ops c (Node args) = Inr node" "getNodeGPUList (Some node) = Some gpus" "gpus \<noteq> []"
    and "createGPUMaps pod node gpus = Some []" "containersRequestingSamegpu pod = Inr []"
    and "checkPod (Some pod) = Inr pod" "containers pod \<noteq> []"
  shows "bindNode ord ops m api args c = Some (None, c, [])"
proof -
  have idxs: "containerRequests pod [] = ([], map container_request (containers pod))"
    by (simp add: containerRequests_def)
  have "checkForSpaceAndRetrieveCards ord (GetNodeTileStatus ops c) (GetNodeResourceStatus ops c) m (Some pod) (Some node) =
      Some (Inr ([], False))"
    using assms idxs containers_loop_without_maps
    by (simp add: checkForSpaceAndRetrieveCards_def checkForSpaceResourceRequests_def readNodeResources_def Let_def
        split: prod.splits)
  moreover have "convertNodeCardsToAnnotations ord (GetNodeTileStatus ops c) pod node [] = Some ([], [])"
    using assms(3,8) by (simp add: convertNodeCardsToAnnotations_def containerRequests_def Let_def)
  ultimately show ?thesis using assms(1,2) by (simp add: bindNode_commit)
qed

definition numa_node :: node where
  "numa_node = two_gpu_node\<lparr>node_labels := Some [(''gpu.intel.com/gpu-numbers'', ''0.1''),
     (''gpu.intel.com/numa-gpu-map'', ''0-0_1'')]\<rparr>"

definition numa_pod :: pod where
  "numa_pod = small_pod\<lparr>pod_annotations := Some [(''gas-allocate-single-numa'', ''true'')]\<rparr>"

theorem bindNode_malformed_numa_witness:
  "bindNode id (gas_cache_ops id (\<lambda>name. Inr numa_node) (\<lambda>ns name. Inr numa_pod)) plain_extender
     \<lparr>api_patch = (\<lambda>pod payload. None), api_bind = (\<lambda>ns b. None), api_now = ''1''\<rparr> small_args newCache =
   Some (None, newCache, [])"
proof -
  have "getNodeGPUList (Some numa_node) = Some [''card0'', ''card1'']"
    "createGPUMaps numa_pod numa_node [''card0'', ''card1''] = Some []"
    "containersRequestingSamegpu numa_pod = Inr []" "checkPod (Some numa_pod) = Inr numa_pod"
    "pod_uid numa_pod = PodUID small_args" "containers numa_pod \<noteq> []"
    by code_simp+
  then show ?thesis
    by (intro bindNode_malformed_numa [of _ _ _ numa_pod numa_node "[''card0'', ''card1'']"])
      (simp_all add: retrievePod_gas getNodeForName_gas)
qed

end
