(* ===== verification/Http_Server.thy ===== *)
theory Http_Server
  imports Http
begin

text \<open>
  The HTTP server that both extenders run behind (\<^verbatim>\<open>extender/scheduler.go\<close>,
  \<^verbatim>\<open>extender/types.go\<close>): its middleware, the routing of the requests and the interface to the
  scheduler. A handler gets the request, the response writer and whatever state it works on; a handler that panics is
  \<open>None\<close>.
\<close>

subsection \<open>Requests\<close>

record http_request =
  Method :: string
  URL_Path :: string
  ContentLength :: int64
  Header :: "(string, string list) gomap"
  Body :: "string option"
  Body_close_error :: "string option"

type_synonym 's handler = "http_request \<Rightarrow> http_writer \<times> 's \<Rightarrow> (http_writer \<times> 's) option"

text \<open>\<^verbatim>\<open>Header.Get\<close>: the first value, the empty string if there is none. The keys are in canonical form.\<close>

definition Header_Get :: "http_request \<Rightarrow> string \<Rightarrow> string" where
  "Header_Get r key = (case map_of (Header r) key of Some (v # vs) \<Rightarrow> v | _ \<Rightarrow> [])"

subsection \<open>Middleware\<close>

definition postOnly :: "'s handler \<Rightarrow> 's handler" where
  "postOnly next r ws =
     (if Method r \<noteq> ''POST'' then Some (write_header 405 (fst ws), snd ws) else next r ws)"

definition contentLength :: "'s handler \<Rightarrow> 's handler" where
  "contentLength next r ws =
     (if 1 * 1000 * 1000 * 1000 < sint (ContentLength r) then Some (write_header 500 (fst ws), snd ws)
      else next r ws)"

definition requestContentType :: "'s handler \<Rightarrow> 's handler" where
  "requestContentType next r ws =
     (if Header_Get r ''Content-Type'' \<noteq> ''application/json'' then Some (write_header 404 (fst ws), snd ws)
      else next r ws)"

definition handlerWithMiddleware :: "'s handler \<Rightarrow> 's handler" where
  "handlerWithMiddleware handle = requestContentType (contentLength (postOnly handle))"

definition extender_errorHandler :: "'s handler" where
  "extender_errorHandler r ws =
     Some (write_header 404 (header_add ''Content-Type'' ''application/json'' (fst ws)), snd ws)"

subsection \<open>The scheduler interface and the routes\<close>

record 's scheduler =
  sched_Bind :: "'s handler"
  sched_Prioritize :: "'s handler"
  sched_Filter :: "'s handler"

text \<open>
  \<^verbatim>\<open>http.ServeMux\<close>: a path that is not in its clean form is redirected to that form, except for
  CONNECT; otherwise the pattern equal to the path is chosen, and \<^verbatim>\<open>"/"\<close> for every other path that
  starts with a slash.
\<close>

definition clean_segment :: "string list \<Rightarrow> string \<Rightarrow> string list" where
  "clean_segment out seg =
     (if seg = [] \<or> seg = ''.'' then out else if seg = ''..'' then butlast out else out @ [seg])"

definition cleanPath :: "string \<Rightarrow> string" where
  "cleanPath p =
     (if p = [] then ''/''
      else let p = (if hd p \<noteq> CHR ''/'' then CHR ''/'' # p else p);
               np = CHR ''/'' # join_with CHR ''/'' (foldl clean_segment [] (split_on CHR ''/'' p))
           in if last p = CHR ''/'' \<and> np \<noteq> ''/'' then np @ ''/'' else np)"

datatype route = Registered string | Redirect string | NotFound

definition mux_match :: "string list \<Rightarrow> string \<Rightarrow> route" where
  "mux_match patterns path =
     (if path \<in> set patterns then Registered path
      else if path \<noteq> [] \<and> hd path = CHR ''/'' then Registered ''/'' else NotFound)"

definition mux_route :: "string list \<Rightarrow> http_request \<Rightarrow> route" where
  "mux_route patterns r =
     (if Method r = ''CONNECT'' then mux_match patterns (URL_Path r)
      else let path = cleanPath (URL_Path r)
           in if path \<noteq> URL_Path r then Redirect path else mux_match patterns path)"

text \<open>
  The handler that \<^verbatim>\<open>StartServer\<close> serves. Of the answers that the multiplexer gives itself only the status is
  modelled.
\<close>

definition StartServer_handlers :: "'s scheduler \<Rightarrow> (string \<times> 's handler) list" where
  "StartServer_handlers m =
     [(''/'', handlerWithMiddleware extender_errorHandler),
      (''/scheduler/prioritize'', handlerWithMiddleware (sched_Prioritize m)),
      (''/scheduler/filter'', handlerWithMiddleware (sched_Filter m)),
      (''/scheduler/bind'', handlerWithMiddleware (sched_Bind m))]"

definition ServeHTTP :: "'s scheduler \<Rightarrow> 's handler" where
  "ServeHTTP m r ws =
     (case mux_route (map fst (StartServer_handlers m)) r of
        Registered pattern \<Rightarrow>
          (case map_of (StartServer_handlers m) pattern of
             Some handler \<Rightarrow> handler r ws
           | None \<Rightarrow> None)
      | Redirect path \<Rightarrow> Some (write_header 301 (fst ws), snd ws)
      | NotFound \<Rightarrow> Some (write_header 404 (fst ws), snd ws))"

text \<open>Requests served one after the other, each with a response writer of its own.\<close>

fun serve_requests :: "'s scheduler \<Rightarrow> http_request list \<Rightarrow> 's \<Rightarrow> (http_writer list \<times> 's) option" where
  "serve_requests m [] s = Some ([], s)"
| "serve_requests m (r # rs) s = do {
     (w, s) \<leftarrow> ServeHTTP m r (new_writer, s);
     (ws, s) \<leftarrow> serve_requests m rs s;
     Some (w # ws, s)
   }"

subsection \<open>What the checks let through\<close>

definition acceptable :: "http_request \<Rightarrow> bool" where
  "acceptable r \<longleftrightarrow> Header_Get r ''Content-Type'' = ''application/json'' \<and>
     sint (ContentLength r) \<le> 1000000000 \<and> Method r = ''POST''"

definition refusal :: "http_request \<Rightarrow> int" where
  "refusal r =
     (if Header_Get r ''Content-Type'' \<noteq> ''application/json'' then 404
      else if 1000000000 < sint (ContentLength r) then 500 else 405)"

lemma middleware_spec:
  "handlerWithMiddleware handle r (w, s) =
     (if acceptable r then handle r (w, s) else Some (write_header (refusal r) w, s))"
  by (auto simp: handlerWithMiddleware_def requestContentType_def contentLength_def postOnly_def acceptable_def refusal_def)

lemma own_paths_clean [simp]:
  "cleanPath ''/scheduler/filter'' = ''/scheduler/filter''" "cleanPath ''/scheduler/bind'' = ''/scheduler/bind''"
  "cleanPath ''/scheduler/prioritize'' = ''/scheduler/prioritize''"
  by code_simp+

text \<open>The endpoint that a request reaches: its handler with the middleware.\<close>

lemma ServeHTTP_route:
  "ServeHTTP m r (w, s) =
     (case mux_route (map fst (StartServer_handlers m)) r of
        Registered pattern \<Rightarrow>
          if acceptable r
          then (if pattern = ''/scheduler/prioritize'' then sched_Prioritize m
                else if pattern = ''/scheduler/filter'' then sched_Filter m
                else if pattern = ''/scheduler/bind'' then sched_Bind m else extender_errorHandler) r (w, s)
          else Some (write_header (refusal r) w, s)
      | Redirect path \<Rightarrow> Some (write_header 301 w, s)
      | NotFound \<Rightarrow> Some (write_header 404 w, s))"
proof -
  have "pattern \<in> set (map fst (StartServer_handlers m))"
    if "mux_route (map fst (StartServer_handlers m)) r = Registered pattern" for pattern
    using that by (auto simp: mux_route_def mux_match_def StartServer_handlers_def Let_def split: if_splits)
  then show ?thesis
    by (auto simp: ServeHTTP_def StartServer_handlers_def middleware_spec split: route.split)
qed

lemma ServeHTTP_endpoints:
  assumes "acceptable r"
  shows "URL_Path r = ''/scheduler/filter'' \<Longrightarrow> ServeHTTP m r ws = sched_Filter m r ws"
    "URL_Path r = ''/scheduler/bind'' \<Longrightarrow> ServeHTTP m r ws = sched_Bind m r ws"
    "URL_Path r = ''/scheduler/prioritize'' \<Longrightarrow> ServeHTTP m r ws = sched_Prioritize m r ws"
  using assms by (cases ws; simp add: ServeHTTP_route mux_route_def mux_match_def StartServer_handlers_def acceptable_def)+

text \<open>C27: what reaches a handler. A request whose content type is not JSON, whose length exceeds 10^9 bytes or
  that is not a POST request is answered with 404, 500 or 405, in this order of precedence, with an empty body and without
  any handler touching the state; a request that passes the checks reaches the handler of its path, and the error handler
  (404) for every path but the three of the scheduler; a path that is not in its clean form is redirected.\<close>

theorem extender_server_dispatch:
  "ServeHTTP m r (new_writer, s) =
     (case mux_route [''/'', ''/scheduler/prioritize'', ''/scheduler/filter'', ''/scheduler/bind''] r of
        Registered pattern \<Rightarrow>
          if Header_Get r ''Content-Type'' \<noteq> ''application/json'' then Some (new_writer\<lparr>w_status := Some 404\<rparr>, s)
          else if 1000000000 < sint (ContentLength r) then Some (new_writer\<lparr>w_status := Some 500\<rparr>, s)
          else if Method r \<noteq> ''POST'' then Some (new_writer\<lparr>w_status := Some 405\<rparr>, s)
          else if pattern = ''/scheduler/prioritize'' then sched_Prioritize m r (new_writer, s)
          else if pattern = ''/scheduler/filter'' then sched_Filter m r (new_writer, s)
          else if pattern = ''/scheduler/bind'' then sched_Bind m r (new_writer, s)
          else Some (new_writer\<lparr>w_header := [(''Content-Type'', [''application/json''])], w_status := Some 404\<rparr>, s)
      | Redirect path \<Rightarrow> Some (new_writer\<lparr>w_status := Some 301\<rparr>, s)
      | NotFound \<Rightarrow> Some (new_writer\<lparr>w_status := Some 404\<rparr>, s))"
proof -
  have patterns: "map fst (StartServer_handlers m) = [''/'', ''/scheduler/prioritize'', ''/scheduler/filter'', ''/scheduler/bind'']"
    by (simp add: StartServer_handlers_def)
  have error: "write_header 404 (header_add ''Content-Type'' ''application/json'' new_writer) =
      new_writer\<lparr>w_header := [(''Content-Type'', [''application/json''])], w_status := Some 404\<rparr>"
    by (simp add: write_header_def header_add_def)
  show ?thesis
    unfolding ServeHTTP_route patterns
    by (cases "mux_route [''/'', ''/scheduler/prioritize'', ''/scheduler/filter'', ''/scheduler/bind''] r")
      (simp_all add: acceptable_def refusal_def extender_errorHandler_def error)
qed

subsection \<open>The contract of a scheduler\<close>

text \<open>
  What the server relies on: each of the three handlers keeps the invariant of the state that they share, and
  answers with one of three status codes. Then so does the server, over any sequence of requests, whatever they hold.
\<close>

definition handlers_of :: "'s scheduler \<Rightarrow> 's handler set" where
  "handlers_of m = {sched_Prioritize m, sched_Filter m, sched_Bind m}"

locale scheduler_service =
  fixes m :: "'s scheduler" and ok :: "'s \<Rightarrow> bool"
  assumes handler_keeps: "h \<in> handlers_of m \<Longrightarrow> ok s \<Longrightarrow> h r (new_writer, s) = Some (w, s') \<Longrightarrow> ok s'"
    and handler_answers: "h \<in> handlers_of m \<Longrightarrow> ok s \<Longrightarrow> h r (new_writer, s) = Some (w, s') \<Longrightarrow> answered w \<in> {200, 400, 404}"
begin

lemma serve_keeps:
  assumes "ok s" "ServeHTTP m r (new_writer, s) = Some (w, s')"
  shows "ok s' \<and> answered w \<in> {200, 301, 400, 404, 405, 500} \<and> (\<not> acceptable r \<longrightarrow> s' = s)"
proof -
  have h: "ok s' \<and> answered w \<in> {200, 301, 400, 404, 405, 500}"
    if "h \<in> handlers_of m" "h r (new_writer, s) = Some (w, s')" for h
    using handler_keeps [OF that(1) assms(1) that(2)] handler_answers [OF that(1) assms(1) that(2)] by auto
  show ?thesis
    using assms h [of "sched_Prioritize m"] h [of "sched_Filter m"] h [of "sched_Bind m"]
    by (auto simp: ServeHTTP_route handlers_of_def extender_errorHandler_def refusal_def split: route.splits if_splits)
qed

lemma requests_keep:
  "ok s \<Longrightarrow> serve_requests m rs s = Some (ws, s') \<Longrightarrow>
     ok s' \<and> (\<forall>w \<in> set ws. answered w \<in> {200, 301, 400, 404, 405, 500}) \<and> length ws = length rs"
proof (induction rs arbitrary: s ws)
  case (Cons r rs)
  from Cons.prems(2) obtain w s1 ws1 where s: "ServeHTTP m r (new_writer, s) = Some (w, s1)"
    "serve_requests m rs s1 = Some (ws1, s')" "ws = w # ws1" by (auto split: bind_splits)
  from serve_keeps [OF Cons.prems(1) s(1)] Cons.IH [OF _ s(2)] s(3) show ?case by auto
qed simp

end

end
