(* ===== verification/Gpu_Server.thy ===== *)
theory Gpu_Server
  imports Gpu_Requests Gpu_Events Http_Server
begin

text \<open>
  GAS as it runs: the extender's handlers behind the HTTP server, on the cache that the informers' events and the
  workers change. The cache's invariant and the requests of the scheduler fit together.
\<close>

text \<open>What the JSON library does, the calls to Kubernetes and the order of a ranged map.\<close>

record gas_env =
  ge_order :: "int list \<Rightarrow> int list"
  ge_api :: sched_api
  ge_decode_filter :: "string \<Rightarrow> extender_args option"
  ge_encode_filter :: "filter_result \<Rightarrow> string option"
  ge_decode_bind :: "string \<Rightarrow> bind_args option"
  ge_encode_bind :: "string \<Rightarrow> string option"

definition GASExtender :: "gas_env \<Rightarrow> gas_extender \<Rightarrow> 'c cache_ops \<Rightarrow> 'c scheduler" where
  "GASExtender env m ops =
     \<lparr>sched_Bind = (\<lambda>r (w, c). map_option (\<lambda>(w, c, calls). (w, c))
        (Bind (ge_order env) ops m (ge_api env) (ge_decode_bind env) (ge_encode_bind env) (Body_close_error r) (Body r) c w)),
      sched_Prioritize = (\<lambda>r (w, c). Some (Prioritize w, c)),
      sched_Filter = (\<lambda>r (w, c). map_option (\<lambda>w. (w, c))
        (Filter (ge_order env) ops m (ge_decode_filter env) (ge_encode_filter env) (Body_close_error r) (Body r) c w))\<rparr>"

text \<open>A bind request changes the cache by events of the cache only.\<close>

lemma bindNode_reachable:
  assumes "bindNode ord (gas_cache_ops ord get_node get_pod) m api args c = Some (error, c', calls)"
    and "range_order ord" "reachable c" "\<forall>ns name pod. get_pod ns name = Inr pod \<longrightarrow> pod_sane pod"
  shows "reachable c'"
proof -
  have step: "reachable d'"
    if "adjustPodResourcesL ord pod adj annotation tileAnnotation nodeName d = (result, d')" "pod_sane pod" "reachable d"
    for pod adj annotation tileAnnotation nodeName d result d'
    using reachable.step [OF that(3) cache_step.scheduler [OF assms(2) that(2,1)]] .
  from assms(1) show ?thesis
  proof (cases rule: bind_cases)
    case early
    with assms(3) show ?thesis by simp
  next
    case (commit pod node cards pref annotation tileAnnotation)
    from commit(2) assms(4) have sane: "pod_sane pod" unfolding retrievePod_gas by blast
    from commit(6) show ?thesis
    proof (cases rule: bind_commit_cases)
      case (adjust err)
      with step [OF _ sane assms(3)] show ?thesis by (auto simp: adjustPodResourcesL_def)
    next
      case (undone err c1)
      then have "reachable c1" using step [OF _ sane assms(3)] by (auto simp: adjustPodResourcesL_def)
      with undone(3) step [OF _ sane] show ?thesis by (metis adjustPodResourcesL_def gas_cache_ops_simps(1) prod.collapse)
    next
      case bound
      with step [OF _ sane assms(3)] show ?thesis by (auto simp: adjustPodResourcesL_def)
    qed
  qed
qed

lemma Filter_codes: "Filter ord ops m decode encode close_error body c new_writer = Some w \<Longrightarrow> answered w \<in> {200, 400, 404}"
  by (auto simp: Filter_def writeResponse_def Let_def split: sum.splits bind_splits option.splits if_splits)

lemma Bind_codes:
  "Bind ord ops m api decode encode close_error body c new_writer = Some (w, c', calls) \<Longrightarrow> answered w \<in> {200, 400, 404}"
  using Bind_status [of ord ops m api decode encode close_error body c w c' calls] by (auto simp: answered_def)

interpretation gas_server: scheduler_service
  "GASExtender env m (gas_cache_ops (ge_order env) get_node get_pod)"
  "\<lambda>c. reachable c \<and> range_order (ge_order env) \<and> (\<forall>ns name pod. get_pod ns name = Inr pod \<longrightarrow> pod_sane pod)"
proof
  fix h r c w c'
  assume h: "h \<in> handlers_of (GASExtender env m (gas_cache_ops (ge_order env) get_node get_pod))"
    "h r (new_writer, c) = Some (w, c')"
  then show "answered w \<in> {200, 400, 404}"
    by (auto simp: handlers_of_def GASExtender_def Prioritize_def dest: Filter_codes Bind_codes)
  assume ok: "reachable c \<and> range_order (ge_order env) \<and> (\<forall>ns name pod. get_pod ns name = Inr pod \<longrightarrow> pod_sane pod)"
  have "reachable c'"
  proof (cases "c' = c")
    case False
    with h obtain calls where b: "Bind (ge_order env) (gas_cache_ops (ge_order env) get_node get_pod) m (ge_api env)
        (ge_decode_bind env) (ge_encode_bind env) (Body_close_error r) (Body r) c new_writer = Some (w, c', calls)"
      by (auto simp: handlers_of_def GASExtender_def)
    with False obtain args error where "bindNode (ge_order env) (gas_cache_ops (ge_order env) get_node get_pod) m (ge_api env)
        args c = Some (error, c', calls)"
      by (auto simp: Bind_def Let_def split: sum.splits bind_splits)
    with ok show ?thesis using bindNode_reachable by blast
  qed (use ok in simp)
  with ok show "reachable c' \<and> range_order (ge_order env) \<and> (\<forall>ns name pod. get_pod ns name = Inr pod \<longrightarrow> pod_sane pod)"
    by simp
qed

text \<open>The server and the event handlers of the cache fit together. From every state that any sequence of
  informer events, worker rounds and earlier requests reaches, any sequence of HTTP requests leads to such a state again: no
  amount in use is negative and every map of the cache keeps one entry per key; each request is answered with one of six
  status codes.\<close>

theorem gas_server_keeps_cache:
  assumes "reachable c" "range_order (ge_order env)" "\<forall>ns name pod. get_pod ns name = Inr pod \<longrightarrow> pod_sane pod"
    and "serve_requests (GASExtender env m (gas_cache_ops (ge_order env) get_node get_pod)) rs c = Some (ws, c')"
  shows "reachable c' \<and> cache_inv c' \<and> (\<forall>nodeName cardName res. 0 \<le> node_usage c' nodeName cardName res) \<and>
    length ws = length rs \<and> (\<forall>w \<in> set ws. answered w \<in> {200, 301, 400, 404, 405, 500})"
proof -
  note served = gas_server.requests_keep [OF _ assms(4)]
  from served assms(1-3) have "reachable c'" by blast
  with reachable_inv [OF this] served assms(1-3) show ?thesis by (simp add: state_inv_def node_usage_def)
qed

definition small_env :: gas_env where
  "small_env = \<lparr>ge_order = id, ge_api = \<lparr>api_patch = (\<lambda>pod payload. None), api_bind = (\<lambda>ns b. None), api_now = ''1''\<rparr>,
     ge_decode_filter = (\<lambda>s. None), ge_encode_filter = (\<lambda>r. None), ge_decode_bind = (\<lambda>s. Some small_args),
     ge_encode_bind = (\<lambda>s. Some ''{}'')\<rparr>"

definition bind_request :: http_request where
  "bind_request = \<lparr>Method = ''POST'', URL_Path = ''/scheduler/bind'', ContentLength = 2,
     Header = [(''Content-Type'', [''application/json''])], Body = Some ''{}'', Body_close_error = None\<rparr>"

lemma gas_server_keeps_cache_witness:
  "\<exists>ws c'. serve_requests (GASExtender small_env plain_extender
       (gas_cache_ops (ge_order small_env) (\<lambda>name. Inr two_gpu_node) (\<lambda>ns name. Inr small_pod)))
       [bind_request, bind_request\<lparr>Method := ''GET''\<rparr>] newCache = Some (ws, c') \<and>
     map answered ws = [200, 405] \<and> reachable c' \<and> node_usage c' ''n1'' ''card0'' ''gpu.intel.com/i915'' = 1"
    (is "\<exists>ws c'. ?run = Some (ws, c') \<and> _")
proof -
  have run: "map_option (\<lambda>(ws, c'). (map answered ws, node_usage c' ''n1'' ''card0'' ''gpu.intel.com/i915'')) ?run =
      Some ([200, 405], 1)" by code_simp
  then obtain ws c' where r: "?run = Some (ws, c')" by auto
  have "range_order (ge_order small_env)" by (simp add: small_env_def)
  from gas_server_keeps_cache [OF reachable.start this _ r] r run show ?thesis by auto
qed

end
