(* ===== verification/Gpu_Informers.thy ===== *)
theory Gpu_Informers
  imports Gpu_Events
begin

text \<open>
  How the cache of GAS is started (\<^verbatim>\<open>NewCache\<close> in
  \<^verbatim>\<open>gpu-aware-scheduling/pkg/gpuscheduler/node_resource_cache.go\<close>): the filtering handlers that it registers with
  the informers of pods and nodes, and the answers of client-go on which it gives up.
\<close>

subsection \<open>Filtering handlers\<close>

record event_handler =
  FilterFunc :: "kube_obj \<Rightarrow> bool"
  AddFunc :: "kube_obj \<Rightarrow> cache \<Rightarrow> cache"
  UpdateFunc :: "kube_obj \<Rightarrow> kube_obj \<Rightarrow> cache \<Rightarrow> cache"
  DeleteFunc :: "kube_obj \<Rightarrow> cache \<Rightarrow> cache"

definition createFilteringPodResourceHandler :: event_handler where
  "createFilteringPodResourceHandler =
     \<lparr>FilterFunc = podFilter, AddFunc = addPodToCache, UpdateFunc = updatePodInCache, DeleteFunc = deletePodFromCache\<rparr>"

definition createFilteringNodeResourceHandler :: event_handler where
  "createFilteringNodeResourceHandler =
     \<lparr>FilterFunc = nodeFilter, AddFunc = addNodeToCache, UpdateFunc = updateNodeInCache, DeleteFunc = deleteNodeFromCache\<rparr>"

text \<open>
  What an informer tells a handler. How \<^verbatim>\<open>FilteringResourceEventHandler\<close> passes it on is a parameter; its
  documentation says that an object that starts to pass the filter with an update counts as added, and one that stops to
  pass it as deleted.
\<close>

datatype notification = Added kube_obj | Updated kube_obj kube_obj | Deleted kube_obj

definition filters_events :: "(event_handler \<Rightarrow> notification \<Rightarrow> cache \<Rightarrow> cache) \<Rightarrow> bool" where
  "filters_events deliver \<longleftrightarrow>
     (\<forall>h obj c. deliver h (Added obj) c = (if FilterFunc h obj then AddFunc h obj c else c)) \<and>
     (\<forall>h obj c. deliver h (Deleted obj) c = (if FilterFunc h obj then DeleteFunc h obj c else c)) \<and>
     (\<forall>h old new c. deliver h (Updated old new) c =
        (if FilterFunc h new then (if FilterFunc h old then UpdateFunc h old new c else AddFunc h new c)
         else if FilterFunc h old then DeleteFunc h old c else c))"

subsection \<open>Starting the cache\<close>

text \<open>The answers of client-go: whether the informers' stores synchronise, and the errors of registering the handlers.\<close>

record informer_lib =
  WaitForCacheSync_nodes :: bool
  WaitForCacheSync_pods :: bool
  AddEventHandler_pods :: "event_handler \<Rightarrow> string option"
  AddEventHandler_nodes :: "event_handler \<Rightarrow> string option"

record started_cache =
  sc_cache :: cache
  sc_pods :: event_handler
  sc_nodes :: event_handler

definition NewCache :: "informer_lib \<Rightarrow> 'k option \<Rightarrow> started_cache option" where
  "NewCache lib client =
     (if client = None then None
      else if \<not> WaitForCacheSync_nodes lib then None
      else if \<not> WaitForCacheSync_pods lib then None
      else (let cache = newCache;
                pods = createFilteringPodResourceHandler;
                nodes = createFilteringNodeResourceHandler;
                err = AddEventHandler_pods lib pods;
                err2 = AddEventHandler_nodes lib nodes
            in if err \<noteq> None \<or> err2 \<noteq> None then None
               else Some \<lparr>sc_cache = cache, sc_pods = pods, sc_nodes = nodes\<rparr>))"

lemma NewCache_started:
  "NewCache lib client = Some sc \<Longrightarrow>
     sc = \<lparr>sc_cache = newCache, sc_pods = createFilteringPodResourceHandler, sc_nodes = createFilteringNodeResourceHandler\<rparr>"
  by (auto simp: NewCache_def Let_def split: if_splits)

subsection \<open>Notifications are events of the cache\<close>

text \<open>The pods of a notification have amounts that are not negative and do not overflow.\<close>

definition obj_sane :: "kube_obj \<Rightarrow> bool" where
  "obj_sane obj \<longleftrightarrow> (\<forall>pod. tombstone_pod obj = Some pod \<longrightarrow> pod_sane pod)"

fun notification_sane :: "notification \<Rightarrow> bool" where
  "notification_sane (Added obj) = obj_sane obj"
| "notification_sane (Updated old new) = (obj_sane old \<and> obj_sane new)"
| "notification_sane (Deleted obj) = obj_sane obj"

lemma pod_handler_steps:
  assumes "obj_sane obj" "podFilter obj"
  shows "addPodToCache obj c = c \<or> cache_step c (addPodToCache obj c)"
    "updatePodInCache old obj c = c \<or> cache_step c (updatePodInCache old obj c)"
    "cache_step c (deletePodFromCache obj c)"
proof -
  show "cache_step c (deletePodFromCache obj c)"
    using assms by (intro cache_step.pod_delete) (auto simp: obj_sane_def)
  show "addPodToCache obj c = c \<or> cache_step c (addPodToCache obj c)"
    "updatePodInCache old obj c = c \<or> cache_step c (updatePodInCache old obj c)"
    using assms cache_step.pod_add cache_step.pod_update
    by (cases obj; simp add: obj_sane_def tombstone_pod_def addPodToCache_def updatePodInCache_def)+
qed

lemma pod_notification_steps:
  assumes "filters_events deliver" "notification_sane n"
  shows "deliver createFilteringPodResourceHandler n c = c \<or> cache_step c (deliver createFilteringPodResourceHandler n c)"
  using assms pod_handler_steps
  by (cases n) (auto simp: filters_events_def createFilteringPodResourceHandler_def)

lemma node_notification_steps:
  assumes "filters_events deliver"
  shows "deliver createFilteringNodeResourceHandler n c = c \<or> cache_step c (deliver createFilteringNodeResourceHandler n c)"
  using assms cache_step.intros(4-6)
  by (cases n) (auto simp: filters_events_def createFilteringNodeResourceHandler_def)

end
