(* ===== verification/Http_Start.thy ===== *)
theory Http_Start
  imports Http_Server
begin

text \<open>
  Starting the server of an extender (\<^verbatim>\<open>extender/scheduler.go\<close>): how \<^verbatim>\<open>StartServer\<close> and
  \<^verbatim>\<open>configureSecureServer\<close> set up \<^verbatim>\<open>http.Server\<close> and \<^verbatim>\<open>tls.Config\<close>, and whom a server that is set up so
  serves. Reading a file, parsing certificates and verifying a chain are parameters.
\<close>

subsection \<open>Servers and their configuration\<close>

text \<open>The numbers of \<^verbatim>\<open>crypto/tls\<close>.\<close>

definition VersionTLS12 :: "16 word" where "VersionTLS12 = 0x0303"
definition VersionTLS13 :: "16 word" where "VersionTLS13 = 0x0304"
definition CurveP256 :: "16 word" where "CurveP256 = 23"
definition CurveP384 :: "16 word" where "CurveP384 = 24"
definition CurveP521 :: "16 word" where "CurveP521 = 25"
definition TLS_ECDHE_RSA_WITH_AES_256_GCM_SHA384 :: "16 word" where
  "TLS_ECDHE_RSA_WITH_AES_256_GCM_SHA384 = 0xc030"
definition TLS_ECDHE_ECDSA_WITH_AES_256_GCM_SHA384 :: "16 word" where
  "TLS_ECDHE_ECDSA_WITH_AES_256_GCM_SHA384 = 0xc02c"

datatype client_auth =
  NoClientCert | RequestClientCert | RequireAnyClientCert | VerifyClientCertIfGiven | RequireAndVerifyClientCert

record 'cert tls_config =
  MinVersion :: "16 word"
  CurvePreferences :: "(16 word) list"
  ClientCAs :: "'cert list"
  ClientAuth :: client_auth
  PreferServerCipherSuites :: bool
  InsecureSkipVerify :: bool
  CipherSuites :: "(16 word) list"

text \<open>Of \<^verbatim>\<open>TLSNextProto\<close> only the protocols are kept; an empty map that is not nil switches HTTP/2 off.\<close>

record ('s, 'cert) http_server =
  Addr :: string
  srv_Handler :: "'s handler option"
  ReadHeaderTimeout :: int64
  WriteTimeout :: int64
  MaxHeaderBytes :: int
  TLSConfig :: "'cert tls_config option"
  TLSNextProto :: "string list option"

text \<open>
  Files and certificates: \<^verbatim>\<open>os.ReadFile\<close> returns what it could read, and the error if there is one;
  \<^verbatim>\<open>AppendCertsFromPEM\<close> adds the certificates that it finds in a text; the last component decides whether a
  certificate verifies against a pool.
\<close>

record 'cert cert_env =
  os_ReadFile :: "string \<Rightarrow> string \<times> string option"
  certs_in_PEM :: "string \<Rightarrow> 'cert list"
  cert_verifies :: "'cert list \<Rightarrow> 'cert \<Rightarrow> bool"

definition readTimeout :: int64 where "readTimeout = 5"
definition writeTimeout :: int64 where "writeTimeout = 10"
definition maxHeader :: int where "maxHeader = 1000"

text \<open>An error of reading is only logged.\<close>

definition configureSecureServer :: "'cert cert_env \<Rightarrow> string \<Rightarrow> string \<Rightarrow> ('s, 'cert) http_server" where
  "configureSecureServer env port caFile =
     (let (caCert, err) = os_ReadFile env caFile;
          caCertPool = [] @ certs_in_PEM env caCert;
          cfg = \<lparr>MinVersion = VersionTLS12, CurvePreferences = [CurveP521, CurveP384, CurveP256],
                 ClientCAs = caCertPool, ClientAuth = RequireAndVerifyClientCert, PreferServerCipherSuites = True,
                 InsecureSkipVerify = False,
                 CipherSuites = [TLS_ECDHE_RSA_WITH_AES_256_GCM_SHA384, TLS_ECDHE_ECDSA_WITH_AES_256_GCM_SHA384]\<rparr>
      in \<lparr>Addr = '':'' @ port, srv_Handler = None, ReadHeaderTimeout = readTimeout * time_Second,
          WriteTimeout = writeTimeout * time_Second, MaxHeaderBytes = maxHeader, TLSConfig = Some cfg,
          TLSNextProto = Some []\<rparr>)"

text \<open>
  The call that \<^verbatim>\<open>StartServer\<close> blocks in, and what follows when it returns, as it does only with an error:
  over HTTP the function returns; over HTTPS \<^verbatim>\<open>klog.Fatal\<close> ends the process with status 255.
\<close>

datatype ('s, 'cert) listening =
    ListenAndServe "('s, 'cert) http_server"
  | ListenAndServeTLS "('s, 'cert) http_server" string string

datatype process_end = Returns | Exits int

definition StartServer ::
  "'cert cert_env \<Rightarrow> 's scheduler \<Rightarrow> string \<Rightarrow> string \<Rightarrow> string \<Rightarrow> string \<Rightarrow> bool \<Rightarrow>
   ('s, 'cert) listening \<times> (string \<Rightarrow> process_end)" where
  "StartServer env m port certFile keyFile caFile unsafe =
     (let mx = ServeHTTP m in
      if unsafe
      then (ListenAndServe
              \<lparr>Addr = '':'' @ port, srv_Handler = Some mx, ReadHeaderTimeout = readTimeout * time_Second,
               WriteTimeout = writeTimeout * time_Second, MaxHeaderBytes = maxHeader, TLSConfig = None,
               TLSNextProto = None\<rparr>,
            \<lambda>err. Returns)
      else (let srv = configureSecureServer env port caFile;
                srv = srv\<lparr>srv_Handler := Some mx\<rparr>
            in (ListenAndServeTLS srv certFile keyFile, \<lambda>err. Exits 255)))"

subsection \<open>Connections\<close>

text \<open>
  What a client brings to a TLS connection. The handshake of \<^verbatim>\<open>crypto/tls\<close> takes the highest version
  that both sides have, fails below \<^verbatim>\<open>MinVersion\<close>, needs a curve and, up to TLS 1.2, a cipher suite of the
  configuration, and treats the client's certificate as \<^verbatim>\<open>ClientAuth\<close> says.
\<close>

record 'cert tls_client =
  client_versions :: "(16 word) list"
  client_curves :: "(16 word) list"
  client_suites :: "(16 word) list"
  client_cert :: "'cert option"

fun client_admitted :: "('cert \<Rightarrow> bool) \<Rightarrow> client_auth \<Rightarrow> 'cert option \<Rightarrow> bool" where
  "client_admitted ok NoClientCert cert = True"
| "client_admitted ok RequestClientCert cert = True"
| "client_admitted ok RequireAnyClientCert cert = (cert \<noteq> None)"
| "client_admitted ok VerifyClientCertIfGiven cert = (case cert of None \<Rightarrow> True | Some c \<Rightarrow> ok c)"
| "client_admitted ok RequireAndVerifyClientCert cert = (case cert of None \<Rightarrow> False | Some c \<Rightarrow> ok c)"

definition negotiated_version :: "(16 word) list \<Rightarrow> 16 word" where
  "negotiated_version versions = fold max (filter (\<lambda>v. v \<le> VersionTLS13) versions) 0"

definition handshake :: "'cert cert_env \<Rightarrow> 'cert tls_config \<Rightarrow> 'cert tls_client \<Rightarrow> bool" where
  "handshake env cfg cl \<longleftrightarrow>
     (let version = negotiated_version (client_versions cl) in
        MinVersion cfg \<le> version \<and>
        list_ex (\<lambda>c. c \<in> set (client_curves cl)) (CurvePreferences cfg) \<and>
        (version \<le> VersionTLS12 \<longrightarrow> list_ex (\<lambda>s. s \<in> set (client_suites cl)) (CipherSuites cfg)) \<and>
        client_admitted (cert_verifies env (ClientCAs cfg)) (ClientAuth cfg) (client_cert cl))"

text \<open>
  A connection with one request: refused without an answer, or answered by the server's handler. A server that is
  started with a certificate has a configuration and a handler.
\<close>

definition serve_connection ::
  "'cert cert_env \<Rightarrow> ('s, 'cert) listening \<Rightarrow> 'cert tls_client \<times> http_request \<Rightarrow> 's \<Rightarrow>
   (http_writer option \<times> 's) option" where
  "serve_connection env l conn s =
     (case conn of (cl, r) \<Rightarrow>
        let (srv, admitted) = (case l of
              ListenAndServe srv \<Rightarrow> (srv, True)
            | ListenAndServeTLS srv certFile keyFile \<Rightarrow>
                (srv, case TLSConfig srv of None \<Rightarrow> False | Some cfg \<Rightarrow> handshake env cfg cl))
        in case (admitted, srv_Handler srv) of
             (True, Some handler) \<Rightarrow> map_option (\<lambda>(w, s). (Some w, s)) (handler r (new_writer, s))
           | _ \<Rightarrow> Some (None, s))"

fun serve_connections ::
  "'cert cert_env \<Rightarrow> ('s, 'cert) listening \<Rightarrow> ('cert tls_client \<times> http_request) list \<Rightarrow> 's \<Rightarrow>
   (http_writer option list \<times> 's) option" where
  "serve_connections env l [] s = Some ([], s)"
| "serve_connections env l (conn # conns) s = do {
     (w, s) \<leftarrow> serve_connection env l conn s;
     (ws, s) \<leftarrow> serve_connections env l conns s;
     Some (w # ws, s)
   }"

subsection \<open>Whom the server serves\<close>

text \<open>A client whose certificate verifies against those of the CA file, over TLS 1.2 or 1.3.\<close>

definition trusted_client :: "'cert cert_env \<Rightarrow> string \<Rightarrow> 'cert tls_client \<Rightarrow> bool" where
  "trusted_client env caFile cl \<longleftrightarrow>
     (\<exists>c. client_cert cl = Some c \<and> cert_verifies env (certs_in_PEM env (fst (os_ReadFile env caFile))) c) \<and>
     negotiated_version (client_versions cl) \<in> {VersionTLS12, VersionTLS13}"

lemma negotiated_version_le: "negotiated_version versions \<le> VersionTLS13"
proof -
  have "fold max (filter (\<lambda>v. v \<le> VersionTLS13) versions) v \<le> VersionTLS13" if "v \<le> VersionTLS13" for v
    using that by (induction versions arbitrary: v) auto
  then show ?thesis by (simp add: negotiated_version_def)
qed

text \<open>What the configuration asks for, read off the server that is started.\<close>

definition secure_config :: "'cert cert_env \<Rightarrow> string \<Rightarrow> 'cert tls_config" where
  "secure_config env caFile = the (TLSConfig (configureSecureServer env '''' caFile :: (unit, 'cert) http_server))"

lemma StartServer_secure:
  "fst (StartServer env m port certFile keyFile caFile False) =
     ListenAndServeTLS ((configureSecureServer env port caFile)\<lparr>srv_Handler := Some (ServeHTTP m)\<rparr>) certFile keyFile"
  "TLSConfig (configureSecureServer env port caFile) = Some (secure_config env caFile)"
  by (simp_all add: StartServer_def secure_config_def configureSecureServer_def split_beta Let_def)

lemma handshake_trusted: "handshake env (secure_config env caFile) cl \<Longrightarrow> trusted_client env caFile cl"
proof -
  assume h: "handshake env (secure_config env caFile) cl"
  then have "VersionTLS12 \<le> negotiated_version (client_versions cl)"
    by (simp add: handshake_def secure_config_def configureSecureServer_def split_beta Let_def)
  with negotiated_version_le [of "client_versions cl"]
  have "negotiated_version (client_versions cl) \<in> {VersionTLS12, VersionTLS13}"
    by (auto simp: VersionTLS12_def VersionTLS13_def word_le_def word_uint_eq_iff)
  with h show ?thesis
    by (auto simp: trusted_client_def handshake_def secure_config_def configureSecureServer_def split_beta Let_def
        split: option.splits)
qed

lemma serve_connection_secure:
  "serve_connection env (fst (StartServer env m port certFile keyFile caFile False)) (cl, r) s =
     (if handshake env (secure_config env caFile) cl
      then map_option (\<lambda>(w, s). (Some w, s)) (ServeHTTP m r (new_writer, s)) else Some (None, s))"
  by (simp add: serve_connection_def StartServer_secure)

lemma serve_connections_secure:
  "serve_connections env (fst (StartServer env m port certFile keyFile caFile False)) conns s = Some (ws, s') \<Longrightarrow>
     map (\<lambda>w. w \<noteq> None) ws = map (\<lambda>(cl, r). handshake env (secure_config env caFile) cl) conns \<and>
     serve_requests m (map snd (filter (\<lambda>(cl, r). handshake env (secure_config env caFile) cl) conns)) s =
       Some (map the (filter (\<lambda>w. w \<noteq> None) ws), s')"
proof (induction conns arbitrary: s ws)
  case (Cons conn conns)
  obtain cl r where conn: "conn = (cl, r)" by (cases conn)
  from Cons.prems conn obtain w s1 ws1 where
    w: "serve_connection env (fst (StartServer env m port certFile keyFile caFile False)) (cl, r) s = Some (w, s1)"
    and ws1: "serve_connections env (fst (StartServer env m port certFile keyFile caFile False)) conns s1 = Some (ws1, s')"
    and ws: "ws = w # ws1"
    by (auto split: bind_splits)
  from w Cons.IH [OF ws1] show ?case by (auto simp: conn ws serve_connection_secure split: if_splits)
qed simp

text \<open>C28: the server that is started without the unsafe option serves nobody but clients whose certificate
  verifies against the certificates of the CA file, over TLS 1.2 or later. The connections of all others are refused without
  an answer, and the answers and the state are the ones that the requests of the admitted clients alone produce. If no
  certificate verifies, as with a CA file that cannot be read, nobody is served.\<close>

theorem secure_server_serves_trusted:
  assumes "serve_connections env (fst (StartServer env m port certFile keyFile caFile False)) conns s = Some (ws, s')"
  shows "(\<exists>admitted. (\<forall>cl. admitted cl \<longrightarrow> trusted_client env caFile cl) \<and>
      map (\<lambda>w. w \<noteq> None) ws = map (admitted \<circ> fst) conns \<and>
      serve_requests m (map snd (filter (admitted \<circ> fst) conns)) s = Some (map the (filter (\<lambda>w. w \<noteq> None) ws), s')) \<and>
    ((\<forall>c. \<not> cert_verifies env (certs_in_PEM env (fst (os_ReadFile env caFile))) c) \<longrightarrow> set ws \<subseteq> {None} \<and> s' = s)"
proof -
  let ?admitted = "handshake env (secure_config env caFile)"
  have fst: "(\<lambda>(cl, r). ?admitted cl) = ?admitted \<circ> fst" by auto
  note served = serve_connections_secure [OF assms, unfolded fst]
  have "set ws \<subseteq> {None} \<and> s' = s"
    if none: "\<forall>c. \<not> cert_verifies env (certs_in_PEM env (fst (os_ReadFile env caFile))) c"
  proof -
    from none handshake_trusted [of env caFile] have none: "\<not> ?admitted cl" for cl by (auto simp: trusted_client_def)
    then have "filter (?admitted \<circ> fst) conns = []" by simp
    with served have "s' = s" by simp
    moreover from served none have "map (\<lambda>w. w \<noteq> None) ws = map (\<lambda>conn. False) conns" by simp
    then have "set (map (\<lambda>w. w \<noteq> None) ws) \<subseteq> {False}" by auto
    then have "set ws \<subseteq> {None}" by auto
    ultimately show ?thesis by simp
  qed
  moreover have "\<exists>admitted. (\<forall>cl. admitted cl \<longrightarrow> trusted_client env caFile cl) \<and>
      map (\<lambda>w. w \<noteq> None) ws = map (admitted \<circ> fst) conns \<and>
      serve_requests m (map snd (filter (admitted \<circ> fst) conns)) s = Some (map the (filter (\<lambda>w. w \<noteq> None) ws), s')"
    using served handshake_trusted [of env caFile] by (intro exI [of _ ?admitted]) simp
  ultimately show ?thesis by simp
qed

text \<open>A concrete server: a certificate is its name, and verifies when the pool holds it.\<close>

definition demo_certs :: "string cert_env" where
  "demo_certs = \<lparr>os_ReadFile = (\<lambda>path. if path = ''ca.crt'' then (''ca'', None) else ([], Some ''no such file'')),
     certs_in_PEM = (\<lambda>text. if text = [] then [] else [text]), cert_verifies = (\<lambda>pool c. c \<in> set pool)\<rparr>"

definition demo_client :: "string option \<Rightarrow> string tls_client" where
  "demo_client cert = \<lparr>client_versions = [VersionTLS12], client_curves = [CurveP256],
     client_suites = [TLS_ECDHE_RSA_WITH_AES_256_GCM_SHA384], client_cert = cert\<rparr>"

definition counting_scheduler :: "nat scheduler" where
  "counting_scheduler = \<lparr>sched_Bind = (\<lambda>r (w, n). Some (write_body ''{}'' w, n + 1)),
     sched_Prioritize = (\<lambda>r (w, n). Some (w, n)), sched_Filter = (\<lambda>r (w, n). Some (w, n))\<rparr>"

definition demo_bind_request :: http_request where
  "demo_bind_request = \<lparr>Method = ''POST'', URL_Path = ''/scheduler/bind'', ContentLength = 2,
     Header = [(''Content-Type'', [''application/json''])], Body = Some ''{}'', Body_close_error = None\<rparr>"

lemma secure_server_serves_trusted_witness:
  "\<exists>w. serve_connections demo_certs
       (fst (StartServer demo_certs counting_scheduler ''9001'' ''crt'' ''key'' ''ca.crt'' False))
       [(demo_client None, demo_bind_request), (demo_client (Some ''ca''), demo_bind_request)] 0 =
     Some ([None, Some w], 1) \<and> trusted_client demo_certs ''ca.crt'' (demo_client (Some ''ca''))"
proof -
  let ?run = "\<lambda>ca. serve_connections demo_certs
    (fst (StartServer demo_certs counting_scheduler ''9001'' ''crt'' ''key'' ca False))
    [(demo_client None, demo_bind_request), (demo_client (Some ''ca''), demo_bind_request)] 0"
  have "map_option (\<lambda>(ws, s). (map (map_option answered) ws, s)) (?run ''ca.crt'') = Some ([None, Some 200], 1)" by code_simp
  then obtain w where run: "?run ''ca.crt'' = Some ([None, Some w], 1)" by auto
  from secure_server_serves_trusted [OF run] run show ?thesis by auto
qed

end
