(* ===== verification/Kube_Client.thy ===== *)
theory Kube_Client
  imports Complex_Main PAS_Prelude
begin

text \<open>
  Getting a Kubernetes client (\<^verbatim>\<open>extender/client.go\<close>). The functions of client-go that read a
  configuration and make a client of it are parameters.
\<close>

type_synonym uint = "64 word"

record group_version =
  gv_Group :: string
  gv_Version :: string

text \<open>
  \<^verbatim>\<open>rest.Config\<close>: the fields that the sources set, and all others (host, credentials) as one. The rate is a
  \<^verbatim>\<open>float32\<close>; the sources only set it to integers up to 1000, which that type holds exactly.
\<close>

record ('o, 'ser) rest_config =
  Burst :: int64
  QPS :: rat
  GroupVersion :: "group_version option"
  APIPath :: string
  ContentType :: string
  NegotiatedSerializer :: "'ser option"
  config_others :: 'o

record ('o, 'ser, 'k) config_lib =
  InClusterConfig :: "string + ('o, 'ser) rest_config"
  BuildConfigFromFlags :: "string \<Rightarrow> string \<Rightarrow> string + ('o, 'ser) rest_config"
  NewForConfig :: "('o, 'ser) rest_config \<Rightarrow> string + 'k"

datatype config_error = NoClientConfig string | NoClientset string

definition GetKubeClientExt ::
  "('o, 'ser, 'k) config_lib \<Rightarrow> string \<Rightarrow> int64 \<Rightarrow> rat \<Rightarrow> config_error + 'k \<times> ('o, 'ser) rest_config" where
  "GetKubeClientExt lib kubeConfig burst qps =
     (case (case InClusterConfig lib of
              Inl err \<Rightarrow>
                (case BuildConfigFromFlags lib [] kubeConfig of
                   Inl err \<Rightarrow> Inl (NoClientConfig err)
                 | Inr clientConfig \<Rightarrow> Inr clientConfig)
            | Inr clientConfig \<Rightarrow> Inr clientConfig) of
        Inl err \<Rightarrow> Inl err
      | Inr clientConfig \<Rightarrow>
          (let clientConfig = clientConfig\<lparr>Burst := burst, QPS := qps\<rparr>
           in case NewForConfig lib clientConfig of
                Inl err \<Rightarrow> Inl (NoClientset err)
              | Inr kubeClient \<Rightarrow> Inr (kubeClient, clientConfig)))"

definition GetKubeClient ::
  "('o, 'ser, 'k) config_lib \<Rightarrow> string \<Rightarrow> config_error + 'k \<times> ('o, 'ser) rest_config" where
  "GetKubeClient lib kubeConfig = GetKubeClientExt lib kubeConfig 0 0"

text \<open>Where the configuration is from, and that the limits are the ones asked for.\<close>

lemma GetKubeClientExt_config:
  assumes "GetKubeClientExt lib kubeConfig burst qps = Inr (kubeClient, config)"
  obtains origin where
    "InClusterConfig lib = Inr origin \<or> isl (InClusterConfig lib) \<and> BuildConfigFromFlags lib [] kubeConfig = Inr origin"
    "config = origin\<lparr>Burst := burst, QPS := qps\<rparr>" "NewForConfig lib config = Inr kubeClient"
  using assms by (auto simp: GetKubeClientExt_def Let_def split: sum.splits)

end
