(* ===== verification/Gpu_Main.thy ===== *)
theory Gpu_Main
  imports Gpu_Server Gpu_Informers Http_Start Kube_Client
begin

text \<open>
  The command of GAS (\<^verbatim>\<open>gpu-aware-scheduling/cmd/gas-scheduler-extender/main.go\<close>) and the life of its process: the
  events of the informers, the rounds of the workers, the signals and the HTTPS connections, in any order.
\<close>

subsection \<open>The extender and the command\<close>

record gas_flags =
  fl_kubeConfig :: string
  fl_port :: string
  fl_certFile :: string
  fl_keyFile :: string
  fl_caFile :: string
  fl_enableAllowlist :: bool
  fl_enableDenylist :: bool
  fl_balancedRes :: string
  fl_burst :: uint
  fl_qps :: uint

definition defaultQPS :: uint where "defaultQPS = 5"
definition defaultBurst :: uint where "defaultBurst = 10"
definition maxQPSandBurst :: uint where "maxQPSandBurst = 1000"

text \<open>The values of the flags that the command line does not set.\<close>

definition default_flags :: gas_flags where
  "default_flags =
     \<lparr>fl_kubeConfig = ''/root/.kube/config'', fl_port = ''9001'', fl_certFile = ''/etc/kubernetes/pki/ca.crt'',
      fl_keyFile = ''/etc/kubernetes/pki/ca.key'', fl_caFile = ''/etc/kubernetes/pki/ca.crt'',
      fl_enableAllowlist = False, fl_enableDenylist = False, fl_balancedRes = [], fl_burst = defaultBurst,
      fl_qps = defaultQPS\<rparr>"

definition limit_flag :: "uint \<Rightarrow> uint" where
  "limit_flag v = (if maxQPSandBurst < v then maxQPSandBurst else v)"

definition NewGASExtender ::
  "informer_lib \<Rightarrow> 'k option \<Rightarrow> bool \<Rightarrow> bool \<Rightarrow> string \<Rightarrow> gas_extender \<times> started_cache option" where
  "NewGASExtender lib clientset enableAllowlist enableDenylist balanceResource =
     (\<lparr>balancedResource = balanceResource, allowlistEnabled = enableAllowlist, denylistEnabled = enableDenylist\<rparr>,
      NewCache lib clientset)"

text \<open>
  What the command uses: client-go, the certificates, the JSON coding and the calls to Kubernetes, and the informers' stores.
\<close>

record ('o, 'ser, 'k, 'cert) gas_main_env =
  gm_config :: "('o, 'ser, 'k) config_lib"
  gm_informers :: informer_lib
  gm_deliver :: "event_handler \<Rightarrow> notification \<Rightarrow> cache \<Rightarrow> cache"
  gm_certs :: "'cert cert_env"
  gm_gas :: gas_env
  gm_node :: "string \<Rightarrow> string + node"
  gm_pod :: "string \<Rightarrow> string \<Rightarrow> string + pod"

record ('k, 'cert) gas_process =
  gp_client :: 'k
  gp_extender :: gas_extender
  gp_cache :: "started_cache option"
  gp_listening :: "(cache, 'cert) listening"

text \<open>
  The command ends with status 1, or it serves. The cache may be nil then: what a request does on a nil cache, a nil pointer
  dereference, is not modelled.
\<close>

definition gas_main :: "('o, 'ser, 'k, 'cert) gas_main_env \<Rightarrow> gas_flags \<Rightarrow> process_end + ('k, 'cert) gas_process" where
  "gas_main env flags =
     (let qps = limit_flag (fl_qps flags);
          burst = limit_flag (fl_burst flags)
      in case GetKubeClientExt (gm_config env) (fl_kubeConfig flags) burst (of_int (uint qps)) of
           Inl err \<Rightarrow> Inl (Exits 1)
         | Inr (kubeClient, _) \<Rightarrow>
             (let (m, cache) = NewGASExtender (gm_informers env) (Some kubeClient) (fl_enableAllowlist flags)
                                 (fl_enableDenylist flags) (fl_balancedRes flags);
                  sch = GASExtender (gm_gas env) m (gas_cache_ops (ge_order (gm_gas env)) (gm_node env) (gm_pod env));
                  (l, after) = StartServer (gm_certs env) sch (fl_port flags) (fl_certFile flags) (fl_keyFile flags)
                                 (fl_caFile flags) False
              in Inr \<lparr>gp_client = kubeClient, gp_extender = m, gp_cache = cache, gp_listening = l\<rparr>))"

subsection \<open>The life of the process\<close>

text \<open>
  \<^verbatim>\<open>signalHandler\<close>: the first SIGINT or SIGTERM closes the channel that stops the informers, the second ends the
  process with status 1. A worker stays in its loop: it gets items until the queue is shut down, which the deferred call does
  only when the worker has returned. A process that has ended does nothing.
\<close>

record gas_state =
  gs_cache :: cache
  gs_stopped :: bool
  gs_exited :: "process_end option"

definition signalHandler :: "gas_state \<Rightarrow> gas_state" where
  "signalHandler st = (if gs_stopped st then st\<lparr>gs_exited := Some (Exits 1)\<rparr> else st\<lparr>gs_stopped := True\<rparr>)"

datatype 'cert process_event =
    PodEvent notification
  | NodeEvent notification
  | PodRound
  | NodeRound kube_api
  | Signal
  | Connection "'cert tls_client" http_request

text \<open>One event: the answer of a connection that is served, and the state after it.\<close>

definition gas_event ::
  "('o, 'ser, 'k, 'cert) gas_main_env \<Rightarrow> (cache, 'cert) listening \<Rightarrow> started_cache \<Rightarrow> 'cert process_event \<Rightarrow> gas_state \<Rightarrow>
   (http_writer option \<times> gas_state) option" where
  "gas_event env l sc e st =
     (if gs_exited st \<noteq> None then Some (None, st)
      else case e of
        PodEvent n \<Rightarrow> Some (None, if gs_stopped st then st
                                  else st\<lparr>gs_cache := gm_deliver env (sc_pods sc) n (gs_cache st)\<rparr>)
      | NodeEvent n \<Rightarrow> Some (None, if gs_stopped st then st
                                   else st\<lparr>gs_cache := gm_deliver env (sc_nodes sc) n (gs_cache st)\<rparr>)
      | PodRound \<Rightarrow> (case podWork (ge_order (gm_gas env)) (gs_cache st) of (_, c) \<Rightarrow> Some (None, st\<lparr>gs_cache := c\<rparr>))
      | NodeRound api \<Rightarrow> map_option (\<lambda>(_, c, log). (None, st\<lparr>gs_cache := c\<rparr>)) (nodeWork api (gs_cache st))
      | Signal \<Rightarrow> Some (None, signalHandler st)
      | Connection cl r \<Rightarrow>
          map_option (\<lambda>(w, c). (w, st\<lparr>gs_cache := c\<rparr>)) (serve_connection (gm_certs env) l (cl, r) (gs_cache st)))"

fun gas_run ::
  "('o, 'ser, 'k, 'cert) gas_main_env \<Rightarrow> (cache, 'cert) listening \<Rightarrow> started_cache \<Rightarrow> 'cert process_event list \<Rightarrow> gas_state \<Rightarrow>
   (http_writer option list \<times> gas_state) option" where
  "gas_run env l sc [] st = Some ([], st)"
| "gas_run env l sc (e # es) st = do {
     (w, st) \<leftarrow> gas_event env l sc e st;
     (ws, st) \<leftarrow> gas_run env l sc es st;
     Some (w # ws, st)
   }"

definition gas_start :: "started_cache \<Rightarrow> gas_state" where
  "gas_start sc = \<lparr>gs_cache = sc_cache sc, gs_stopped = False, gs_exited = None\<rparr>"

subsection \<open>The command\<close>

lemma gas_main_cases:
  assumes "gas_main env flags = Inr p"
  shows "gp_listening p = fst (StartServer (gm_certs env)
      (GASExtender (gm_gas env) (gp_extender p) (gas_cache_ops (ge_order (gm_gas env)) (gm_node env) (gm_pod env)))
      (fl_port flags) (fl_certFile flags) (fl_keyFile flags) (fl_caFile flags) False)"
    and "gp_cache p = Some sc \<Longrightarrow> sc = \<lparr>sc_cache = newCache, sc_pods = createFilteringPodResourceHandler,
      sc_nodes = createFilteringNodeResourceHandler\<rparr>"
  using assms NewCache_started
  by (auto simp: gas_main_def NewGASExtender_def Let_def split: sum.splits prod.splits)

lemma limit_flag_bound: "uint (limit_flag v) = min (uint v) 1000"
  by (simp add: limit_flag_def maxQPSandBurst_def word_less_def)

lemma sint_small: "uint (v :: uint) \<le> 1000 \<Longrightarrow> sint v = uint v"
  by (simp add: sint_uint signed_take_bit_int_eq_self order_trans [OF _ uint_ge_0])

text \<open>However large the flags are, the limits given to the client are between 0 and 1000, without wrap-around.\<close>

lemma gas_main_limits:
  assumes "gas_main env flags = Inr p"
  shows "\<exists>config. NewForConfig (gm_config env) config = Inr (gp_client p) \<and>
    sint (Burst config) = min (uint (fl_burst flags)) 1000 \<and> QPS config = of_int (min (uint (fl_qps flags)) 1000)"
proof -
  from assms obtain config where c: "GetKubeClientExt (gm_config env) (fl_kubeConfig flags) (limit_flag (fl_burst flags))
      (of_int (uint (limit_flag (fl_qps flags)))) = Inr (gp_client p, config)"
    by (auto simp: gas_main_def Let_def split: sum.splits prod.splits)
  have b: "sint (limit_flag (fl_burst flags)) = min (uint (fl_burst flags)) 1000"
    using sint_small [of "limit_flag (fl_burst flags)"] by (simp add: limit_flag_bound)
  from GetKubeClientExt_config [OF c] obtain origin where
    "config = origin\<lparr>Burst := limit_flag (fl_burst flags), QPS := of_int (uint (limit_flag (fl_qps flags)))\<rparr>"
    "NewForConfig (gm_config env) config = Inr (gp_client p)" by metis
  with b show ?thesis by (intro exI [of _ config]) (simp add: limit_flag_bound)
qed

subsection \<open>The whole process\<close>

text \<open>An event that does not come from outside of the cluster's own certificates.\<close>

definition from_trusted :: "'cert cert_env \<Rightarrow> string \<Rightarrow> 'cert process_event \<Rightarrow> bool" where
  "from_trusted certs caFile e \<longleftrightarrow> (case e of Connection cl r \<Rightarrow> trusted_client certs caFile cl | _ \<Rightarrow> True)"

lemma gas_event_untrusted:
  assumes "\<not> from_trusted certs caFile e" "gm_certs env = certs"
  shows "gas_event env (fst (StartServer certs sch port certFile keyFile caFile False)) sc e st = Some (None, st)"
proof -
  from assms(1) obtain cl r where e: "e = Connection cl r" "\<not> trusted_client certs caFile cl"
    by (auto simp: from_trusted_def split: process_event.splits)
  then have "\<not> handshake certs (secure_config certs caFile) cl" using handshake_trusted by blast
  then show ?thesis using assms(2) by (simp add: gas_event_def e serve_connection_secure)
qed

lemma gas_run_trusted:
  assumes "gm_certs env = certs"
  shows "gas_run env (fst (StartServer certs sch port certFile keyFile caFile False)) sc es st = Some (ws, st') \<Longrightarrow>
    (\<exists>ws'. gas_run env (fst (StartServer certs sch port certFile keyFile caFile False)) sc
       (filter (from_trusted certs caFile) es) st = Some (ws', st')) \<and>
    list_all2 (\<lambda>e w. w \<noteq> None \<longrightarrow> (\<exists>cl r. e = Connection cl r \<and> trusted_client certs caFile cl)) es ws"
proof (induction es arbitrary: st ws)
  case (Cons e es)
  let ?l = "fst (StartServer certs sch port certFile keyFile caFile False)"
  from Cons.prems obtain w st1 ws1 where e: "gas_event env ?l sc e st = Some (w, st1)"
    "gas_run env ?l sc es st1 = Some (ws1, st')" "ws = w # ws1" by (auto split: bind_splits)
  have w: "\<exists>cl r. e = Connection cl r \<and> trusted_client certs caFile cl" if "w \<noteq> None"
  proof (cases e)
    case (Connection cl r)
    with e(1) gas_event_untrusted [of certs caFile e env sch port certFile keyFile sc st] assms that show ?thesis
      by (cases "from_trusted certs caFile e") (auto simp: from_trusted_def)
  qed (use e(1) that in \<open>auto simp: gas_event_def split: if_splits prod.splits\<close>)
  show ?case
  proof (cases "from_trusted certs caFile e")
    case True
    with e w Cons.IH [OF e(2)] show ?thesis by auto
  next
    case False
    from gas_event_untrusted [OF this assms, of sch port certFile keyFile sc st] e(1) have "st1 = st" by simp
    with False e w Cons.IH [OF e(2)] show ?thesis by simp
  qed
qed simp

text \<open>One event of the process is an event of the cache, or a request that keeps it reachable.\<close>

lemma gas_event_reachable:
  assumes "gas_main env flags = Inr p" "gp_cache p = Some sc" "filters_events (gm_deliver env)"
    and "range_order (ge_order (gm_gas env))" "\<forall>ns name pod. gm_pod env ns name = Inr pod \<longrightarrow> pod_sane pod"
    and "\<forall>n. e = PodEvent n \<longrightarrow> notification_sane n" "reachable (gs_cache st)"
    and "gas_event env (gp_listening p) sc e st = Some (w, st')"
  shows "reachable (gs_cache st')"
proof (cases "gs_exited st")
  case None
  note sc = gas_main_cases(2) [OF assms(1,2)] and st = assms(8) [unfolded gas_event_def]
  note step = reachable.step [OF assms(7)]
  show ?thesis
  proof (cases e)
    case (PodEvent n)
    with assms(6) pod_notification_steps [OF assms(3), of n "gs_cache st"] step st None assms(7) show ?thesis
      by (auto simp: sc split: if_splits)
  next
    case (NodeEvent n)
    with node_notification_steps [OF assms(3), of n "gs_cache st"] step st None assms(7) show ?thesis
      by (auto simp: sc split: if_splits)
  next
    case PodRound
    obtain again c where c: "podWork (ge_order (gm_gas env)) (gs_cache st) = (again, c)" by fastforce
    then have "c = gs_cache st \<or> cache_step (gs_cache st) c"
      using cache_step.pod_round [OF assms(4)] by (cases again) (auto simp: podWork_def split: list.splits)
    with PodRound c st None step assms(7) show ?thesis by auto
  next
    case (NodeRound api)
    with st None obtain again c log where c: "nodeWork api (gs_cache st) = Some (again, c, log)" "gs_cache st' = c" by auto
    then have "c = gs_cache st \<or> cache_step (gs_cache st) c"
      using cache_step.node_round [of api "gs_cache st" c log]
      by (cases again) (auto simp: nodeWork_def split: list.splits bind_splits)
    with c step assms(7) show ?thesis by auto
  next
    case Signal
    with st None assms(7) show ?thesis by (auto simp: signalHandler_def split: if_splits)
  next
    case (Connection cl r)
    with st None obtain c where c: "serve_connection (gm_certs env) (gp_listening p) (cl, r) (gs_cache st) = Some (w, c)"
      "gs_cache st' = c" by auto
    with gas_server.serve_keeps [of "gs_cache st" "gm_gas env" "gm_pod env"] assms(4,5,7) show ?thesis
      by (auto simp: gas_main_cases(1) [OF assms(1)] serve_connection_secure split: if_splits)
  qed
next
  case (Some r)
  with assms(7,8) show ?thesis by (simp add: gas_event_def)
qed

lemma gas_run_reachable:
  assumes "gas_main env flags = Inr p" "gp_cache p = Some sc" "filters_events (gm_deliver env)"
    and "range_order (ge_order (gm_gas env))" "\<forall>ns name pod. gm_pod env ns name = Inr pod \<longrightarrow> pod_sane pod"
  shows "gas_run env (gp_listening p) sc es st = Some (ws, st') \<Longrightarrow> reachable (gs_cache st) \<Longrightarrow>
    \<forall>n. PodEvent n \<in> set es \<longrightarrow> notification_sane n \<Longrightarrow> reachable (gs_cache st')"
proof (induction es arbitrary: st ws)
  case (Cons e es)
  from Cons.prems(1) obtain w st1 ws1 where e: "gas_event env (gp_listening p) sc e st = Some (w, st1)"
    "gas_run env (gp_listening p) sc es st1 = Some (ws1, st')" by (auto split: bind_splits)
  from gas_event_reachable [OF assms _ Cons.prems(2) e(1)] Cons.prems(3) have "reachable (gs_cache st1)" by simp
  from Cons.IH [OF e(2) this] Cons.prems(3) show ?case by simp
qed simp

text \<open>C10: the process of GAS, from its command line on. Whatever events the informers deliver, whatever the workers,
  the signals and the connections do, in any order: no amount of a GPU in use becomes negative and the cache stays one that
  its own operations reach; only connections of clients whose certificate verifies against the CA file of the command line
  are answered; and the state is the one that the same events make without the connections of all others.\<close>

theorem gas_process_safe:
  assumes "gas_main env flags = Inr p" "gp_cache p = Some sc" "filters_events (gm_deliver env)"
    and "range_order (ge_order (gm_gas env))" "\<forall>ns name pod. gm_pod env ns name = Inr pod \<longrightarrow> pod_sane pod"
    and "\<forall>n. PodEvent n \<in> set es \<longrightarrow> notification_sane n"
    and "gas_run env (gp_listening p) sc es (gas_start sc) = Some (ws, st)"
  shows "reachable (gs_cache st) \<and> (\<forall>nodeName cardName res. 0 \<le> node_usage (gs_cache st) nodeName cardName res) \<and>
    list_all2 (\<lambda>e w. w \<noteq> None \<longrightarrow> (\<exists>cl r. e = Connection cl r \<and> trusted_client (gm_certs env) (fl_caFile flags) cl)) es ws \<and>
    (\<exists>ws'. gas_run env (gp_listening p) sc (filter (from_trusted (gm_certs env) (fl_caFile flags)) es) (gas_start sc) =
       Some (ws', st))"
proof -
  have "reachable (gs_cache (gas_start sc))"
    by (simp add: gas_main_cases(2) [OF assms(1,2)] gas_start_def reachable.start)
  from gas_run_reachable [OF assms(1-5,7) this assms(6)] have r: "reachable (gs_cache st)" .
  with reachable_inv [OF r] have "0 \<le> node_usage (gs_cache st) nodeName cardName res" for nodeName cardName res
    by (simp add: state_inv_def node_usage_def)
  with r gas_run_trusted [OF refl assms(7) [unfolded gas_main_cases(1) [OF assms(1)]]] show ?thesis
    by (simp add: gas_main_cases(1) [OF assms(1)])
qed

subsection \<open>Signals\<close>

lemma gas_event_signals:
  assumes "gas_event env l sc e st = Some (w, st')"
  shows "gs_stopped st' = (gs_stopped st \<or> gs_exited st = None \<and> e = Signal)"
    and "gs_exited st' = (if gs_exited st = None \<and> gs_stopped st \<and> e = Signal then Some (Exits 1) else gs_exited st)"
  using assms by (auto simp: gas_event_def signalHandler_def split: process_event.splits if_splits prod.splits)

lemma gas_run_signals:
  "gas_run env l sc es st = Some (ws, st') \<Longrightarrow> gs_exited st = None \<Longrightarrow>
     gs_stopped st' = (gs_stopped st \<or> 1 \<le> count_list es Signal) \<and>
     gs_exited st' = (if (if gs_stopped st then 1 else 2) \<le> count_list es Signal then Some (Exits 1) else None)"
proof (induction es arbitrary: st ws)
  case (Cons e es)
  from Cons.prems(1) obtain w st1 ws1 where e: "gas_event env l sc e st = Some (w, st1)"
    "gas_run env l sc es st1 = Some (ws1, st')" by (auto split: bind_splits)
  note s = gas_event_signals [OF e(1)]
  have ended: "gs_stopped st2 = gs_stopped st1 \<and> gs_exited st2 = gs_exited st1"
    if "gas_run env l sc es st1 = Some (ws2, st2)" "gs_exited st1 \<noteq> None" for es ws2 st2 st1
    using that by (induction es arbitrary: ws2 st1) (auto simp: gas_event_def split: bind_splits)
  show ?case
  proof (cases "gs_exited st1")
    case None
    with Cons.IH [OF e(2)] s Cons.prems(2) show ?thesis by (auto split: if_splits)
  next
    case (Some x)
    with ended [OF e(2)] s Cons.prems(2) show ?thesis by (auto split: if_splits)
  qed
qed simp

text \<open>Stopping. The process ends, with status 1, exactly at the second signal. After the first one the informers
  tell the cache nothing any more, while connections are served on from the cache as it is.\<close>

theorem gas_signals:
  assumes "gas_run env l sc es (gas_start sc) = Some (ws, st)"
  shows "gs_exited st = (if 2 \<le> count_list es Signal then Some (Exits 1) else None) \<and>
    (count_list es Signal = 1 \<longrightarrow>
       (\<forall>n. gas_event env l sc (PodEvent n) st = Some (None, st) \<and> gas_event env l sc (NodeEvent n) st = Some (None, st)) \<and>
       (\<forall>cl r. gas_event env l sc (Connection cl r) st =
          map_option (\<lambda>(w, c). (w, st\<lparr>gs_cache := c\<rparr>)) (serve_connection (gm_certs env) l (cl, r) (gs_cache st))))"
  using gas_run_signals [OF assms] by (auto simp: gas_start_def gas_event_def)

subsection \<open>A run\<close>

definition demo_deliver :: "event_handler \<Rightarrow> notification \<Rightarrow> cache \<Rightarrow> cache" where
  "demo_deliver h n c =
     (case n of
        Added obj \<Rightarrow> if FilterFunc h obj then AddFunc h obj c else c
      | Deleted obj \<Rightarrow> if FilterFunc h obj then DeleteFunc h obj c else c
      | Updated old new \<Rightarrow>
          if FilterFunc h new then (if FilterFunc h old then UpdateFunc h old new c else AddFunc h new c)
          else if FilterFunc h old then DeleteFunc h old c else c)"

definition demo_main_env :: "(unit, unit, unit, string) gas_main_env" where
  "demo_main_env =
     \<lparr>gm_config = \<lparr>InClusterConfig = Inl ''not in a cluster'',
        BuildConfigFromFlags = (\<lambda>url path. Inr \<lparr>Burst = 0, QPS = 0, GroupVersion = None, APIPath = [], ContentType = [],
          NegotiatedSerializer = None, config_others = ()\<rparr>),
        NewForConfig = (\<lambda>config. Inr ())\<rparr>,
      gm_informers = \<lparr>WaitForCacheSync_nodes = True, WaitForCacheSync_pods = True,
        AddEventHandler_pods = (\<lambda>h. None), AddEventHandler_nodes = (\<lambda>h. None)\<rparr>,
      gm_deliver = demo_deliver, gm_certs = demo_certs, gm_gas = small_env,
      gm_node = (\<lambda>name. Inr two_gpu_node), gm_pod = (\<lambda>ns name. Inr small_pod)\<rparr>"

definition demo_flags :: gas_flags where
  "demo_flags = default_flags\<lparr>fl_caFile := ''ca.crt''\<rparr>"

definition annotated_pod :: pod where
  "annotated_pod = small_pod\<lparr>pod_name := ''q'', pod_annotations := Some [(''gas-container-cards'', ''card1'')]\<rparr>"

definition demo_events :: "string process_event list" where
  "demo_events = [PodEvent (Added (ObjPod annotated_pod)), PodRound, Connection (demo_client None) bind_request,
     Connection (demo_client (Some ''ca'')) bind_request, Signal, PodEvent (Added (ObjPod annotated_pod))]"

definition demo_run :: "(http_writer option list \<times> gas_state) option" where
  "demo_run =
     (case gas_main demo_main_env demo_flags of
        Inr p \<Rightarrow> (case gp_cache p of Some sc \<Rightarrow> gas_run demo_main_env (gp_listening p) sc demo_events (gas_start sc) | None \<Rightarrow> None)
      | Inl e \<Rightarrow> None)"

lemma demo_run_runs:
  "map_option (\<lambda>(ws, st). (map (map_option answered) ws, map (node_usage (gs_cache st) ''n1'' ''card0'') [''gpu.intel.com/i915''],
     map (node_usage (gs_cache st) ''n1'' ''card1'') [''gpu.intel.com/i915''], gs_stopped st, gs_exited st)) demo_run =
   Some ([None, None, None, Some 200, None, None], [1], [1], True, None)"
  by code_simp

lemma demo_deliver_ok: "filters_events demo_deliver"
  by (simp add: filters_events_def demo_deliver_def)

lemma demo_run_parts:
  obtains p sc ws st where "gas_main demo_main_env demo_flags = Inr p" "gp_cache p = Some sc"
    "gas_run demo_main_env (gp_listening p) sc demo_events (gas_start sc) = Some (ws, st)" "demo_run = Some (ws, st)"
    "map (map_option answered) ws = [None, None, None, Some 200, None, None]"
    "node_usage (gs_cache st) ''n1'' ''card0'' ''gpu.intel.com/i915'' = 1"
proof -
  from demo_run_runs obtain ws st where r: "demo_run = Some (ws, st)"
    "map (map_option answered) ws = [None, None, None, Some 200, None, None]"
    "node_usage (gs_cache st) ''n1'' ''card0'' ''gpu.intel.com/i915'' = 1" by auto
  with that show thesis by (auto simp: demo_run_def split: sum.splits option.splits)
qed

lemma demo_events_sane: "\<forall>n. PodEvent n \<in> set demo_events \<longrightarrow> notification_sane n"
proof -
  have "pod_sane annotated_pod" by code_simp
  then show ?thesis by (auto simp: demo_events_def obj_sane_def tombstone_pod_def)
qed

lemma gas_process_safe_witness:
  "\<exists>ws st. demo_run = Some (ws, st) \<and> map (map_option answered) ws = [None, None, None, Some 200, None, None] \<and>
     reachable (gs_cache st) \<and> node_usage (gs_cache st) ''n1'' ''card0'' ''gpu.intel.com/i915'' = 1"
proof -
  obtain p sc ws st where r: "gas_main demo_main_env demo_flags = Inr p" "gp_cache p = Some sc"
    "gas_run demo_main_env (gp_listening p) sc demo_events (gas_start sc) = Some (ws, st)" "demo_run = Some (ws, st)"
    "map (map_option answered) ws = [None, None, None, Some 200, None, None]"
    "node_usage (gs_cache st) ''n1'' ''card0'' ''gpu.intel.com/i915'' = 1" by (rule demo_run_parts)
  have "pod_sane small_pod" by code_simp
  then have env: "filters_events (gm_deliver demo_main_env)" "range_order (ge_order (gm_gas demo_main_env))"
    "\<forall>ns name pod. gm_pod demo_main_env ns name = Inr pod \<longrightarrow> pod_sane pod"
    by (auto simp: demo_main_env_def small_env_def demo_deliver_ok)
  from gas_process_safe [OF r(1,2) env demo_events_sane r(3)] have "reachable (gs_cache st)" ..
  with r(4-6) show ?thesis by (intro exI [of _ ws] exI [of _ st]) simp
qed

lemma gas_signals_witness:
  "\<exists>ws st. demo_run = Some (ws, st) \<and> gs_exited st = None"
proof -
  obtain p sc ws st where r: "gas_main demo_main_env demo_flags = Inr p" "gp_cache p = Some sc"
    "gas_run demo_main_env (gp_listening p) sc demo_events (gas_start sc) = Some (ws, st)" "demo_run = Some (ws, st)"
    "map (map_option answered) ws = [None, None, None, Some 200, None, None]"
    "node_usage (gs_cache st) ''n1'' ''card0'' ''gpu.intel.com/i915'' = 1" by (rule demo_run_parts)
  have "count_list demo_events Signal = 1" by (simp add: demo_events_def)
  with gas_signals [OF r(3)] r(4) show ?thesis by (intro exI [of _ ws] exI [of _ st]) simp
qed

end
