(* ===== verification/Tas_Policy.thy ===== *)
theory Tas_Policy
  imports Complex_Main Kube_Objects Go_Strings
begin

text \<open>
  Telemetry Aware Scheduling: the policies (\<^verbatim>\<open>telemetrypolicy/api/v1alpha1/types.go\<close>), the metrics of
  the nodes (\<^verbatim>\<open>metrics/client.go\<close>) and the evaluation of a rule (\<^verbatim>\<open>strategies/core/operator.go\<close>).
\<close>

subsection \<open>Quantities\<close>

text \<open>
  A \<^verbatim>\<open>resource.Quantity\<close> is an exact decimal number; the sources only compare quantities, with
  each other and with an \<^verbatim>\<open>int64\<close>.
\<close>

datatype quantity = Quantity (as_dec: rat)

instantiation quantity :: linorder
begin

definition less_eq_quantity :: "quantity \<Rightarrow> quantity \<Rightarrow> bool" where
  "less_eq_quantity x y \<longleftrightarrow> as_dec x \<le> as_dec y"

definition less_quantity :: "quantity \<Rightarrow> quantity \<Rightarrow> bool" where
  "less_quantity x y \<longleftrightarrow> as_dec x < as_dec y"

instance
  by standard (auto simp: less_eq_quantity_def less_quantity_def intro: quantity.expand)

end

definition quantity_cmp :: "quantity \<Rightarrow> quantity \<Rightarrow> int" where
  "quantity_cmp x y = (if x < y then -1 else if x = y then 0 else 1)"

definition cmp_int64 :: "quantity \<Rightarrow> int64 \<Rightarrow> int" where
  "cmp_int64 x target = quantity_cmp x (Quantity (of_int (sint target)))"

lemma quantity_cmp_simps [simp]:
  "quantity_cmp x y = -1 \<longleftrightarrow> x < y" "quantity_cmp x y = 0 \<longleftrightarrow> x = y" "quantity_cmp x y = 1 \<longleftrightarrow> y < x"
  by (auto simp: quantity_cmp_def)

subsection \<open>Policies\<close>

record tas_rule =
  Metricname :: string
  Operator :: string
  rule_Labels :: "string list"
  Target :: int64

record tas_strategy =
  PolicyName :: string
  LogicalOperator :: string
  Rules :: "tas_rule list"

record tas_policy =
  tas_name :: string
  tas_namespace :: string
  Strategies :: "(string, tas_strategy) gomap"

text \<open>The errors of TAS; the texts are only logged.\<close>

datatype tas_error =
    NoMetric string | NoPolicy string | InvalidMetricName | InvalidPolicyName
  | MetricUnavailable string | MetricNotInAPI string
  | EmptyRequestBody | DecodeError | CloseError string | NoNodes
  | NoPolicyForPod string | NoRules | NoDontschedule | InvalidStrategyType
  | ListNodesFailed string | PatchFailed string | InvalidLabel string | LabelingFailed string

subsection \<open>Metrics\<close>

record node_metric =
  Timestamp :: int
  Window :: int64
  metric_Value :: quantity

type_synonym node_metrics = "(string, node_metric) gomap"

text \<open>What the custom metrics API returns for one node.\<close>

record metric_value =
  DescribedObject_Name :: string
  value_Timestamp :: int
  WindowSeconds :: "int64 option"
  mv_Value :: quantity

definition wrapMetrics :: "metric_value list \<Rightarrow> node_metrics" where
  "wrapMetrics items =
     fold (\<lambda>m result.
         let window = (case WindowSeconds m of None \<Rightarrow> time_Minute | Some s \<Rightarrow> s * time_Second)
         in AList.update (DescribedObject_Name m)
              \<lparr>Timestamp = value_Timestamp m, Window = window, metric_Value = mv_Value m\<rparr> result)
       items []"

text \<open>The call to the custom metrics API is a parameter.\<close>

definition GetNodeMetric ::
  "(string \<Rightarrow> string + metric_value list) \<Rightarrow> string \<Rightarrow> tas_error + node_metrics" where
  "GetNodeMetric get_for_objects metricName =
     (case get_for_objects metricName of
        Inl err \<Rightarrow> Inl (MetricUnavailable metricName)
      | Inr items \<Rightarrow>
          if length items = 0 then Inl (MetricNotInAPI metricName) else Inr (wrapMetrics items))"

lemma wf_wrapMetrics [simp]: "wf_map (wrapMetrics items)"
proof -
  have "wf_map r \<Longrightarrow> wf_map (fold (\<lambda>m result. AList.update (f m) (g m) result) items r)" for f g and r :: node_metrics
    by (induction items arbitrary: r) auto
  then show ?thesis by (simp add: wrapMetrics_def Let_def)
qed

lemma wrapMetrics_Nil_iff: "wrapMetrics items = [] \<longleftrightarrow> items = []"
proof -
  have "fst ` set (fold (\<lambda>m result. AList.update (f m) (g m) result) items r) = f ` set items \<union> fst ` set r"
    for f g and r :: node_metrics
    by (induction items arbitrary: r) auto
  from this [of DescribedObject_Name _ "[]"] have "fst ` set (wrapMetrics items) = DescribedObject_Name ` set items"
    by (simp add: wrapMetrics_def Let_def)
  then show ?thesis by (metis image_is_empty set_empty)
qed

lemma GetNodeMetric_Inr:
  "GetNodeMetric get_for_objects metricName = Inr metrics \<Longrightarrow> wf_map metrics \<and> metrics \<noteq> []"
  by (auto simp: GetNodeMetric_def wrapMetrics_Nil_iff split: sum.splits if_splits)

subsection \<open>Rules\<close>

definition EvaluateRule :: "quantity \<Rightarrow> tas_rule \<Rightarrow> bool" where
  "EvaluateRule v rule =
     (let operators = [(''LessThan'', \<lambda>x target. cmp_int64 x target = -1),
            (''GreaterThan'', \<lambda>x target. cmp_int64 x target = 1),
            (''Equals'', \<lambda>x target. cmp_int64 x target = 0)]
      in case map_of operators (Operator rule) of
           None \<Rightarrow> False
         | Some operator \<Rightarrow> operator v (Target rule))"

text \<open>
  \<^verbatim>\<open>sort.Slice\<close> sorts by a comparison, not stably. Together with an arbitrary order of the input (the
  ranged map, the parameter \<open>ord\<close> of \<open>OrderedList\<close>) the stable sort below has every result it may have.
\<close>

fun insert_by :: "('a \<Rightarrow> 'a \<Rightarrow> bool) \<Rightarrow> 'a \<Rightarrow> 'a list \<Rightarrow> 'a list" where
  "insert_by lt x [] = [x]"
| "insert_by lt x (y # ys) = (if lt y x then y # insert_by lt x ys else x # y # ys)"

definition sort_slice :: "('a \<Rightarrow> 'a \<Rightarrow> bool) \<Rightarrow> 'a list \<Rightarrow> 'a list" where
  "sort_slice lt xs = foldr (insert_by lt) xs []"

record node_sortable_metric =
  NodeName :: string
  MetricValue :: quantity

definition OrderedList ::
  "(node_sortable_metric list \<Rightarrow> node_sortable_metric list) \<Rightarrow> node_metrics \<Rightarrow> string \<Rightarrow>
   node_sortable_metric list" where
  "OrderedList ord metricsInfo operator =
     (let mtrcs = ord (map (\<lambda>(name, info). \<lparr>NodeName = name, MetricValue = metric_Value info\<rparr>) metricsInfo)
      in if operator = ''GreaterThan''
         then sort_slice (\<lambda>a b. quantity_cmp (MetricValue a) (MetricValue b) = 1) mtrcs
         else if operator = ''LessThan''
         then sort_slice (\<lambda>a b. quantity_cmp (MetricValue a) (MetricValue b) = -1) mtrcs
         else mtrcs)"

lemma insert_by_mset [simp]: "mset (insert_by lt x ys) = add_mset x (mset ys)"
  by (induction ys) auto

lemma sort_slice_mset [simp]: "mset (sort_slice lt xs) = mset xs"
  by (induction xs) (simp_all add: sort_slice_def)

lemma insert_by_sorted:
  assumes "\<And>a b c. \<not> lt b a \<Longrightarrow> \<not> lt c b \<Longrightarrow> \<not> lt c a" "\<And>a b. lt a b \<Longrightarrow> \<not> lt b a"
    and "sorted_wrt (\<lambda>a b. \<not> lt b a) ys"
  shows "sorted_wrt (\<lambda>a b. \<not> lt b a) (insert_by lt x ys)"
  using assms(3)
proof (induction ys)
  case (Cons y ys)
  have "set (insert_by lt x ys) = insert x (set ys)"
    by (metis insert_by_mset set_mset_add_mset_insert set_mset_mset)
  with Cons assms(2) have "lt y x \<Longrightarrow> ?case" by simp
  moreover have "\<not> lt z x" if "\<not> lt y x" "z \<in> set ys" for z using assms(1) [of y x z] that Cons.prems by simp
  ultimately show ?case using Cons.prems by (cases "lt y x") simp_all
qed simp

lemma sort_slice_sorted:
  assumes "\<And>a b c. \<not> lt b a \<Longrightarrow> \<not> lt c b \<Longrightarrow> \<not> lt c a" "\<And>a b. lt a b \<Longrightarrow> \<not> lt b a"
  shows "sorted_wrt (\<lambda>a b. \<not> lt b a) (sort_slice lt xs)"
  by (induction xs) (simp_all add: sort_slice_def insert_by_sorted [OF assms])

lemma OrderedList_mset:
  "(\<And>xs. mset (ord xs) = mset xs) \<Longrightarrow> mset (OrderedList ord metricsInfo operator) =
     mset (map (\<lambda>(name, info). \<lparr>NodeName = name, MetricValue = metric_Value info\<rparr>) metricsInfo)"
  by (simp add: OrderedList_def Let_def)

lemma OrderedList_sorted:
  "sorted_wrt (\<lambda>a b. (operator = ''GreaterThan'' \<longrightarrow> MetricValue b \<le> MetricValue a) \<and>
      (operator = ''LessThan'' \<longrightarrow> MetricValue a \<le> MetricValue b)) (OrderedList ord metricsInfo operator)"
proof -
  have "sorted_wrt (\<lambda>a b. MetricValue b \<le> MetricValue a) (sort_slice (\<lambda>a b. MetricValue b < MetricValue a) xs)"
    "sorted_wrt (\<lambda>a b. MetricValue a \<le> MetricValue b) (sort_slice (\<lambda>a b. MetricValue a < MetricValue b) xs)" for xs :: "node_sortable_metric list"
    using sort_slice_sorted [of "\<lambda>a b. MetricValue b < MetricValue a" xs]
      sort_slice_sorted [of "\<lambda>a b. MetricValue a < MetricValue b" xs] by (simp_all add: not_less)
  moreover have "sorted_wrt (\<lambda>a b. True) xs" for xs :: "node_sortable_metric list" by (induction xs) simp_all
  ultimately show ?thesis by (simp add: OrderedList_def Let_def)
qed

end
