(* ===== verification/Tas_Strategies.thy ===== *)
theory Tas_Strategies
  imports Tas_Policy
begin

text \<open>
  The four strategy types of TAS (\<^verbatim>\<open>strategies/*/strategy.go\<close>): when a node violates a strategy, and
  when two strategies are equal. The Go interface that they implement is the datatype \<open>strategy\<close>, its
  methods are functions by cases on it. Metrics and policies are read through \<^verbatim>\<open>cache.Reader\<close>, here
  the record \<open>tas_reader\<close>.
\<close>

record tas_reader =
  ReadMetric :: "string \<Rightarrow> tas_error + node_metrics"
  ReadPolicy :: "string \<Rightarrow> string \<Rightarrow> tas_error + tas_policy"

datatype strategy =
    ScheduleOnMetric tas_strategy | DontSchedule tas_strategy
  | Deschedule tas_strategy | Labeling tas_strategy

record rule_result =
  rr_rule :: tas_rule
  rr_quantity :: quantity

text \<open>The value of a violating node: nil, or the violated rules of a labeling strategy.\<close>

datatype violation = NoResult | RuleResults "rule_result list"

type_synonym violations = "(string, violation) gomap"

subsection \<open>Violations of the dontschedule and deschedule strategies\<close>

definition count_violation ::
  "tas_strategy \<Rightarrow> tas_rule \<Rightarrow> string \<times> node_metric \<Rightarrow> (string, int) gomap \<times> violations \<Rightarrow>
   (string, int) gomap \<times> violations" where
  "count_violation d rule entry state =
     (case (entry, state) of ((nodeName, nodeMetric), (nodeMetricViol, violatingNodes)) \<Rightarrow>
        if EvaluateRule (metric_Value nodeMetric) rule
        then let nodeMetricViol = AList.update nodeName (gm_getd 0 nodeMetricViol nodeName + 1) nodeMetricViol
             in if LogicalOperator d = ''allOf''
                then if gm_getd 0 nodeMetricViol nodeName = int (length (Rules d))
                     then (nodeMetricViol, AList.update nodeName NoResult violatingNodes)
                     else (nodeMetricViol, violatingNodes)
                else (nodeMetricViol, AList.update nodeName NoResult violatingNodes)
        else state)"

definition dontschedule_Violated :: "tas_reader \<Rightarrow> tas_strategy \<Rightarrow> violations" where
  "dontschedule_Violated cache d =
     snd (fold (\<lambda>rule state.
         case ReadMetric cache (Metricname rule) of
           Inl err \<Rightarrow> state
         | Inr nodeMetrics \<Rightarrow> fold (count_violation d rule) nodeMetrics state)
       (Rules d) ([], []))"

definition deschedule_Violated :: "tas_reader \<Rightarrow> tas_strategy \<Rightarrow> violations" where
  "deschedule_Violated cache d =
     snd (fold (\<lambda>rule state.
         case ReadMetric cache (Metricname rule) of
           Inl err \<Rightarrow> state
         | Inr nodeMetrics \<Rightarrow> fold (count_violation d rule) nodeMetrics state)
       (Rules d) ([], []))"

subsection \<open>Violations of the labeling strategy\<close>

definition add_rule_result :: "tas_rule \<Rightarrow> string \<times> node_metric \<Rightarrow> violations \<Rightarrow> violations" where
  "add_rule_result rule entry violatingNodes =
     (case entry of (nodeName, nodeMetric) \<Rightarrow>
        if EvaluateRule (metric_Value nodeMetric) rule
        then (let violatingNodes = (case map_of violatingNodes nodeName of
                     None \<Rightarrow> AList.update nodeName (RuleResults []) violatingNodes
                   | Some _ \<Rightarrow> violatingNodes)
              in case map_of violatingNodes nodeName of
                   Some (RuleResults results) \<Rightarrow>
                     AList.update nodeName
                       (RuleResults (results @ [\<lparr>rr_rule = rule, rr_quantity = metric_Value nodeMetric\<rparr>]))
                       violatingNodes
                 | _ \<Rightarrow> violatingNodes)
        else violatingNodes)"

definition fetchRuleViolatingNodes :: "tas_reader \<Rightarrow> tas_strategy \<Rightarrow> violations" where
  "fetchRuleViolatingNodes cache d =
     fold (\<lambda>rule violatingNodes.
         case ReadMetric cache (Metricname rule) of
           Inl err \<Rightarrow> violatingNodes
         | Inr nodeMetrics \<Rightarrow> fold (add_rule_result rule) nodeMetrics violatingNodes)
       (Rules d) []"

definition filterViolatingNodeForAllLogicalOperator :: "tas_strategy \<Rightarrow> violations \<Rightarrow> violations" where
  "filterViolatingNodeForAllLogicalOperator d violatingNodes =
     (if LogicalOperator d = ''allOf''
      then filter (\<lambda>(nodeName, violation).
               case violation of
                 RuleResults results \<Rightarrow> length results = length (Rules d)
               | NoResult \<Rightarrow> True) violatingNodes
      else violatingNodes)"

definition labeling_Violated :: "tas_reader \<Rightarrow> tas_strategy \<Rightarrow> violations" where
  "labeling_Violated cache d =
     filterViolatingNodeForAllLogicalOperator d (fetchRuleViolatingNodes cache d)"

definition scheduleonmetric_Violated :: "tas_reader \<Rightarrow> tas_strategy \<Rightarrow> violations" where
  "scheduleonmetric_Violated cache d = []"

subsection \<open>The interface\<close>

definition Violated :: "tas_reader \<Rightarrow> strategy \<Rightarrow> violations" where
  "Violated cache s =
     (case s of
        ScheduleOnMetric d \<Rightarrow> scheduleonmetric_Violated cache d
      | DontSchedule d \<Rightarrow> dontschedule_Violated cache d
      | Deschedule d \<Rightarrow> deschedule_Violated cache d
      | Labeling d \<Rightarrow> labeling_Violated cache d)"

definition scheduleonmetric_StrategyType :: string where "scheduleonmetric_StrategyType = ''scheduleonmetric''"
definition dontschedule_StrategyType :: string where "dontschedule_StrategyType = ''dontschedule''"
definition deschedule_StrategyType :: string where "deschedule_StrategyType = ''deschedule''"
definition labeling_StrategyType :: string where "labeling_StrategyType = ''labeling''"

fun StrategyType :: "strategy \<Rightarrow> string" where
  "StrategyType (ScheduleOnMetric d) = scheduleonmetric_StrategyType"
| "StrategyType (DontSchedule d) = dontschedule_StrategyType"
| "StrategyType (Deschedule d) = deschedule_StrategyType"
| "StrategyType (Labeling d) = labeling_StrategyType"

fun strategy_data :: "strategy \<Rightarrow> tas_strategy" where
  "strategy_data (ScheduleOnMetric d) = d"
| "strategy_data (DontSchedule d) = d"
| "strategy_data (Deschedule d) = d"
| "strategy_data (Labeling d) = d"

definition GetPolicyName :: "strategy \<Rightarrow> string" where
  "GetPolicyName s = PolicyName (strategy_data s)"

fun SetPolicyName :: "string \<Rightarrow> strategy \<Rightarrow> strategy" where
  "SetPolicyName policyName (ScheduleOnMetric d) = ScheduleOnMetric (d\<lparr>PolicyName := policyName\<rparr>)"
| "SetPolicyName policyName (DontSchedule d) = DontSchedule (d\<lparr>PolicyName := policyName\<rparr>)"
| "SetPolicyName policyName (Deschedule d) = Deschedule (d\<lparr>PolicyName := policyName\<rparr>)"
| "SetPolicyName policyName (Labeling d) = Labeling (d\<lparr>PolicyName := policyName\<rparr>)"

subsection \<open>Equality of strategies\<close>

text \<open>The loop over the rules of two strategies with equally many rules.\<close>

fun same_rules :: "tas_rule list \<Rightarrow> tas_rule list \<Rightarrow> bool" where
  "same_rules (rule # rules) (other # others) =
     (if Metricname rule \<noteq> Metricname other then False
      else if Target rule \<noteq> Target other then False
      else if Operator rule \<noteq> Operator other then False
      else same_rules rules others)"
| "same_rules _ _ = True"

text \<open>
  \<^verbatim>\<open>equalRules\<close> of the labeling strategy indexes the other rule's labels by the positions of its own:
  an index out of range is a panic, and further labels of the other rule are not looked at.
\<close>

fun equal_labels :: "string list \<Rightarrow> string list \<Rightarrow> bool option" where
  "equal_labels [] others = Some True"
| "equal_labels (label # labels) [] = None"
| "equal_labels (label # labels) (other # others) =
     (if label \<noteq> other then Some False else equal_labels labels others)"

definition equalRules :: "tas_rule \<Rightarrow> tas_rule \<Rightarrow> bool option" where
  "equalRules a b =
     (if Metricname a \<noteq> Metricname b then Some False
      else if Target a \<noteq> Target b then Some False
      else if Operator a \<noteq> Operator b then Some False
      else equal_labels (rule_Labels a) (rule_Labels b))"

fun all_rules_equal :: "tas_rule list \<Rightarrow> tas_rule list \<Rightarrow> bool option" where
  "all_rules_equal (rule # rules) (other # others) = do {
     eq \<leftarrow> equalRules rule other;
     if \<not> eq then Some False else all_rules_equal rules others
   }"
| "all_rules_equal _ _ = Some True"

text \<open>Three of the strategy types compare the same way.\<close>

definition plain_Equals :: "tas_strategy \<Rightarrow> tas_strategy \<Rightarrow> bool" where
  "plain_Equals d other =
     (if PolicyName other = PolicyName d \<and> 0 < length (Rules d) \<and> length (Rules d) = length (Rules other)
      then same_rules (Rules d) (Rules other) else False)"

definition scheduleonmetric_Equals :: "tas_strategy \<Rightarrow> tas_strategy \<Rightarrow> bool" where
  "scheduleonmetric_Equals d other = plain_Equals d other"

definition dontschedule_Equals :: "tas_strategy \<Rightarrow> tas_strategy \<Rightarrow> bool" where
  "dontschedule_Equals d other = plain_Equals d other"

definition deschedule_Equals :: "tas_strategy \<Rightarrow> tas_strategy \<Rightarrow> bool" where
  "deschedule_Equals d other = plain_Equals d other"

definition labeling_Equals :: "tas_strategy \<Rightarrow> tas_strategy \<Rightarrow> bool option" where
  "labeling_Equals d other =
     (if PolicyName other = PolicyName d \<and> 0 < length (Rules d) \<and> length (Rules d) = length (Rules other)
      then all_rules_equal (Rules d) (Rules other) else Some False)"

fun Equals :: "strategy \<Rightarrow> strategy \<Rightarrow> bool option" where
  "Equals (ScheduleOnMetric d) (ScheduleOnMetric other) = Some (scheduleonmetric_Equals d other)"
| "Equals (DontSchedule d) (DontSchedule other) = Some (dontschedule_Equals d other)"
| "Equals (Deschedule d) (Deschedule other) = Some (deschedule_Equals d other)"
| "Equals (Labeling d) (Labeling other) = labeling_Equals d other"
| "Equals _ _ = Some False"

subsection \<open>What violation means\<close>

text \<open>The specification: a node violates a rule if the rule's metric is known for it and the rule holds.\<close>

definition violates_rule :: "tas_reader \<Rightarrow> string \<Rightarrow> tas_rule \<Rightarrow> bool" where
  "violates_rule cache nodeName rule =
     (case ReadMetric cache (Metricname rule) of
        Inl err \<Rightarrow> False
      | Inr nodeMetrics \<Rightarrow>
          (case map_of nodeMetrics nodeName of
             None \<Rightarrow> False
           | Some nodeMetric \<Rightarrow> EvaluateRule (metric_Value nodeMetric) rule))"

definition violates :: "tas_reader \<Rightarrow> string \<Rightarrow> tas_strategy \<Rightarrow> bool" where
  "violates cache nodeName d =
     (if LogicalOperator d = ''allOf'' then Rules d \<noteq> [] \<and> list_all (violates_rule cache nodeName) (Rules d)
      else list_ex (violates_rule cache nodeName) (Rules d))"

text \<open>Metrics as the cache holds them: one value per node.\<close>

definition reader_ok :: "tas_reader \<Rightarrow> bool" where
  "reader_ok cache \<longleftrightarrow> (\<forall>metricName nodeMetrics. ReadMetric cache metricName = Inr nodeMetrics \<longrightarrow> wf_map nodeMetrics)"

text \<open>The count and the membership of one node after one more rule.\<close>

definition node_after_rule ::
  "tas_reader \<Rightarrow> tas_strategy \<Rightarrow> string \<Rightarrow> tas_rule \<Rightarrow> int \<times> violation option \<Rightarrow> int \<times> violation option" where
  "node_after_rule cache d n rule state =
     (if violates_rule cache n rule
      then (fst state + 1,
        if LogicalOperator d = ''allOf'' \<and> fst state + 1 \<noteq> int (length (Rules d)) then snd state else Some NoResult)
      else state)"

lemma count_violation_node:
  assumes "wf_map nodeMetrics" "ReadMetric cache (Metricname rule) = Inr nodeMetrics"
  shows "(\<lambda>(counts, viol). (gm_getd 0 counts n, map_of viol n)) (fold (count_violation d rule) nodeMetrics state) =
    node_after_rule cache d n rule ((\<lambda>(counts, viol). (gm_getd 0 counts n, map_of viol n)) state)"
  by (subst fold_own_key [OF assms(1), where P = "\<lambda>(counts, viol). (gm_getd 0 counts n, map_of viol n)" and
        g = "\<lambda>m p. if EvaluateRule (metric_Value m) rule then (fst p + 1, if LogicalOperator d = ''allOf'' \<and>
          fst p + 1 \<noteq> int (length (Rules d)) then snd p else Some NoResult) else p"])
    (auto simp: count_violation_def Let_def node_after_rule_def violates_rule_def assms(2) split: option.splits)

lemma dontschedule_node:
  assumes "reader_ok cache"
  shows "map_of (dontschedule_Violated cache d) n = snd (fold (node_after_rule cache d n) (Rules d) (0, None))"
proof -
  let ?P = "\<lambda>(counts, viol). (gm_getd 0 counts n, map_of viol n)"
  let ?f = "\<lambda>rule state. case ReadMetric cache (Metricname rule) of Inl err \<Rightarrow> state
    | Inr nodeMetrics \<Rightarrow> fold (count_violation d rule) nodeMetrics state"
  have "?P (?f rule state) = node_after_rule cache d n rule (?P state)" for rule state
    using assms by (cases "ReadMetric cache (Metricname rule)")
      (simp_all add: count_violation_node reader_ok_def node_after_rule_def violates_rule_def)
  from fold_projection [of ?P ?f, OF this, of "Rules d" "([], [])"] show ?thesis
    by (simp add: dontschedule_Violated_def split_beta prod_eq_iff)
qed

lemma node_after_rules:
  assumes "length rules \<le> length (Rules d)"
  shows "fold (node_after_rule cache d n) rules (0, None) =
    (int (length (filter (violates_rule cache n) rules)),
     if (if LogicalOperator d = ''allOf''
         then Rules d \<noteq> [] \<and> length (filter (violates_rule cache n) rules) = length (Rules d)
         else list_ex (violates_rule cache n) rules)
     then Some NoResult else None)"
  using assms
proof (induction rules rule: rev_induct)
  case (snoc rule rules)
  have "length (filter (violates_rule cache n) rules) < length (Rules d)"
    by (rule le_less_trans [OF length_filter_le]) (use snoc.prems in simp)
  with snoc show ?case by (auto simp: node_after_rule_def)
qed simp

lemma filter_all: "length (filter P xs) = length xs \<longleftrightarrow> list_all P xs"
  by (induction xs) (auto simp: le_imp_less_Suc less_not_refl3 [OF le_imp_less_Suc [OF length_filter_le]])

lemma dontschedule_violates:
  assumes "reader_ok cache"
  shows "map_of (dontschedule_Violated cache d) n = (if violates cache n d then Some NoResult else None)"
  by (simp add: dontschedule_node [OF assms] node_after_rules violates_def filter_all)

lemma deschedule_same: "deschedule_Violated = dontschedule_Violated"
  by (simp add: fun_eq_iff deschedule_Violated_def dontschedule_Violated_def)

text \<open>The results of a labeling strategy for a node: the violated rules with the node's value.\<close>

definition node_results :: "tas_reader \<Rightarrow> string \<Rightarrow> tas_rule list \<Rightarrow> rule_result list" where
  "node_results cache n rules =
     concat (map (\<lambda>rule.
         case ReadMetric cache (Metricname rule) of
           Inl err \<Rightarrow> []
         | Inr nodeMetrics \<Rightarrow>
             (case map_of nodeMetrics n of
                None \<Rightarrow> []
              | Some m \<Rightarrow> if EvaluateRule (metric_Value m) rule then [\<lparr>rr_rule = rule, rr_quantity = metric_Value m\<rparr>] else []))
       rules)"

abbreviation found :: "rule_result list \<Rightarrow> violation option" where
  "found results \<equiv> (if results = [] then None else Some (RuleResults results))"

lemma node_results_simps [simp]:
  "node_results cache n [] = []"
  "node_results cache n (rules @ rules') = node_results cache n rules @ node_results cache n rules'"
  by (simp_all add: node_results_def)

lemma node_results_length: "length (node_results cache n rules) = length (filter (violates_rule cache n) rules)"
  by (induction rules) (simp_all add: node_results_def violates_rule_def split: sum.splits option.splits)

lemma node_results_rules: "map rr_rule (node_results cache n rules) = filter (violates_rule cache n) rules"
  by (induction rules) (simp_all add: node_results_def violates_rule_def split: sum.splits option.splits)

lemma add_rule_result_node:
  assumes "wf_map nodeMetrics" "ReadMetric cache (Metricname rule) = Inr nodeMetrics" "map_of viol n = found results"
  shows "map_of (fold (add_rule_result rule) nodeMetrics viol) n = found (results @ node_results cache n [rule])"
  by (subst fold_own_key [OF assms(1), where P = "\<lambda>viol. map_of viol n" and
        g = "\<lambda>m p. if EvaluateRule (metric_Value m) rule
             then (case p of Some (RuleResults rs) \<Rightarrow> Some (RuleResults (rs @ [\<lparr>rr_rule = rule, rr_quantity = metric_Value m\<rparr>]))
                   | None \<Rightarrow> Some (RuleResults [\<lparr>rr_rule = rule, rr_quantity = metric_Value m\<rparr>]) | _ \<Rightarrow> p) else p"])
    (auto simp: add_rule_result_def Let_def node_results_def assms(2,3) split: option.splits violation.splits)

lemma fetchRuleViolatingNodes_node:
  assumes "reader_ok cache"
  shows "map_of (fetchRuleViolatingNodes cache d) n = found (node_results cache n (Rules d))"
proof -
  have "map_of (fold (\<lambda>rule violatingNodes. case ReadMetric cache (Metricname rule) of
      Inl err \<Rightarrow> violatingNodes | Inr nodeMetrics \<Rightarrow> fold (add_rule_result rule) nodeMetrics violatingNodes) rules []) n =
    found (node_results cache n rules)" for rules
  proof (induction rules rule: rev_induct)
    case (snoc rule rules)
    then show ?case using assms
      by (cases "ReadMetric cache (Metricname rule)")
        (simp_all add: add_rule_result_node reader_ok_def, simp add: node_results_def)
  qed simp
  then show ?thesis by (simp add: fetchRuleViolatingNodes_def)
qed

lemma wf_fetchRuleViolatingNodes: "wf_map (fetchRuleViolatingNodes cache d)"
proof -
  have add: "wf_map viol \<Longrightarrow> wf_map (add_rule_result rule e viol)" for rule e viol
    by (auto simp: add_rule_result_def Let_def split: prod.splits option.splits violation.splits)
  have "wf_map viol \<Longrightarrow> wf_map (fold (add_rule_result rule) es viol)" for rule es viol
    by (induction es arbitrary: viol) (simp_all add: add)
  then have "wf_map viol \<Longrightarrow> wf_map (fold (\<lambda>rule viol. case ReadMetric cache (Metricname rule) of
      Inl err \<Rightarrow> viol | Inr nodeMetrics \<Rightarrow> fold (add_rule_result rule) nodeMetrics viol) rules viol)" for rules viol
    by (induction rules arbitrary: viol) (simp_all split: sum.splits)
  then show ?thesis by (simp add: fetchRuleViolatingNodes_def)
qed

lemma map_of_filter_value:
  "wf_map m \<Longrightarrow> map_of (filter (\<lambda>(k, v). Q v) m) n = (case map_of m n of Some v \<Rightarrow> if Q v then Some v else None | None \<Rightarrow> None)"
  by (induction m) (auto simp: wf_map_def map_of_eq_None_iff image_iff split: option.splits)

lemma labeling_Violated_node:
  assumes "reader_ok cache"
  shows "map_of (labeling_Violated cache d) n =
    (if violates cache n d then Some (RuleResults (node_results cache n (Rules d))) else None)"
proof -
  let ?rs = "node_results cache n (Rules d)"
  have empty: "?rs = [] \<longleftrightarrow> \<not> list_ex (violates_rule cache n) (Rules d)"
    unfolding length_0_conv [symmetric] node_results_length by (auto simp: list_ex_iff filter_empty_conv)
  have all: "length ?rs = length (Rules d) \<longleftrightarrow> list_all (violates_rule cache n) (Rules d)"
    by (simp add: node_results_length filter_all)
  have nil: "?rs = []" if "Rules d = []" using that by simp
  have ex: "list_ex (violates_rule cache n) (Rules d)" if "Rules d \<noteq> []" "list_all (violates_rule cache n) (Rules d)"
    using that by (cases "Rules d") simp_all
  show ?thesis using empty all nil ex
    by (cases "?rs = []"; cases "Rules d = []")
      (simp_all add: labeling_Violated_def filterViolatingNodeForAllLogicalOperator_def violates_def map_of_filter_value
        wf_fetchRuleViolatingNodes fetchRuleViolatingNodes_node [OF assms])
qed

lemma Violated_node:
  assumes "reader_ok cache"
  shows "map_of (Violated cache s) n =
    (case s of
       ScheduleOnMetric d \<Rightarrow> None
     | DontSchedule d \<Rightarrow> if violates cache n d then Some NoResult else None
     | Deschedule d \<Rightarrow> if violates cache n d then Some NoResult else None
     | Labeling d \<Rightarrow> if violates cache n d then Some (RuleResults (node_results cache n (Rules d))) else None)"
  by (cases s) (simp_all add: Violated_def scheduleonmetric_Violated_def deschedule_same
      dontschedule_violates [OF assms] labeling_Violated_node [OF assms])

lemma wf_Violated:
  assumes "reader_ok cache"
  shows "wf_map (Violated cache s)"
proof -
  have "wf_map (snd state) \<Longrightarrow> wf_map (snd (fold (count_violation d rule) es state))" for d rule es state
    by (induction es arbitrary: state) (auto simp: count_violation_def Let_def split: prod.splits)
  then have step: "wf_map (snd state) \<Longrightarrow> wf_map (snd (fold (\<lambda>rule state. case ReadMetric cache (Metricname rule) of
      Inl err \<Rightarrow> state | Inr nodeMetrics \<Rightarrow> fold (count_violation d rule) nodeMetrics state) rules state))" for d rules state
    by (induction rules arbitrary: state) (simp_all split: sum.splits)
  have "wf_map (filter P m)" if "wf_map m" for P and m :: violations
    using that by (simp add: wf_map_def distinct_map_filter)
  then show ?thesis using step [of "([], [])"] wf_fetchRuleViolatingNodes
    by (auto simp: Violated_def scheduleonmetric_Violated_def deschedule_same dontschedule_Violated_def
        labeling_Violated_def filterViolatingNodeForAllLogicalOperator_def split: strategy.splits)
qed

text \<open>C18: Violated is the logical reading of the policy, for every strategy type and every node: with
  allOf a node violates a strategy when it violates each of its (at least one) rules, otherwise when it violates
  some rule; a rule whose metric cannot be read is violated by no node; a labeling strategy returns with a
  violating node exactly the rules it violates, in the order of the policy, with the values that violate them;
  scheduleonmetric is violated by no node.\<close>

theorem Violated_spec:
  assumes "reader_ok cache"
  shows "map_of (Violated cache s) n =
    (case s of
       ScheduleOnMetric d \<Rightarrow> None
     | DontSchedule d \<Rightarrow> if violates cache n d then Some NoResult else None
     | Deschedule d \<Rightarrow> if violates cache n d then Some NoResult else None
     | Labeling d \<Rightarrow> if violates cache n d then Some (RuleResults (node_results cache n (Rules d))) else None)"
  by (rule Violated_node [OF assms])

definition demo_metric :: "rat \<Rightarrow> node_metric" where
  "demo_metric v = \<lparr>Timestamp = 0, Window = time_Minute, metric_Value = Quantity v\<rparr>"

definition demo_reader :: tas_reader where
  "demo_reader = \<lparr>ReadMetric = (\<lambda>m. if m = ''power'' then Inr [(''n1'', demo_metric 80), (''n2'', demo_metric 20)]
       else Inl (NoMetric m)), ReadPolicy = (\<lambda>_ p. Inl (NoPolicy p))\<rparr>"

definition demo_rule :: "string \<Rightarrow> int64 \<Rightarrow> string list \<Rightarrow> tas_rule" where
  "demo_rule operator target lbls = \<lparr>Metricname = ''power'', Operator = operator, rule_Labels = lbls, Target = target\<rparr>"

definition demo_strategy :: "string \<Rightarrow> tas_rule list \<Rightarrow> tas_strategy" where
  "demo_strategy policy rules = \<lparr>PolicyName = policy, LogicalOperator = ''anyOf'', Rules = rules\<rparr>"

lemma reader_ok_demo: "reader_ok demo_reader"
  by (simp add: reader_ok_def demo_reader_def wf_map_Cons)

lemma Violated_spec_witness:
  "map_of (Violated demo_reader (Labeling \<lparr>PolicyName = ''p'', LogicalOperator = ''allOf'',
     Rules = [demo_rule ''GreaterThan'' 50 [], demo_rule ''LessThan'' 90 []]\<rparr>)) ''n1'' =
   Some (RuleResults [\<lparr>rr_rule = demo_rule ''GreaterThan'' 50 [], rr_quantity = Quantity 80\<rparr>,
     \<lparr>rr_rule = demo_rule ''LessThan'' 90 [], rr_quantity = Quantity 80\<rparr>])"
  by (subst Violated_spec [OF reader_ok_demo]) (simp add: violates_def violates_rule_def node_results_def demo_reader_def
      demo_rule_def demo_metric_def EvaluateRule_def cmp_int64_def quantity_cmp_def less_quantity_def)

subsection \<open>What equality means\<close>

definition rule_equal :: "bool \<Rightarrow> tas_rule \<Rightarrow> tas_rule \<Rightarrow> bool" where
  "rule_equal labeled a b \<longleftrightarrow> Metricname a = Metricname b \<and> Target a = Target b \<and> Operator a = Operator b \<and>
     (labeled \<longrightarrow> prefix (rule_Labels a) (rule_Labels b))"

lemma same_rules_iff: "length rules = length others \<Longrightarrow> same_rules rules others \<longleftrightarrow> list_all2 (rule_equal False) rules others"
  by (induction rules others rule: list_induct2) (simp_all add: rule_equal_def)

lemma equal_labels_iff: "equal_labels labels others = Some True \<longleftrightarrow> prefix labels others"
  by (induction labels others rule: equal_labels.induct) simp_all

lemma all_rules_equal_iff:
  "length rules = length others \<Longrightarrow> all_rules_equal rules others = Some True \<longleftrightarrow> list_all2 (rule_equal True) rules others"
proof (induction rules others rule: list_induct2)
  case (Cons x xs y ys)
  have "equalRules x y = Some True \<longleftrightarrow> rule_equal True x y"
    by (simp add: equalRules_def rule_equal_def equal_labels_iff)
  then show ?case using Cons.IH by (cases "equalRules x y") auto
qed simp

lemma Equals_iff:
  "Equals s other = Some True \<longleftrightarrow>
     StrategyType s = StrategyType other \<and> GetPolicyName s = GetPolicyName other \<and> Rules (strategy_data s) \<noteq> [] \<and>
     list_all2 (rule_equal (StrategyType s = labeling_StrategyType)) (Rules (strategy_data s)) (Rules (strategy_data other))"
proof -
  have len: "list_all2 P xs ys \<Longrightarrow> length xs = length ys" for P :: "tas_rule \<Rightarrow> tas_rule \<Rightarrow> bool" and xs ys
    by (rule list_all2_lengthD)
  show ?thesis
    by (cases s; cases other)
      (auto simp: GetPolicyName_def scheduleonmetric_Equals_def dontschedule_Equals_def deschedule_Equals_def
        labeling_Equals_def plain_Equals_def scheduleonmetric_StrategyType_def dontschedule_StrategyType_def
        deschedule_StrategyType_def labeling_StrategyType_def same_rules_iff all_rules_equal_iff dest: len)
qed

text \<open>Two strategies are equal exactly if they have the same type and policy name, at least one rule,
  and position by position the same metrics, targets and operators, where the labels of a labeling rule need only
  be a prefix of the other's labels. In particular a strategy without rules is not equal to itself.\<close>

theorem Equals_spec:
  "Equals s other = Some True \<longleftrightarrow>
     StrategyType s = StrategyType other \<and> GetPolicyName s = GetPolicyName other \<and> Rules (strategy_data s) \<noteq> [] \<and>
     list_all2 (rule_equal (StrategyType s = labeling_StrategyType)) (Rules (strategy_data s)) (Rules (strategy_data other))"
  by (rule Equals_iff)

end
