(* ===== verification/Tas_Cache.thy ===== *)
theory Tas_Cache
  imports Tas_Strategies
begin

text \<open>
  The cache of TAS (\<^verbatim>\<open>cache/cache.go\<close>, \<^verbatim>\<open>cache/autoupdating.go\<close>): a goroutine that owns a map
  and serves requests one at a time, and on top of it the metrics and the policies, with a count of the
  strategies that use each metric. A call that does not return (a second lock of the mutex by its holder)
  is \<open>None\<close>.
\<close>

subsection \<open>The concurrent cache\<close>

datatype payload = PMetrics node_metrics | PPolicy tas_policy

datatype requestType = READ | WRITE | DELETE

text \<open>A payload of \<open>None\<close> is the nil interface.\<close>

record request =
  req_Type :: requestType
  Payload :: "payload option"
  Key :: string

type_synonym store = "(string, payload option) gomap"

definition newRequest :: "requestType \<Rightarrow> request" where
  "newRequest t = \<lparr>req_Type = t, Payload = None, Key = []\<rparr>"

text \<open>One round of \<^verbatim>\<open>run\<close>: the request as it is answered, and the map.\<close>

definition serve :: "request \<Rightarrow> store \<Rightarrow> request \<times> store" where
  "serve req cache =
     (case req_Type req of
        READ \<Rightarrow> (req\<lparr>Payload := gm_getd None cache (Key req)\<rparr>, cache)
      | WRITE \<Rightarrow>
          let req = (if Payload req = None
                     then (case map_of cache (Key req) of Some v \<Rightarrow> req\<lparr>Payload := v\<rparr> | None \<Rightarrow> req)
                     else req)
          in (req, AList.update (Key req) (Payload req) cache)
      | DELETE \<Rightarrow> (req, AList.delete (Key req) cache))"

text \<open>\<^verbatim>\<open>add\<close> sends its request twice.\<close>

definition add :: "string \<Rightarrow> payload option \<Rightarrow> store \<Rightarrow> store" where
  "add key payload cache =
     (let r = (newRequest WRITE)\<lparr>Key := key, Payload := payload\<rparr>;
          cache = snd (serve r cache)
      in snd (serve r cache))"

definition delete_key :: "string \<Rightarrow> store \<Rightarrow> store" where
  "delete_key key cache = snd (serve ((newRequest DELETE)\<lparr>Key := key\<rparr>) cache)"

definition read_key :: "string \<Rightarrow> store \<Rightarrow> payload option" where
  "read_key itemName cache = Payload (fst (serve ((newRequest READ)\<lparr>Key := itemName\<rparr>) cache))"

lemma read_key_lookup: "read_key key cache = gm_getd None cache key"
  by (simp add: read_key_def serve_def newRequest_def)

lemma add_lookup:
  "map_of (add key payload cache) = (map_of cache)(key \<mapsto> case payload of None \<Rightarrow> gm_getd None cache key | Some p \<Rightarrow> Some p)"
  by (auto simp: add_def serve_def newRequest_def Let_def gm_getd_def split: option.splits)

lemma delete_key_lookup: "map_of (delete_key key cache) = (map_of cache)(key := None)"
  by (simp add: delete_key_def serve_def newRequest_def)

lemma read_add:
  "read_key k (add key payload cache) =
     (if k = key \<and> payload \<noteq> None then payload else read_key k cache)"
  by (auto simp: read_key_lookup gm_getd_def add_lookup split: option.splits)

lemma read_delete: "read_key k (delete_key key cache) = (if k = key then None else read_key k cache)"
  by (auto simp: read_key_lookup gm_getd_def delete_key_lookup)

lemmas store_laws = read_add read_delete

subsection \<open>The auto-updating cache\<close>

record tas_cache =
  stored :: store
  mtx :: bool
  metricMap :: "(string, int) gomap"

definition NewAutoUpdatingCache :: tas_cache where
  "NewAutoUpdatingCache = \<lparr>stored = [], mtx = False, metricMap = []\<rparr>"

definition Lock :: "tas_cache \<Rightarrow> tas_cache option" where
  "Lock c = (if mtx c then None else Some (c\<lparr>mtx := True\<rparr>))"

definition Unlock :: "tas_cache \<Rightarrow> tas_cache" where
  "Unlock c = c\<lparr>mtx := False\<rparr>"

definition policyPath :: "string \<Rightarrow> string \<Rightarrow> string" where
  "policyPath namespace policyName = ''policies/'' @ namespace @ ''/'' @ policyName"

definition metricPath :: "string \<Rightarrow> string" where
  "metricPath metricName = ''metrics/'' @ metricName"

definition nilPayloadCheck :: "node_metrics \<Rightarrow> payload option" where
  "nilPayloadCheck data = (if 0 < length data then Some (PMetrics data) else None)"

definition cache_ReadMetric :: "tas_cache \<Rightarrow> string \<Rightarrow> tas_error + node_metrics" where
  "cache_ReadMetric n metricName =
     (case read_key (metricPath metricName) (stored n) of
        Some (PMetrics metric) \<Rightarrow> Inr metric
      | _ \<Rightarrow> Inl (NoMetric metricName))"

definition cache_ReadPolicy :: "tas_cache \<Rightarrow> string \<Rightarrow> string \<Rightarrow> tas_error + tas_policy" where
  "cache_ReadPolicy n namespace policyName =
     (case read_key (policyPath namespace policyName) (stored n) of
        Some (PPolicy policy) \<Rightarrow> Inr policy
      | _ \<Rightarrow> Inl (NoPolicy policyName))"

definition cache_reader :: "tas_cache \<Rightarrow> tas_reader" where
  "cache_reader n = \<lparr>ReadMetric = cache_ReadMetric n, ReadPolicy = cache_ReadPolicy n\<rparr>"

definition WritePolicy :: "string \<Rightarrow> string \<Rightarrow> tas_policy \<Rightarrow> tas_cache \<Rightarrow> tas_error + tas_cache" where
  "WritePolicy namespace policyName policy n =
     (if length policyName = 0 then Inl InvalidPolicyName
      else Inr (n\<lparr>stored := add (policyPath namespace policyName) (Some (PPolicy policy)) (stored n)\<rparr>))"

definition WriteMetric :: "string \<Rightarrow> node_metrics \<Rightarrow> tas_cache \<Rightarrow> (tas_error + tas_cache) option" where
  "WriteMetric metricName data n =
     (if length metricName = 0 then Some (Inl InvalidMetricName)
      else
        let payload = nilPayloadCheck data;
            n = n\<lparr>stored := add (metricPath metricName) payload (stored n)\<rparr>
        in if payload = None
           then do {
             n \<leftarrow> Lock n;
             let n = (case map_of (metricMap n) metricName of
                        Some tot \<Rightarrow> n\<lparr>metricMap := AList.update metricName (tot + 1) (metricMap n)\<rparr>
                      | None \<Rightarrow> n\<lparr>metricMap := AList.update metricName 1 (metricMap n)\<rparr>);
             Some (Inr (Unlock n))
           }
           else Some (Inr n))"

definition DeletePolicy :: "string \<Rightarrow> string \<Rightarrow> tas_cache \<Rightarrow> tas_cache" where
  "DeletePolicy namespace policyName n = n\<lparr>stored := delete_key (policyPath namespace policyName) (stored n)\<rparr>"

definition DeleteMetric :: "string \<Rightarrow> tas_cache \<Rightarrow> tas_cache option" where
  "DeleteMetric metricName n = do {
     n \<leftarrow> Lock n;
     let total = gm_getd 0 (metricMap n) metricName;
     let n = (if map_of (metricMap n) metricName \<noteq> None \<and> total = 1
              then n\<lparr>metricMap := AList.delete metricName (metricMap n),
                     stored := delete_key (metricPath metricName) (stored n)\<rparr>
              else n\<lparr>metricMap := AList.update metricName (total - 1) (metricMap n)\<rparr>);
     Some (Unlock n)
   }"

text \<open>The client of the metrics API is a parameter; its instance in the program is \<open>GetNodeMetric\<close>.\<close>

definition updateMetric ::
  "(string \<Rightarrow> tas_error + node_metrics) \<Rightarrow> string \<Rightarrow> tas_cache \<Rightarrow> (tas_error + tas_cache) option" where
  "updateMetric client metricName n =
     (case client metricName of
        Inl err \<Rightarrow> Some (Inl err)
      | Inr metricInfo \<Rightarrow> WriteMetric metricName metricInfo n)"

text \<open>The body of the loop over the counted metrics.\<close>

definition updateEntry ::
  "(string \<Rightarrow> tas_error + node_metrics) \<Rightarrow> string \<times> int \<Rightarrow> tas_cache \<Rightarrow> tas_cache option" where
  "updateEntry client entry n =
     (case entry of (name, _) \<Rightarrow>
        if 0 < length name
        then do {
          result \<leftarrow> updateMetric client name n;
          Some (case result of Inl err \<Rightarrow> n | Inr n \<Rightarrow> n)
        }
        else Some (n\<lparr>metricMap := AList.delete name (metricMap n)\<rparr>))"

definition updateAllMetrics ::
  "((string \<times> int) list \<Rightarrow> (string \<times> int) list) \<Rightarrow> (string \<Rightarrow> tas_error + node_metrics) \<Rightarrow> tas_cache \<Rightarrow>
   tas_cache option" where
  "updateAllMetrics ord client n = do {
     n \<leftarrow> Lock n;
     n \<leftarrow> ofold (updateEntry client) (ord (metricMap n)) n;
     Some (Unlock n)
   }"

text \<open>Finitely many rounds of \<^verbatim>\<open>PeriodicUpdate\<close>: at each tick the API answers as it does at that time.\<close>

definition PeriodicUpdate ::
  "((string \<times> int) list \<Rightarrow> (string \<times> int) list) \<Rightarrow> (string \<Rightarrow> tas_error + node_metrics) list \<Rightarrow> tas_cache \<Rightarrow>
   tas_cache option" where
  "PeriodicUpdate ord clients n = ofold (updateAllMetrics ord) clients n"

subsection \<open>Keys\<close>

lemma path_simps [simp]:
  "metricPath m \<noteq> policyPath ns p" "policyPath ns p \<noteq> metricPath m"
  "metricPath m = metricPath m' \<longleftrightarrow> m = m'"
  by (simp_all add: metricPath_def policyPath_def)

lemma policyPath_inject:
  assumes "CHR ''/'' \<notin> set ns" "CHR ''/'' \<notin> set ns'"
  shows "policyPath ns p = policyPath ns' p' \<longleftrightarrow> ns = ns' \<and> p = p'"
proof -
  have "ns = ns' \<and> p = p'" if "ns @ ''/'' @ p = ns' @ ''/'' @ p'"
    using assms that
  proof (induction ns arbitrary: ns')
    case Nil
    then show ?case by (cases ns') simp_all
  next
    case (Cons x ns)
    then show ?case by (cases ns') auto
  qed
  then show ?thesis by (auto simp: policyPath_def)
qed

subsection \<open>The operations\<close>

abbreviation users :: "tas_cache \<Rightarrow> string \<Rightarrow> int" where
  "users n \<equiv> gm_getd 0 (metricMap n)"

definition cache_ok :: "tas_cache \<Rightarrow> bool" where
  "cache_ok n \<longleftrightarrow> \<not> mtx n \<and> wf_map (metricMap n) \<and> reader_ok (cache_reader n)"

lemma cache_reader_simps [simp]:
  "ReadMetric (cache_reader n) = cache_ReadMetric n" "ReadPolicy (cache_reader n) = cache_ReadPolicy n"
  by (simp_all add: cache_reader_def)

lemma read_after_metric:
  "stored n' = add (metricPath m) (nilPayloadCheck data) (stored n) \<Longrightarrow>
     cache_ReadMetric n' m' = (if m' = m \<and> data \<noteq> [] then Inr data else cache_ReadMetric n m')"
  "stored n' = add (metricPath m) (nilPayloadCheck data) (stored n) \<Longrightarrow> cache_ReadPolicy n' = cache_ReadPolicy n"
  by (auto simp: cache_ReadMetric_def cache_ReadPolicy_def fun_eq_iff store_laws nilPayloadCheck_def)

lemma read_same_store:
  "stored n' = stored n \<Longrightarrow> cache_ReadMetric n' = cache_ReadMetric n"
  "stored n' = stored n \<Longrightarrow> cache_ReadPolicy n' = cache_ReadPolicy n"
  by (simp_all add: cache_ReadMetric_def cache_ReadPolicy_def fun_eq_iff)

lemma read_after_delete:
  "stored n' = delete_key (metricPath m) (stored n) \<Longrightarrow>
     cache_ReadMetric n' m' = (if m' = m then Inl (NoMetric m) else cache_ReadMetric n m')"
  "stored n' = delete_key (metricPath m) (stored n) \<Longrightarrow> cache_ReadPolicy n' = cache_ReadPolicy n"
  by (auto simp: cache_ReadMetric_def cache_ReadPolicy_def fun_eq_iff store_laws)

lemma WriteMetric_nil:
  assumes "cache_ok n" "m \<noteq> []"
  shows "\<exists>n'. WriteMetric m [] n = Some (Inr n') \<and> cache_ok n' \<and> users n' = (users n)(m := users n m + 1) \<and>
    cache_ReadMetric n' = cache_ReadMetric n \<and> cache_ReadPolicy n' = cache_ReadPolicy n"
proof -
  let ?n = "n\<lparr>stored := add (metricPath m) None (stored n), mtx := False,
    metricMap := AList.update m (users n m + 1) (metricMap n)\<rparr>"
  have "WriteMetric m [] n = Some (Inr ?n)"
    using assms by (auto simp: WriteMetric_def nilPayloadCheck_def Lock_def Unlock_def cache_ok_def Let_def gm_getd_def
        split: option.splits)
  moreover have "cache_ReadMetric ?n = cache_ReadMetric n" "cache_ReadPolicy ?n = cache_ReadPolicy n"
    using read_after_metric [of ?n m "[]" n] by (auto simp: nilPayloadCheck_def)
  moreover have "users ?n = (users n)(m := users n m + 1)" by auto
  ultimately show ?thesis using assms by (intro exI [of _ ?n]) (simp add: cache_ok_def reader_ok_def)
qed

lemma WriteMetric_data:
  assumes "m \<noteq> []" "data \<noteq> []"
  shows "WriteMetric m data n = Some (Inr (n\<lparr>stored := add (metricPath m) (nilPayloadCheck data) (stored n)\<rparr>))"
  using assms by (simp add: WriteMetric_def nilPayloadCheck_def)

lemma DeleteMetric_unlocked:
  assumes "cache_ok n"
  shows "\<exists>n'. DeleteMetric m n = Some n' \<and> cache_ok n' \<and> users n' = (users n)(m := users n m - 1) \<and>
    (\<forall>m'. cache_ReadMetric n' m' = (if m' = m \<and> users n m = 1 then Inl (NoMetric m) else cache_ReadMetric n m')) \<and>
    cache_ReadPolicy n' = cache_ReadPolicy n"
proof (cases "users n m = 1")
  case True
  let ?n = "n\<lparr>mtx := False, metricMap := AList.delete m (metricMap n), stored := delete_key (metricPath m) (stored n)\<rparr>"
  from True have "map_of (metricMap n) m \<noteq> None" by (auto simp: gm_getd_def split: option.splits)
  then have "DeleteMetric m n = Some ?n" using True assms by (simp add: DeleteMetric_def Lock_def Unlock_def cache_ok_def)
  moreover have "users ?n = (users n)(m := 0)" by (auto simp: gm_getd_def fun_eq_iff)
  moreover note read_after_delete [of ?n m n]
  ultimately show ?thesis using True assms by (intro exI [of _ ?n]) (auto simp: cache_ok_def reader_ok_def)
next
  case False
  let ?n = "n\<lparr>mtx := False, metricMap := AList.update m (users n m - 1) (metricMap n)\<rparr>"
  have "DeleteMetric m n = Some ?n" using False assms by (simp add: DeleteMetric_def Lock_def Unlock_def cache_ok_def)
  moreover have "users ?n = (users n)(m := users n m - 1)" by auto
  moreover note read_same_store [of ?n n]
  ultimately show ?thesis using False assms by (intro exI [of _ ?n]) (simp add: cache_ok_def reader_ok_def)
qed

lemma WritePolicy_read:
  assumes "WritePolicy ns p policy n = Inr n'"
  shows "cache_ReadPolicy n' ns' p' = (if policyPath ns' p' = policyPath ns p then Inr policy else cache_ReadPolicy n ns' p')"
    "cache_ReadMetric n' = cache_ReadMetric n" "metricMap n' = metricMap n" "mtx n' = mtx n"
  using assms by (auto simp: WritePolicy_def cache_ReadPolicy_def cache_ReadMetric_def fun_eq_iff store_laws
      split: if_splits option.splits payload.splits)

lemma DeletePolicy_read:
  "cache_ReadPolicy (DeletePolicy ns p n) ns' p' =
     (if policyPath ns' p' = policyPath ns p then Inl (NoPolicy p') else cache_ReadPolicy n ns' p')"
  "cache_ReadMetric (DeletePolicy ns p n) = cache_ReadMetric n" "metricMap (DeletePolicy ns p n) = metricMap n"
  "mtx (DeletePolicy ns p n) = mtx n"
  by (simp_all add: DeletePolicy_def cache_ReadPolicy_def cache_ReadMetric_def fun_eq_iff store_laws)

lemma policy_ops_ok [simp]:
  "WritePolicy ns p policy n = Inr n' \<Longrightarrow> cache_ok n' \<longleftrightarrow> cache_ok n" "cache_ok (DeletePolicy ns p n) \<longleftrightarrow> cache_ok n"
  by (simp_all add: cache_ok_def reader_ok_def WritePolicy_read DeletePolicy_read)

subsection \<open>The interface of the metric counts\<close>

text \<open>What the controller relies on: each strategy's rule claims its metric once and releases it once.\<close>

locale metric_counts =
  fixes ok :: "'c \<Rightarrow> bool" and uses :: "'c \<Rightarrow> string \<Rightarrow> int" and policies :: "'c \<Rightarrow> 'p"
    and claim :: "string \<Rightarrow> 'c \<Rightarrow> (tas_error + 'c) option" and release :: "string \<Rightarrow> 'c \<Rightarrow> 'c option"
  assumes claim_empty: "claim [] c = Some (Inl InvalidMetricName)"
    and claim_uses: "ok c \<Longrightarrow> m \<noteq> [] \<Longrightarrow>
      \<exists>c'. claim m c = Some (Inr c') \<and> ok c' \<and> uses c' = (uses c)(m := uses c m + 1) \<and> policies c' = policies c"
    and release_uses: "ok c \<Longrightarrow>
      \<exists>c'. release m c = Some c' \<and> ok c' \<and> uses c' = (uses c)(m := uses c m - 1) \<and> policies c' = policies c"
begin

lemma claim_all:
  "ok c \<Longrightarrow> \<exists>c'. ofold (\<lambda>m c. do { r \<leftarrow> claim m c; Some (case r of Inl err \<Rightarrow> c | Inr c \<Rightarrow> c) }) ms c = Some c' \<and> ok c' \<and>
     policies c' = policies c \<and> (\<forall>m. uses c' m = uses c m + (if m = [] then 0 else int (count_list ms m)))"
proof (induction ms arbitrary: c)
  case (Cons m ms)
  show ?case
  proof (cases "m = []")
    case True
    then show ?thesis using Cons.IH [OF Cons.prems] by (auto simp: claim_empty)
  next
    case False
    from claim_uses [OF Cons.prems this] obtain c1
      where c1: "claim m c = Some (Inr c1)" "ok c1" "uses c1 = (uses c)(m := uses c m + 1)" "policies c1 = policies c" by blast
    show ?thesis using Cons.IH [OF c1(2)] False by (auto simp: c1)
  qed
qed simp

lemma release_all:
  "ok c \<Longrightarrow> \<exists>c'. ofold release ms c = Some c' \<and> ok c' \<and> policies c' = policies c \<and>
     (\<forall>m. uses c' m = uses c m - int (count_list ms m))"
proof (induction ms arbitrary: c)
  case (Cons m ms)
  from release_uses [OF Cons.prems] obtain c1
    where c1: "release m c = Some c1" "ok c1" "uses c1 = (uses c)(m := uses c m - 1)" "policies c1 = policies c" by blast
  show ?case using Cons.IH [OF c1(2)] by (auto simp: c1)
qed simp

end

interpretation cache: metric_counts cache_ok users cache_ReadPolicy "\<lambda>m. WriteMetric m []" DeleteMetric
proof unfold_locales
  show "WriteMetric [] [] c = Some (Inl InvalidMetricName)" for c by (simp add: WriteMetric_def)
next
  fix c and m :: string assume "cache_ok c" "m \<noteq> []"
  then show "\<exists>c'. WriteMetric m [] c = Some (Inr c') \<and> cache_ok c' \<and> users c' = (users c)(m := users c m + 1) \<and>
      cache_ReadPolicy c' = cache_ReadPolicy c"
    using WriteMetric_nil by blast
next
  fix c and m :: string assume "cache_ok c"
  then show "\<exists>c'. DeleteMetric m c = Some c' \<and> cache_ok c' \<and> users c' = (users c)(m := users c m - 1) \<and>
      cache_ReadPolicy c' = cache_ReadPolicy c"
    using DeleteMetric_unlocked by blast
qed

subsection \<open>The periodic update\<close>

text \<open>What reading a metric gives after one round with the answer of the API.\<close>

definition refreshed :: "(string \<Rightarrow> tas_error + node_metrics) \<Rightarrow> string \<Rightarrow> tas_error + node_metrics \<Rightarrow> tas_error + node_metrics" where
  "refreshed client m old = (case client m of Inl err \<Rightarrow> old | Inr metrics \<Rightarrow> Inr metrics)"

lemma update_entries:
  assumes "\<And>m. client m \<noteq> Inr []"
  shows "\<exists>n'. ofold (updateEntry client) es n = Some n' \<and>
    metricMap n' = (if [] \<in> fst ` set es then AList.delete [] (metricMap n) else metricMap n) \<and>
    (\<forall>m. cache_ReadMetric n' m = (if m \<noteq> [] \<and> m \<in> fst ` set es then refreshed client m (cache_ReadMetric n m) else cache_ReadMetric n m)) \<and>
    cache_ReadPolicy n' = cache_ReadPolicy n"
    (is "\<exists>n'. ofold _ es n = Some n' \<and> ?Q es n n'")
proof (induction es arbitrary: n)
  case (Cons e es)
  obtain name tot where e: "e = (name, tot)" by (cases e)
  have "\<exists>n1. updateEntry client e n = Some n1 \<and> ?Q [e] n n1"
  proof (cases "name = []")
    case True
    let ?n = "n\<lparr>metricMap := AList.delete [] (metricMap n)\<rparr>"
    show ?thesis using True read_same_store [of ?n n] by (simp add: e updateEntry_def)
  next
    case False
    show ?thesis
    proof (cases "client name")
      case (Inl err)
      then show ?thesis using False by (simp add: e updateEntry_def updateMetric_def refreshed_def)
    next
      case (Inr data)
      let ?n = "n\<lparr>stored := add (metricPath name) (nilPayloadCheck data) (stored n)\<rparr>"
      have "data \<noteq> []" using assms Inr by metis
      then show ?thesis using Inr False read_after_metric [of ?n name data n]
        by (simp add: e updateEntry_def updateMetric_def WriteMetric_data refreshed_def)
    qed
  qed
  then obtain n1 where n1: "updateEntry client e n = Some n1" "?Q [e] n n1" by blast
  from Cons.IH [of n1] obtain n' where n': "ofold (updateEntry client) es n1 = Some n'" "?Q es n1 n'" by blast
  have "?Q (e # es) n n'" using n1(2) n'(2) by (auto simp: refreshed_def delete_idem split: sum.splits)
  then show ?case using n1(1) n'(1) by auto
qed simp

lemma updateAllMetrics_round:
  assumes "cache_ok n" "range_order ord" "\<And>m. client m \<noteq> Inr []" "\<And>m data. client m = Inr data \<Longrightarrow> wf_map data"
  shows "\<exists>n'. updateAllMetrics ord client n = Some n' \<and> cache_ok n' \<and>
    metricMap n' = (if [] \<in> fst ` set (metricMap n) then AList.delete [] (metricMap n) else metricMap n) \<and>
    (\<forall>m. cache_ReadMetric n' m = (if m \<noteq> [] \<and> m \<in> fst ` set (metricMap n) then refreshed client m (cache_ReadMetric n m)
           else cache_ReadMetric n m)) \<and>
    cache_ReadPolicy n' = cache_ReadPolicy n"
proof -
  let ?n = "n\<lparr>mtx := True\<rparr>"
  have same: "cache_ReadMetric ?n = cache_ReadMetric n" "cache_ReadPolicy ?n = cache_ReadPolicy n"
    by (rule read_same_store, simp)+
  have metricMap: "metricMap ?n = metricMap n" by simp
  have keys: "fst ` set (ord (metricMap n)) = fst ` set (metricMap n)" using range_order_set [OF assms(2)] by simp
  from update_entries [where client = client and n = ?n and es = "ord (metricMap n)", OF assms(3)] obtain n'
    where f: "ofold (updateEntry client) (ord (metricMap n)) ?n = Some n'" and n':
      "metricMap n' = (if [] \<in> fst ` set (metricMap n) then AList.delete [] (metricMap n) else metricMap n)"
      "\<forall>m. cache_ReadMetric n' m = (if m \<noteq> [] \<and> m \<in> fst ` set (metricMap n) then refreshed client m (cache_ReadMetric n m)
           else cache_ReadMetric n m)" "cache_ReadPolicy n' = cache_ReadPolicy n"
    unfolding keys same metricMap by blast
  have round: "updateAllMetrics ord client n = Some (Unlock n')"
    using assms(1) by (simp add: updateAllMetrics_def Lock_def cache_ok_def f)
  have same': "cache_ReadMetric (Unlock n') = cache_ReadMetric n'" "cache_ReadPolicy (Unlock n') = cache_ReadPolicy n'"
    by (rule read_same_store, simp add: Unlock_def)+
  have rest: "\<not> mtx (Unlock n')" "metricMap (Unlock n') = metricMap n'" by (simp_all add: Unlock_def)
  have "wf_map data" if "cache_ReadMetric n' m = Inr data" for m data
    using that n'(2) [rule_format, of m] assms(1) assms(4) [of m]
    by (auto simp: cache_ok_def reader_ok_def refreshed_def split: if_splits sum.splits)
  then have "cache_ok (Unlock n')" using assms(1) n'(1) by (simp add: cache_ok_def reader_ok_def same' rest)
  then show ?thesis using n' round by (intro exI [of _ "Unlock n'"]) (simp add: same' rest)
qed

text \<open>The answer that a sequence of rounds leaves: the last successful one.\<close>

definition latest :: "(string \<Rightarrow> tas_error + node_metrics) list \<Rightarrow> string \<Rightarrow> tas_error + node_metrics \<Rightarrow> tas_error + node_metrics" where
  "latest clients m old = fold (\<lambda>client. refreshed client m) clients old"

lemma PeriodicUpdate_rounds:
  assumes "range_order ord" "\<And>client m. client \<in> set clients \<Longrightarrow> client m \<noteq> Inr []"
    "\<And>client m data. client \<in> set clients \<Longrightarrow> client m = Inr data \<Longrightarrow> wf_map data" "cache_ok n"
  shows "\<exists>n'. PeriodicUpdate ord clients n = Some n' \<and> cache_ok n' \<and>
    (\<forall>m. m \<noteq> [] \<longrightarrow> users n' m = users n m) \<and>
    (\<forall>m. cache_ReadMetric n' m = (if m \<noteq> [] \<and> m \<in> fst ` set (metricMap n) then latest clients m (cache_ReadMetric n m)
           else cache_ReadMetric n m)) \<and>
    cache_ReadPolicy n' = cache_ReadPolicy n"
  using assms(2-)
proof (induction clients arbitrary: n)
  case Nil
  then show ?case by (simp add: PeriodicUpdate_def latest_def)
next
  case (Cons client clients)
  have ok: "client m \<noteq> Inr []" "client m = Inr data \<Longrightarrow> wf_map data" for m data
    by (rule Cons.prems(1), simp) (rule Cons.prems(2) [of client m], simp_all)
  from updateAllMetrics_round [of n ord client] Cons.prems(3) assms(1) ok obtain n1
    where n1: "updateAllMetrics ord client n = Some n1" "cache_ok n1"
      "metricMap n1 = (if [] \<in> fst ` set (metricMap n) then AList.delete [] (metricMap n) else metricMap n)"
      "\<forall>m. cache_ReadMetric n1 m = (if m \<noteq> [] \<and> m \<in> fst ` set (metricMap n) then refreshed client m (cache_ReadMetric n m)
           else cache_ReadMetric n m)"
      "cache_ReadPolicy n1 = cache_ReadPolicy n" by blast
  have keys: "m \<noteq> [] \<Longrightarrow> m \<in> fst ` set (metricMap n1) \<longleftrightarrow> m \<in> fst ` set (metricMap n)" for m
    by (simp add: n1(3))
  have users: "m \<noteq> [] \<Longrightarrow> users n1 m = users n m" for m by (simp add: n1(3) gm_getd_def)
  from Cons.IH [OF _ _ n1(2)] Cons.prems obtain n'
    where n': "PeriodicUpdate ord clients n1 = Some n'" "cache_ok n'" "\<forall>m. m \<noteq> [] \<longrightarrow> users n' m = users n1 m"
      "\<forall>m. cache_ReadMetric n' m = (if m \<noteq> [] \<and> m \<in> fst ` set (metricMap n1) then latest clients m (cache_ReadMetric n1 m)
           else cache_ReadMetric n1 m)" "cache_ReadPolicy n' = cache_ReadPolicy n1" by (metis list.set_intros(2))
  have "PeriodicUpdate ord (client # clients) n = Some n'" using n1(1) n'(1) by (simp add: PeriodicUpdate_def)
  moreover have "cache_ReadMetric n' m = (if m \<noteq> [] \<and> m \<in> fst ` set (metricMap n)
      then latest (client # clients) m (cache_ReadMetric n m) else cache_ReadMetric n m)" for m
    using n'(4) n1(4) keys [of m] by (cases "m = []") (simp_all add: latest_def)
  ultimately show ?case using n' n1(5) users by auto
qed

lemma GetNodeMetric_answers:
  "GetNodeMetric api m \<noteq> Inr []" "GetNodeMetric api m = Inr data \<Longrightarrow> wf_map data"
  using GetNodeMetric_Inr [of api m] by auto

text \<open>C20: the periodic update never blocks on the mutex that it holds while it writes, and keeps the cache
  current: whatever the custom metrics API answers at each of the ticks, the rounds return; afterwards reading a
  metric that some strategy uses gives the last successful answer of the API (nothing is lost when it fails),
  other metrics, the policies and the counts of uses are as before.\<close>

theorem PeriodicUpdate_keeps_current:
  assumes "cache_ok n" "range_order ord"
  shows "\<exists>n'. PeriodicUpdate ord (map GetNodeMetric apis) n = Some n' \<and> cache_ok n' \<and>
    (\<forall>m. m \<noteq> [] \<longrightarrow> users n' m = users n m) \<and>
    (\<forall>m. cache_ReadMetric n' m =
       (if m \<noteq> [] \<and> m \<in> fst ` set (metricMap n)
        then latest (map GetNodeMetric apis) m (cache_ReadMetric n m) else cache_ReadMetric n m)) \<and>
    cache_ReadPolicy n' = cache_ReadPolicy n"
  using GetNodeMetric_answers assms by (intro PeriodicUpdate_rounds) auto

definition demo_api :: "rat \<Rightarrow> string \<Rightarrow> string + metric_value list" where
  "demo_api v m = (if m = ''power''
     then Inr [\<lparr>DescribedObject_Name = ''n1'', value_Timestamp = 0, WindowSeconds = None, mv_Value = Quantity v\<rparr>]
     else Inl ''not found'')"

definition demo_cache :: tas_cache where
  "demo_cache = NewAutoUpdatingCache\<lparr>metricMap := [(''power'', 1)]\<rparr>"

lemma cache_ok_demo: "cache_ok demo_cache"
  by (simp add: cache_ok_def demo_cache_def NewAutoUpdatingCache_def wf_map_Cons reader_ok_def cache_ReadMetric_def
      read_key_lookup)

lemma PeriodicUpdate_keeps_current_witness:
  "\<exists>n'. PeriodicUpdate id (map GetNodeMetric [demo_api 3, \<lambda>_. Inl ''down'']) demo_cache = Some n' \<and>
     cache_ReadMetric n' ''power'' = Inr [(''n1'', demo_metric 3)]"
  using PeriodicUpdate_keeps_current [OF cache_ok_demo, of id "[demo_api 3, \<lambda>_. Inl ''down'']"]
  by (auto simp: demo_cache_def latest_def refreshed_def GetNodeMetric_def demo_api_def wrapMetrics_def demo_metric_def)

text \<open>Releasing a metric takes one use away; exactly the release of the last use removes the metric's values
  from the cache, every other metric and the policies stay readable.\<close>

theorem DeleteMetric_last_use:
  assumes "cache_ok n"
  shows "\<exists>n'. DeleteMetric m n = Some n' \<and> cache_ok n' \<and> users n' = (users n)(m := users n m - 1) \<and>
    (\<forall>m'. cache_ReadMetric n' m' = (if m' = m \<and> users n m = 1 then Inl (NoMetric m) else cache_ReadMetric n m')) \<and>
    cache_ReadPolicy n' = cache_ReadPolicy n"
  by (rule DeleteMetric_unlocked [OF assms])

lemma DeleteMetric_last_use_witness:
  "\<exists>n'. DeleteMetric ''power'' demo_cache = Some n' \<and> users n' ''power'' = 0"
  using DeleteMetric_last_use [OF cache_ok_demo, of "''power''"] by (auto simp: demo_cache_def)

end
