(* ===== verification/Tas_Registry.thy ===== *)
theory Tas_Registry
  imports Tas_Cache
begin

text \<open>
  What the enforcing strategies share: the registry of the enforcer (\<^verbatim>\<open>strategies/core/enforcer.go\<close>) and
  the JSON patches that they send to the API server. The API server is a parameter: the record
  \<open>kube_client\<close> of the two calls on nodes, over a state of its own.
\<close>

subsection \<open>The registry\<close>

text \<open>The strategies of a type are a set of pointers: a list of separate objects, in no particular order.\<close>

record metric_enforcer =
  RegisteredStrategies :: "(string, strategy list) gomap"

definition NewEnforcer :: metric_enforcer where
  "NewEnforcer = \<lparr>RegisteredStrategies = []\<rparr>"

definition RegisterStrategyType :: "strategy \<Rightarrow> metric_enforcer \<Rightarrow> metric_enforcer" where
  "RegisterStrategyType str e =
     e\<lparr>RegisteredStrategies := AList.update (StrategyType str) [] (RegisteredStrategies e)\<rparr>"

definition IsRegistered :: "string \<Rightarrow> metric_enforcer \<Rightarrow> bool" where
  "IsRegistered str e \<longleftrightarrow> map_of (RegisteredStrategies e) str \<noteq> None"

definition UnregisterStrategyType :: "strategy \<Rightarrow> metric_enforcer \<Rightarrow> metric_enforcer" where
  "UnregisterStrategyType str e =
     e\<lparr>RegisteredStrategies := AList.delete (StrategyType str) (RegisteredStrategies e)\<rparr>"

definition RegisteredStrategyTypes :: "metric_enforcer \<Rightarrow> string list" where
  "RegisteredStrategyTypes e = map fst (RegisteredStrategies e)"

definition strategies_of :: "metric_enforcer \<Rightarrow> string \<Rightarrow> strategy list" where
  "strategies_of e strategyType = gm_getd [] (RegisteredStrategies e) strategyType"

subsection \<open>Patches\<close>

record tas_patchValue =
  Op :: string
  Path :: string
  pv_Value :: string

definition label_root :: string where "label_root = ''/metadata/labels/''"

definition createLabelPatchValue :: "string \<Rightarrow> string \<Rightarrow> string \<Rightarrow> tas_patchValue" where
  "createLabelPatchValue op labelName v = \<lparr>Op = op, Path = label_root @ labelName, pv_Value = v\<rparr>"

record 'k kube_client =
  list_nodes :: "(string, string) gomap \<Rightarrow> 'k \<Rightarrow> string + node list"
  patch_node :: "string \<Rightarrow> tas_patchValue list \<Rightarrow> 'k \<Rightarrow> string option \<times> 'k"

definition patchNode ::
  "'k kube_client \<Rightarrow> string \<Rightarrow> tas_patchValue list \<Rightarrow> 'k \<Rightarrow> tas_error option \<times> 'k" where
  "patchNode kube nodeName payload k =
     (case patch_node kube nodeName payload k of
        (Some err, k) \<Rightarrow> (Some (PatchFailed err), k)
      | (None, k) \<Rightarrow> (None, k))"

text \<open>The labels of a node as the sources read them: those of a nil map are none.\<close>

definition labels_of :: "node \<Rightarrow> (string, string) gomap" where
  "labels_of node = nil_entries (node_labels node)"

subsection \<open>What a patch does\<close>

text \<open>
  JSON patch (RFC 6902) on the labels of a node, the specification that the payloads are judged by: a
  path segment writes \<^verbatim>\<open>/\<close> as \<^verbatim>\<open>~1\<close> and \<^verbatim>\<open>~\<close> as \<^verbatim>\<open>~0\<close>, an operation on a missing member other than
  add makes the whole patch fail.
\<close>

fun unescape :: "string \<Rightarrow> string" where
  "unescape (c # d # s) =
     (if c = CHR ''~'' \<and> d = CHR ''1'' then CHR ''/'' # unescape s
      else if c = CHR ''~'' \<and> d = CHR ''0'' then CHR ''~'' # unescape s
      else c # unescape (d # s))"
| "unescape s = s"

definition patched_label :: "tas_patchValue \<Rightarrow> string" where
  "patched_label p = unescape (drop (length label_root) (Path p))"

definition apply_op :: "tas_patchValue \<Rightarrow> (string, string) gomap \<Rightarrow> (string, string) gomap option" where
  "apply_op p lbls =
     (let l = patched_label p
      in if \<not> prefix label_root (Path p) then None
         else if Op p = ''add'' then Some (AList.update l (pv_Value p) lbls)
         else if map_of lbls l = None then None
         else if Op p = ''replace'' then Some (AList.update l (pv_Value p) lbls)
         else if Op p = ''remove'' then Some (AList.delete l lbls)
         else None)"

definition apply_patch :: "tas_patchValue list \<Rightarrow> (string, string) gomap \<Rightarrow> (string, string) gomap option" where
  "apply_patch payload lbls = ofold apply_op payload lbls"

lemma unescape_plain: "CHR ''~'' \<notin> set s \<Longrightarrow> unescape s = s"
  by (induction s rule: unescape.induct) auto

lemma createLabelPatchValue_simps [simp]:
  "Op (createLabelPatchValue op l v) = op" "pv_Value (createLabelPatchValue op l v) = v"
  "prefix label_root (Path (createLabelPatchValue op l v))"
  "patched_label (createLabelPatchValue op l v) = unescape l"
  by (simp_all add: createLabelPatchValue_def patched_label_def)

lemma ofold_append [simp]: "ofold f (xs @ ys) s = ofold f xs s \<bind> ofold f ys"
  by (induction xs arbitrary: s) (simp_all split: bind_splits)

lemma apply_sets:
  assumes "\<And>p. p \<in> set ps \<Longrightarrow> prefix label_root (Path p) \<and>
      (Op p = ''add'' \<or> Op p = ''replace'' \<and> patched_label p \<in> fst ` set lbls)" "wf_map lbls"
  shows "\<exists>lbls'. apply_patch ps lbls = Some lbls' \<and> wf_map lbls' \<and>
    map_of lbls' = fold (\<lambda>p m. m(patched_label p \<mapsto> pv_Value p)) ps (map_of lbls)"
  using assms
proof (induction ps arbitrary: lbls)
  case (Cons p ps)
  let ?lbls = "AList.update (patched_label p) (pv_Value p) lbls"
  have ps: "\<And>q. q \<in> set ps \<Longrightarrow> prefix label_root (Path q) \<and>
      (Op q = ''add'' \<or> Op q = ''replace'' \<and> patched_label q \<in> fst ` set ?lbls)" "wf_map ?lbls"
    using Cons.prems by auto
  have "apply_op p lbls = Some ?lbls" using Cons.prems(1) [of p] by (auto simp: apply_op_def Let_def map_of_None_keys)
  then show ?case using Cons.IH [OF ps] by (simp add: apply_patch_def)
qed (simp add: apply_patch_def)

lemma apply_removes:
  assumes "\<And>p. p \<in> set ps \<Longrightarrow> prefix label_root (Path p) \<and> Op p = ''remove''"
    "distinct (map patched_label ps)" "patched_label ` set ps \<subseteq> fst ` set lbls" "wf_map lbls"
  shows "\<exists>lbls'. apply_patch ps lbls = Some lbls' \<and> wf_map lbls' \<and>
    (\<forall>l. map_of lbls' l = (if l \<in> patched_label ` set ps then None else map_of lbls l))"
  using assms
proof (induction ps arbitrary: lbls)
  case (Cons p ps)
  let ?lbls = "AList.delete (patched_label p) lbls"
  have ps: "\<And>q. q \<in> set ps \<Longrightarrow> prefix label_root (Path q) \<and> Op q = ''remove''" "distinct (map patched_label ps)"
    "wf_map ?lbls"
    using Cons.prems by auto
  have keys: "patched_label ` set ps \<subseteq> fst ` set ?lbls" using Cons.prems(2,3) by (simp add: subset_Diff_insert)
  have "map_of lbls (patched_label p) \<noteq> None" using Cons.prems(3) by (simp add: map_of_None_keys)
  then have "apply_op p lbls = Some ?lbls" using Cons.prems(1) [of p] by (auto simp: apply_op_def Let_def)
  then show ?case using Cons.IH [OF ps(1,2) keys ps(3)] by (auto simp: apply_patch_def)
qed (simp add: apply_patch_def)

subsection \<open>An API server that applies the patches\<close>

text \<open>
  The documented behaviour of the API server that the enforcement relies on: a JSON patch that applies to
  the labels of a node is accepted and changes the labels of that node only; the list of all nodes
  has every node once with its labels. \<open>labels k n\<close> are the labels of node \<open>n\<close> in the server's state.
\<close>

definition patches_nodes :: "'k kube_client \<Rightarrow> ('k \<Rightarrow> string \<Rightarrow> (string, string) gomap option) \<Rightarrow> bool" where
  "patches_nodes kube labels \<longleftrightarrow>
     (\<forall>n payload k lbls lbls'. labels k n = Some lbls \<longrightarrow> apply_patch payload lbls = Some lbls' \<longrightarrow>
        fst (patch_node kube n payload k) = None \<and>
        labels (snd (patch_node kube n payload k)) = (labels k)(n \<mapsto> lbls'))"

definition lists_nodes ::
  "'k kube_client \<Rightarrow> ('k \<Rightarrow> string \<Rightarrow> (string, string) gomap option) \<Rightarrow> 'k \<Rightarrow> node list \<Rightarrow> bool" where
  "lists_nodes kube labels k nodes \<longleftrightarrow>
     list_nodes kube [] k = Inr nodes \<and> distinct (map node_name nodes) \<and>
     (\<forall>node \<in> set nodes. labels k (node_name node) = Some (labels_of node) \<and> wf_map (labels_of node))"

lemma patchNode_accepted:
  assumes "patches_nodes kube labels" "labels k n = Some lbls" "apply_patch payload lbls = Some lbls'"
  shows "\<exists>k'. patchNode kube n payload k = (None, k') \<and> labels k' = (labels k)(n \<mapsto> lbls')"
  using assms by (cases "patch_node kube n payload k") (force simp: patchNode_def patches_nodes_def)

text \<open>A loop over the nodes that patches each with its own payload.\<close>

lemma patch_loop:
  assumes "\<And>node s lbls. node \<in> set nodes \<Longrightarrow> I s \<Longrightarrow> labels (K s) (node_name node) = Some (labels_of node) \<Longrightarrow>
      apply_patch (P node) (labels_of node) = Some lbls \<Longrightarrow>
      I (F node s) \<and> labels (K (F node s)) = (labels (K s))(node_name node \<mapsto> lbls)"
    and "\<And>node. node \<in> set nodes \<Longrightarrow> labels (K s) (node_name node) = Some (labels_of node) \<and>
      apply_patch (P node) (labels_of node) = Some (result node)"
    and "distinct (map node_name nodes)" "I s"
  shows "I (fold F nodes s) \<and>
    (\<forall>node \<in> set nodes. labels (K (fold F nodes s)) (node_name node) = Some (result node)) \<and>
    (\<forall>n. n \<notin> node_name ` set nodes \<longrightarrow> labels (K (fold F nodes s)) n = labels (K s) n)"
  using assms
proof (induction nodes arbitrary: s)
  case (Cons node nodes)
  have step: "I (F node s)" "labels (K (F node s)) = (labels (K s))(node_name node \<mapsto> result node)"
    using Cons.prems(1) [of node s "result node"] Cons.prems(2) [of node] Cons.prems(4) by (simp_all add: fun_upd_def)
  have nodes: "labels (K (F node s)) (node_name m) = Some (labels_of m) \<and> apply_patch (P m) (labels_of m) = Some (result m)"
    if "m \<in> set nodes" for m
  proof -
    have "node_name m \<noteq> node_name node" using that Cons.prems(3) by simp (metis imageI)
    then show ?thesis using that Cons.prems(2) [of m] by (simp add: step(2))
  qed
  have dist: "distinct (map node_name nodes)" using Cons.prems(3) by simp
  have IH: "I (fold F nodes (F node s))"
    "\<forall>m \<in> set nodes. labels (K (fold F nodes (F node s))) (node_name m) = Some (result m)"
    "\<forall>n. n \<notin> node_name ` set nodes \<longrightarrow> labels (K (fold F nodes (F node s))) n = labels (K (F node s)) n"
    using Cons.IH [OF Cons.prems(1) nodes dist step(1)] by (blast intro: list.set_intros)+
  have "labels (K (fold F nodes (F node s))) (node_name node) = Some (result node)"
    using IH(3) Cons.prems(3) by (simp add: step(2))
  moreover have outside: "labels (K (fold F nodes (F node s))) n = labels (K s) n" if "n \<notin> node_name ` set (node # nodes)" for n
    using IH(3) that by (simp add: step(2))
  ultimately have "labels (K (fold F nodes (F node s))) (node_name m) = Some (result m)" if "m \<in> set (node # nodes)" for m
    using IH(2) that by (cases "m = node") simp_all
  with IH(1) outside show ?case unfolding fold_simps by blast
qed simp

text \<open>A server of this kind, for concrete runs: its state is the labels of its nodes.\<close>

type_synonym cluster = "(string, (string, string) gomap) gomap"

definition demo_node :: "string \<Rightarrow> (string, string) gomap \<Rightarrow> node" where
  "demo_node n lbls = \<lparr>node_name = n, node_labels = Some lbls, node_capacity = [], node_allocatable = []\<rparr>"

definition demo_kube :: "cluster kube_client" where
  "demo_kube =
     \<lparr>list_nodes = (\<lambda>selector k. Inr (map (\<lambda>(n, lbls). demo_node n lbls)
        (filter (\<lambda>(n, lbls). list_all (\<lambda>(l, v). map_of lbls l = Some v) selector) k))),
      patch_node = (\<lambda>n payload k. case map_of k n of
          None \<Rightarrow> (Some ''not found'', k)
        | Some lbls \<Rightarrow> (case apply_patch payload lbls of
              None \<Rightarrow> (Some ''invalid patch'', k)
            | Some lbls \<Rightarrow> (None, AList.update n lbls k)))\<rparr>"

lemma patches_nodes_demo: "patches_nodes demo_kube map_of"
  by (simp add: patches_nodes_def demo_kube_def)

lemma lists_nodes_demo:
  assumes "wf_map k" "\<And>n lbls. (n, lbls) \<in> set k \<Longrightarrow> wf_map lbls"
  shows "lists_nodes demo_kube map_of k (map (\<lambda>(n, lbls). demo_node n lbls) k)"
proof -
  have "map node_name (map (\<lambda>(n, lbls). demo_node n lbls) k) = map fst k"
    by (induction k) (auto simp: demo_node_def)
  then have "distinct (map node_name (map (\<lambda>(n, lbls). demo_node n lbls) k))" using assms(1) by (simp only: wf_map_def)
  moreover have "list_nodes demo_kube [] k = Inr (map (\<lambda>(n, lbls). demo_node n lbls) k)" by (simp add: demo_kube_def)
  moreover have "map_of k n = Some lbls \<and> wf_map lbls" if "(n, lbls) \<in> set k" for n lbls
    using that assms(2) wf_map_lookup [OF assms(1)] by blast
  then have "\<forall>node \<in> set (map (\<lambda>(n, lbls). demo_node n lbls) k). map_of k (node_name node) = Some (labels_of node) \<and> wf_map (labels_of node)"
    by (auto simp: demo_node_def labels_of_def nil_entries_def)
  ultimately show ?thesis unfolding lists_nodes_def by blast
qed

end
