(* ===== verification/Tas_Deschedule.thy ===== *)
theory Tas_Deschedule
  imports Tas_Registry
begin

text \<open>
  Enforcing the deschedule strategy (\<^verbatim>\<open>strategies/deschedule/enforce.go\<close>): every node that violates a
  registered policy gets the label \<^verbatim>\<open><policy>=violating\<close>, every other node loses it. The orders in which
  Go ranges over its maps are parameters.
\<close>

definition defaultPolicyValue :: string where "defaultPolicyValue = ''violating''"

type_synonym violationList = "(string, string list) gomap"

definition deschedule_Cleanup :: "'k kube_client \<Rightarrow> string \<Rightarrow> 'k \<Rightarrow> tas_error option \<times> 'k" where
  "deschedule_Cleanup kube policyName k =
     (case list_nodes kube [(policyName, ''violating'')] k of
        Inl err \<Rightarrow> (Some (ListNodesFailed err), k)
      | Inr nodes \<Rightarrow>
          (None,
           fold (\<lambda>node k.
               let payload = (if map_of (labels_of node) policyName \<noteq> None
                              then [createLabelPatchValue ''remove'' policyName []] else [])
               in snd (patchNode kube (node_name node) payload k))
             nodes k))"

definition allPolicies :: "metric_enforcer \<Rightarrow> (string, unit) gomap" where
  "allPolicies enforcer =
     fold (\<lambda>k policies. AList.update (GetPolicyName k) () policies)
       (strategies_of enforcer deschedule_StrategyType) []"

definition deschedule_appendViolationPatchValue :: "tas_patchValue list \<Rightarrow> string \<Rightarrow> node \<Rightarrow> tas_patchValue list" where
  "deschedule_appendViolationPatchValue payload policyName node =
     (if map_of (labels_of node) policyName \<noteq> Some defaultPolicyValue
      then payload @ [createLabelPatchValue ''add'' policyName defaultPolicyValue]
      else payload)"

text \<open>The body of the loop over the nodes: payload, violated policies and the number added to the total.\<close>

definition deschedule_node_payload ::
  "((string \<times> unit) list \<Rightarrow> (string \<times> unit) list) \<Rightarrow> metric_enforcer \<Rightarrow> string list \<Rightarrow> node \<Rightarrow>
   tas_patchValue list \<times> string \<times> int" where
  "deschedule_node_payload ord enforcer viols node =
     (let (nonViolatedPolicies, payload, violatedPolicies) =
            fold (\<lambda>policyName (nonViolatedPolicies, payload, violatedPolicies).
                (AList.delete policyName nonViolatedPolicies,
                 deschedule_appendViolationPatchValue payload policyName node,
                 violatedPolicies @ policyName @ '', ''))
              viols (allPolicies enforcer, [], []);
          (payload, totalViolations) =
            fold (\<lambda>(policyName, _) (payload, totalViolations).
                (if map_of (labels_of node) policyName \<noteq> None
                 then payload @ [createLabelPatchValue ''remove'' policyName []] else payload,
                 totalViolations + 1))
              (ord nonViolatedPolicies) (payload, 0)
      in (payload, violatedPolicies, totalViolations))"

definition deschedule_updateNodeLabels ::
  "((string \<times> unit) list \<Rightarrow> (string \<times> unit) list) \<Rightarrow> 'k kube_client \<Rightarrow> metric_enforcer \<Rightarrow> violationList \<Rightarrow>
   node list \<Rightarrow> 'k \<Rightarrow> int \<times> tas_error option \<times> 'k" where
  "deschedule_updateNodeLabels ord kube enforcer viols allNodes k =
     (let (totalViolations, labelErrs, k) =
            fold (\<lambda>node (totalViolations, labelErrs, k).
                let (payload, violatedPolicies, n) =
                      deschedule_node_payload ord enforcer (gm_getd [] viols (node_name node)) node;
                    totalViolations = totalViolations + n
                in if length payload \<noteq> 0
                   then (case patchNode kube (node_name node) payload k of
                           (Some err, k) \<Rightarrow>
                             (totalViolations,
                              (if length labelErrs = 0 then ''could not label: '' else labelErrs) @
                                node_name node @ '': [ '' @ violatedPolicies @ '' ]; '', k)
                         | (None, k) \<Rightarrow> (totalViolations, labelErrs, k))
                   else (totalViolations, labelErrs, k))
              allNodes (0, [], k)
      in (totalViolations, if 0 < length labelErrs then Some (LabelingFailed labelErrs) else None, k))"

definition deschedule_nodeStatusForStrategy ::
  "(strategy list \<Rightarrow> strategy list) \<Rightarrow> metric_enforcer \<Rightarrow> tas_reader \<Rightarrow> violationList" where
  "deschedule_nodeStatusForStrategy ord enforcer cache =
     fold (\<lambda>strg violations.
         fold (\<lambda>(node, _) violations. gm_append node [GetPolicyName strg] violations)
           (Violated cache strg) violations)
       (ord (strategies_of enforcer deschedule_StrategyType)) []"

definition deschedule_Enforce ::
  "(strategy list \<Rightarrow> strategy list) \<Rightarrow> ((string \<times> unit) list \<Rightarrow> (string \<times> unit) list) \<Rightarrow> 'k kube_client \<Rightarrow>
   metric_enforcer \<Rightarrow> tas_reader \<Rightarrow> 'k \<Rightarrow> (tas_error + int) \<times> 'k" where
  "deschedule_Enforce ord1 ord2 kube enforcer cache k =
     (case list_nodes kube [] k of
        Inl err \<Rightarrow> (Inl (ListNodesFailed err), k)
      | Inr nodes \<Rightarrow>
          let viols = deschedule_nodeStatusForStrategy ord1 enforcer cache
          in (case deschedule_updateNodeLabels ord2 kube enforcer viols nodes k of
                (numberViolations, Some err, k) \<Rightarrow> (Inl err, k)
              | (numberViolations, None, k) \<Rightarrow> (Inr numberViolations, k)))"

subsection \<open>The payload of a node\<close>

lemma allPolicies_keys:
  "wf_map (allPolicies e)" "fst ` set (allPolicies e) = GetPolicyName ` set (strategies_of e deschedule_StrategyType)"
proof -
  have "wf_map m \<Longrightarrow> wf_map (fold (\<lambda>k policies. AList.update (GetPolicyName k) () policies) xs m) \<and>
      fst ` set (fold (\<lambda>k policies. AList.update (GetPolicyName k) () policies) xs m) = fst ` set m \<union> GetPolicyName ` set xs"
    for xs and m :: "(string, unit) gomap"
    by (induction xs arbitrary: m) auto
  from this [of "[]" "strategies_of e deschedule_StrategyType"]
  show "wf_map (allPolicies e)" "fst ` set (allPolicies e) = GetPolicyName ` set (strategies_of e deschedule_StrategyType)"
    by (simp_all add: allPolicies_def)
qed

lemma violation_loop:
  "fold (\<lambda>policyName (nonViolatedPolicies, payload, violatedPolicies).
       (AList.delete policyName nonViolatedPolicies, deschedule_appendViolationPatchValue payload policyName node,
        violatedPolicies @ policyName @ '', ''))
     viols (m, ps, s) =
   (fold AList.delete viols m,
    ps @ map (\<lambda>p. createLabelPatchValue ''add'' p defaultPolicyValue)
      (filter (\<lambda>p. map_of (labels_of node) p \<noteq> Some defaultPolicyValue) viols),
    s @ concat (map (\<lambda>p. p @ '', '') viols))"
  by (induction viols arbitrary: m ps s) (simp_all add: deschedule_appendViolationPatchValue_def)

lemma removal_loop:
  "fold (\<lambda>(policyName, u) (payload, totalViolations).
       (if Q policyName then payload @ [createLabelPatchValue ''remove'' policyName []] else payload,
        totalViolations + 1)) es (ps, t :: int) =
   (ps @ map (\<lambda>p. createLabelPatchValue ''remove'' p []) (filter Q (map fst es)),
    t + int (length es))"
  by (induction es arbitrary: ps t) auto

lemma deletes_keys:
  "fst ` set (fold AList.delete ks m) = fst ` set m - set ks" "wf_map m \<Longrightarrow> wf_map (fold AList.delete ks m)"
  by (induction ks arbitrary: m) auto

lemma fold_same_value:
  "fold (\<lambda>p m. m(f p \<mapsto> v)) ps m l = (if l \<in> f ` set ps then Some v else m l)"
  by (induction ps arbitrary: m) auto

text \<open>What the labels of a node should be: its registered policies are marked if violated.\<close>

definition marked :: "string set \<Rightarrow> string set \<Rightarrow> (string \<Rightarrow> string option) \<Rightarrow> string \<Rightarrow> string option" where
  "marked registered violated lbls l =
     (if l \<in> registered then if l \<in> violated then Some defaultPolicyValue else None else lbls l)"

lemma deschedule_node_payload_marks:
  assumes "range_order ord" "wf_map (labels_of node)"
    and "set viols \<subseteq> GetPolicyName ` set (strategies_of e deschedule_StrategyType)"
    and "\<And>s. s \<in> set (strategies_of e deschedule_StrategyType) \<Longrightarrow> CHR ''~'' \<notin> set (GetPolicyName s)"
  shows "\<exists>lbls. apply_patch (fst (deschedule_node_payload ord e viols node)) (labels_of node) = Some lbls \<and> wf_map lbls \<and>
    map_of lbls = marked (GetPolicyName ` set (strategies_of e deschedule_StrategyType)) (set viols) (map_of (labels_of node))"
proof -
  let ?names = "GetPolicyName ` set (strategies_of e deschedule_StrategyType)"
  let ?lbls = "labels_of node"
  let ?rest = "ord (fold AList.delete viols (allPolicies e))"
  let ?adds = "map (\<lambda>p. createLabelPatchValue ''add'' p defaultPolicyValue)
      (filter (\<lambda>p. map_of ?lbls p \<noteq> Some defaultPolicyValue) viols)"
  let ?removes = "map (\<lambda>p. createLabelPatchValue ''remove'' p []) (filter (\<lambda>p. map_of ?lbls p \<noteq> None) (map fst ?rest))"
  have payload: "fst (deschedule_node_payload ord e viols node) = ?adds @ ?removes"
    by (simp add: deschedule_node_payload_def violation_loop removal_loop)
  have plain: "unescape p = p" if "p \<in> ?names" for p using that assms(4) by (auto simp: unescape_plain)
  have rest: "set (map fst ?rest) = ?names - set viols"
    using range_order_set [OF assms(1)] by (simp add: deletes_keys allPolicies_keys)
  have "mset (map fst ?rest) = mset (map fst (fold AList.delete viols (allPolicies e)))"
    using range_order_mset [OF assms(1)] by (metis mset_map)
  then have dist: "distinct (map fst ?rest)"
    using deletes_keys(2) [OF allPolicies_keys(1)] by (metis mset_eq_imp_distinct_iff wf_map_def)
  have sets: "prefix label_root (Path p) \<and> (Op p = ''add'' \<or> Op p = ''replace'' \<and> patched_label p \<in> fst ` set ?lbls)"
    if "p \<in> set ?adds" for p using that by auto
  obtain lbls1 where lbls1: "apply_patch ?adds ?lbls = Some lbls1" "wf_map lbls1"
      "map_of lbls1 = fold (\<lambda>p m. m(patched_label p \<mapsto> pv_Value p)) ?adds (map_of ?lbls)"
    using apply_sets [of ?adds ?lbls, OF sets assms(2)] by blast
  have sets_loop: "fold (\<lambda>p m. m(patched_label p \<mapsto> pv_Value p)) (map (\<lambda>p. createLabelPatchValue ''add'' p defaultPolicyValue) ps) m =
      fold (\<lambda>p m. m(unescape p \<mapsto> defaultPolicyValue)) ps m" for ps m
    by (induction ps arbitrary: m) simp_all
  have adds: "map_of lbls1 l = (if l \<in> set viols then Some defaultPolicyValue else map_of ?lbls l)" for l
  proof -
    have "unescape ` set (filter Q viols) = id ` set (filter Q viols)" for Q
      using assms(3) plain by (intro image_cong) auto
    then show ?thesis unfolding lbls1(3) sets_loop fold_same_value by simp
  qed
  have labels: "map patched_label ?removes = filter (\<lambda>p. map_of ?lbls p \<noteq> None) (map fst ?rest)"
    unfolding map_map using rest plain by (intro map_idI) (simp del: set_map)
  have removed: "patched_label ` set ?removes = {l \<in> ?names - set viols. map_of ?lbls l \<noteq> None}"
    using arg_cong [OF labels, of set] unfolding set_map [symmetric] set_filter rest by simp
  have "patched_label ` set ?removes \<subseteq> fst ` set lbls1"
    unfolding removed by (auto simp: map_of_Some_keys adds)
  moreover have "distinct (map patched_label ?removes)" unfolding labels by (rule distinct_filter [OF dist])
  moreover have "prefix label_root (Path p) \<and> Op p = ''remove''" if "p \<in> set ?removes" for p using that by auto
  ultimately obtain lbls2 where lbls2: "apply_patch ?removes lbls1 = Some lbls2" "wf_map lbls2"
      "\<And>l. map_of lbls2 l = (if l \<in> patched_label ` set ?removes then None else map_of lbls1 l)"
    using apply_removes [of ?removes lbls1] lbls1(2) by blast
  have "map_of lbls2 = marked ?names (set viols) (map_of ?lbls)"
    using assms(3) by (auto simp: fun_eq_iff lbls2(3) [unfolded removed] adds marked_def)
  moreover have "apply_patch (?adds @ ?removes) ?lbls = Some lbls2" using lbls1(1) lbls2(1) by (simp add: apply_patch_def)
  ultimately show ?thesis using lbls2(2) by (metis payload)
qed

subsection \<open>The violation list\<close>

lemma violations_of_strategy:
  "wf_map viol \<Longrightarrow> gm_getd [] (fold (\<lambda>(node, u) violations. gm_append node [p] violations) viol violations) n =
     gm_getd [] violations n @ (if map_of viol n = None then [] else [p])"
  by (subst fold_own_key [where P = "\<lambda>violations. gm_getd [] violations n" and g = "\<lambda>u vs. vs @ [p]" and n = n])
    (auto split: option.splits)

lemma nodeStatus_violations:
  assumes "reader_ok cache"
  shows "gm_getd [] (deschedule_nodeStatusForStrategy ord e cache) n =
    map GetPolicyName (filter (\<lambda>s. map_of (Violated cache s) n \<noteq> None) (ord (strategies_of e deschedule_StrategyType)))"
proof -
  have "gm_getd [] (fold (\<lambda>strg violations. fold (\<lambda>(node, u) violations. gm_append node [GetPolicyName strg] violations)
      (Violated cache strg) violations) xs vs) n =
    gm_getd [] vs n @ map GetPolicyName (filter (\<lambda>s. map_of (Violated cache s) n \<noteq> None) xs)" for xs vs
    by (induction xs arbitrary: vs) (simp_all add: violations_of_strategy wf_Violated [OF assms])
  then show ?thesis by (simp add: deschedule_nodeStatusForStrategy_def)
qed

text \<open>The registered policies that a node violates.\<close>

definition violated_policies :: "metric_enforcer \<Rightarrow> tas_reader \<Rightarrow> string \<Rightarrow> string set" where
  "violated_policies e cache n =
     {GetPolicyName s | s. s \<in> set (strategies_of e deschedule_StrategyType) \<and> violates cache n (strategy_data s)}"

definition registered_policies :: "metric_enforcer \<Rightarrow> string set" where
  "registered_policies e = GetPolicyName ` set (strategies_of e deschedule_StrategyType)"

definition deschedule_registry :: "metric_enforcer \<Rightarrow> bool" where
  "deschedule_registry e \<longleftrightarrow>
     (\<forall>s \<in> set (strategies_of e deschedule_StrategyType).
        StrategyType s = deschedule_StrategyType \<and> CHR ''~'' \<notin> set (GetPolicyName s))"

lemma deschedule_typed:
  "StrategyType s = deschedule_StrategyType \<Longrightarrow> \<exists>d. s = Deschedule d"
  by (cases s) (simp_all add: scheduleonmetric_StrategyType_def dontschedule_StrategyType_def
      deschedule_StrategyType_def labeling_StrategyType_def)

lemma nodeStatus_policies:
  assumes "reader_ok cache" "range_order ord" "deschedule_registry e"
  shows "set (gm_getd [] (deschedule_nodeStatusForStrategy ord e cache) n) = violated_policies e cache n"
proof -
  have "map_of (Violated cache s) n \<noteq> None \<longleftrightarrow> violates cache n (strategy_data s)"
    if "s \<in> set (strategies_of e deschedule_StrategyType)" for s
    using that assms(3) deschedule_typed [of s] by (auto simp: deschedule_registry_def Violated_node [OF assms(1)] split: if_splits)
  then show ?thesis using range_order_set [OF assms(2)]
    by (auto simp: nodeStatus_violations [OF assms(1)] violated_policies_def)
qed

lemma node_labels_marked:
  assumes "reader_ok cache" "range_order ord1" "range_order ord2" "deschedule_registry e" "wf_map (labels_of node)"
  shows "\<exists>lbls. apply_patch (fst (deschedule_node_payload ord2 e
      (gm_getd [] (deschedule_nodeStatusForStrategy ord1 e cache) (node_name node)) node)) (labels_of node) = Some lbls \<and>
    wf_map lbls \<and>
    map_of lbls = marked (registered_policies e) (violated_policies e cache (node_name node)) (map_of (labels_of node))"
proof -
  have "set (gm_getd [] (deschedule_nodeStatusForStrategy ord1 e cache) (node_name node)) \<subseteq>
      GetPolicyName ` set (strategies_of e deschedule_StrategyType)"
    unfolding nodeStatus_policies [OF assms(1,2,4)] violated_policies_def by auto
  from deschedule_node_payload_marks [OF assms(3,5) this] assms(4) show ?thesis
    by (simp add: nodeStatus_policies [OF assms(1,2,4)] registered_policies_def deschedule_registry_def)
qed

subsection \<open>A round of enforcement\<close>

lemma deschedule_patches:
  assumes "patches_nodes kube labels" "\<And>node. node \<in> set nodes \<Longrightarrow> labels k (node_name node) = Some (labels_of node) \<and>
      apply_patch (fst (deschedule_node_payload ord e (gm_getd [] viols (node_name node)) node)) (labels_of node) =
        Some (result node)"
    and "distinct (map node_name nodes)"
  shows "\<exists>total k'. deschedule_updateNodeLabels ord kube e viols nodes k = (total, None, k') \<and>
    (\<forall>node \<in> set nodes. labels k' (node_name node) = Some (result node)) \<and>
    (\<forall>n. n \<notin> node_name ` set nodes \<longrightarrow> labels k' n = labels k n)"
proof -
  let ?P = "\<lambda>node. deschedule_node_payload ord e (gm_getd [] viols (node_name node)) node"
  let ?F = "\<lambda>node (totalViolations, labelErrs, k).
      let (payload, violatedPolicies, n) = ?P node; totalViolations = totalViolations + n
      in if length payload \<noteq> 0
         then (case patchNode kube (node_name node) payload k of
             (Some err, k) \<Rightarrow> (totalViolations, (if length labelErrs = 0 then ''could not label: '' else labelErrs) @
               node_name node @ '': [ '' @ violatedPolicies @ '' ]; '', k)
           | (None, k) \<Rightarrow> (totalViolations, labelErrs, k))
         else (totalViolations, labelErrs, k)"
  have step: "(fst (snd (?F node s)) = []) \<and> labels (snd (snd (?F node s))) = (labels (snd (snd s)))(node_name node \<mapsto> lbls)"
    if *: "fst (snd s) = []" "labels (snd (snd s)) (node_name node) = Some (labels_of node)"
      "apply_patch (fst (?P node)) (labels_of node) = Some lbls" for node s lbls
  proof -
    obtain payload violated n where P: "?P node = (payload, violated, n)" by (cases "?P node")
    obtain t errs k0 where s: "s = (t, errs, k0)" by (cases s)
    show ?thesis
    proof (cases "payload = []")
      case True
      then show ?thesis using * by (simp add: P s apply_patch_def fun_upd_idem)
    next
      case False
      then show ?thesis using * patchNode_accepted [OF assms(1), of k0 "node_name node" "labels_of node" payload lbls]
        by (auto simp: P s Let_def)
    qed
  qed
  have "fst (snd (fold ?F nodes (0, [], k))) = [] \<and>
      (\<forall>node \<in> set nodes. labels (snd (snd (fold ?F nodes (0, [], k)))) (node_name node) = Some (result node)) \<and>
      (\<forall>n. n \<notin> node_name ` set nodes \<longrightarrow> labels (snd (snd (fold ?F nodes (0, [], k)))) n = labels k n)"
    using patch_loop [where F = ?F and I = "\<lambda>s. fst (snd s) = []" and K = "\<lambda>s. snd (snd s)" and s = "(0, [], k)" and
        labels = labels and P = "\<lambda>node. fst (?P node)" and nodes = nodes and result = result] step assms(2,3) by simp
  then show ?thesis unfolding deschedule_updateNodeLabels_def Let_def
    by (cases "fold ?F nodes (0, [], k)") (simp add: Let_def)
qed

lemma Enforce_marks:
  assumes "patches_nodes kube labels" "lists_nodes kube labels k nodes" "reader_ok cache"
    and "range_order ord1" "range_order ord2" "deschedule_registry e"
  shows "\<exists>total k'. deschedule_Enforce ord1 ord2 kube e cache k = (Inr total, k') \<and>
    (\<forall>node \<in> set nodes. \<exists>lbls. labels k' (node_name node) = Some lbls \<and>
       map_of lbls = marked (registered_policies e) (violated_policies e cache (node_name node)) (map_of (labels_of node))) \<and>
    (\<forall>n. n \<notin> node_name ` set nodes \<longrightarrow> labels k' n = labels k n)"
proof -
  let ?viols = "deschedule_nodeStatusForStrategy ord1 e cache"
  have wf: "node \<in> set nodes \<Longrightarrow> wf_map (labels_of node)" for node using assms(2) by (simp add: lists_nodes_def)
  have "\<forall>node \<in> set nodes. \<exists>lbls.
      apply_patch (fst (deschedule_node_payload ord2 e (gm_getd [] ?viols (node_name node)) node)) (labels_of node) = Some lbls \<and>
      map_of lbls = marked (registered_policies e) (violated_policies e cache (node_name node)) (map_of (labels_of node))"
    using node_labels_marked [OF assms(3-6) wf] by blast
  from bchoice [OF this] obtain result where result: "\<And>node. node \<in> set nodes \<Longrightarrow>
      apply_patch (fst (deschedule_node_payload ord2 e (gm_getd [] ?viols (node_name node)) node)) (labels_of node) = Some (result node) \<and>
      map_of (result node) = marked (registered_policies e) (violated_policies e cache (node_name node)) (map_of (labels_of node))"
    by blast
  have "\<And>node. node \<in> set nodes \<Longrightarrow> labels k (node_name node) = Some (labels_of node)" "distinct (map node_name nodes)"
    and nodes: "list_nodes kube [] k = Inr nodes" using assms(2) by (simp_all add: lists_nodes_def)
  with deschedule_patches [OF assms(1), of nodes k ord2 e ?viols result] result obtain total k'
    where "deschedule_updateNodeLabels ord2 kube e ?viols nodes k = (total, None, k')"
      "\<forall>node \<in> set nodes. labels k' (node_name node) = Some (result node)"
      "\<forall>n. n \<notin> node_name ` set nodes \<longrightarrow> labels k' n = labels k n" by metis
  then show ?thesis using result by (auto simp: deschedule_Enforce_def nodes Let_def)
qed


definition demo_deschedule :: metric_enforcer where
  "demo_deschedule = \<lparr>RegisteredStrategies =
     [(deschedule_StrategyType, [Deschedule (demo_strategy ''p'' [demo_rule ''GreaterThan'' 50 []])])]\<rparr>"

definition demo_cluster :: cluster where
  "demo_cluster = [(''n1'', [(''zone'', ''a'')]), (''n2'', [(''p'', ''violating'')])]"

lemma demo_cluster_lists:
  "lists_nodes demo_kube map_of demo_cluster (map (\<lambda>(n, lbls). demo_node n lbls) demo_cluster)"
  by (rule lists_nodes_demo) (auto simp: demo_cluster_def wf_map_Cons)

lemma demo_deschedule_registry: "deschedule_registry demo_deschedule"
  by (simp add: deschedule_registry_def demo_deschedule_def strategies_of_def GetPolicyName_def demo_strategy_def)

lemma demo_violated:
  "registered_policies demo_deschedule = {''p''}"
  "violated_policies demo_deschedule demo_reader ''n1'' = {''p''}"
  "violated_policies demo_deschedule demo_reader ''n2'' = {}"
  by (simp_all add: registered_policies_def violated_policies_def demo_deschedule_def strategies_of_def GetPolicyName_def
      demo_strategy_def violates_def violates_rule_def demo_reader_def demo_rule_def demo_metric_def EvaluateRule_def
      cmp_int64_def quantity_cmp_def less_quantity_def)


lemma node_total:
  assumes "range_order ord"
  shows "snd (snd (deschedule_node_payload ord e viols node)) = int (card (registered_policies e - set viols))"
proof -
  let ?rest = "fold AList.delete viols (allPolicies e)"
  have "snd (snd (deschedule_node_payload ord e viols node)) = int (length (ord ?rest))"
    by (simp add: deschedule_node_payload_def violation_loop removal_loop)
  also have "length (ord ?rest) = length (map fst ?rest)"
    using range_order_mset [OF assms] by (metis length_map size_mset)
  also have "\<dots> = card (fst ` set ?rest)"
    using deletes_keys(2) [OF allPolicies_keys(1)] distinct_card [of "map fst ?rest"] by (simp add: wf_map_def)
  finally show ?thesis by (simp add: deletes_keys(1) allPolicies_keys(2) registered_policies_def)
qed

lemma update_total:
  assumes "range_order ord"
  shows "fst (deschedule_updateNodeLabels ord kube e viols nodes k) =
    (\<Sum>node\<leftarrow>nodes. int (card (registered_policies e - set (gm_getd [] viols (node_name node)))))"
proof -
  let ?F = "\<lambda>node (totalViolations, labelErrs, k).
      let (payload, violatedPolicies, n) = deschedule_node_payload ord e (gm_getd [] viols (node_name node)) node;
          totalViolations = totalViolations + n
      in if length payload \<noteq> 0
         then (case patchNode kube (node_name node) payload k of
             (Some err, k) \<Rightarrow> (totalViolations, (if length labelErrs = 0 then ''could not label: '' else labelErrs) @
               node_name node @ '': [ '' @ violatedPolicies @ '' ]; '', k)
           | (None, k) \<Rightarrow> (totalViolations, labelErrs, k))
         else (totalViolations, labelErrs, k)"
  have "fst (?F node (t, errs, k)) = t + int (card (registered_policies e - set (gm_getd [] viols (node_name node))))"
    for node t errs k
    using node_total [OF assms, of e "gm_getd [] viols (node_name node)" node]
    by (cases "deschedule_node_payload ord e (gm_getd [] viols (node_name node)) node")
      (simp add: Let_def split: prod.splits option.splits)
  then have "fst (?F node s) = fst s + int (card (registered_policies e - set (gm_getd [] viols (node_name node))))"
    for node s by (cases s) simp
  then have "fst (fold ?F nodes s) =
      fst s + (\<Sum>node\<leftarrow>nodes. int (card (registered_policies e - set (gm_getd [] viols (node_name node)))))" for s
    by (induction nodes arbitrary: s) (simp_all add: algebra_simps)
  from this [of "(0, [], k)"] show ?thesis
    unfolding deschedule_updateNodeLabels_def by (simp add: split_beta Let_def)
qed

lemma Enforce_total:
  assumes "deschedule_Enforce ord1 ord2 kube e cache k = (Inr number, k')" "list_nodes kube [] k = Inr nodes"
    and "reader_ok cache" "range_order ord1" "range_order ord2" "deschedule_registry e"
  shows "number = (\<Sum>node\<leftarrow>nodes. int (card (registered_policies e - violated_policies e cache (node_name node))))"
  using assms(1,2) update_total [OF assms(5), of kube e "deschedule_nodeStatusForStrategy ord1 e cache" nodes k]
  by (simp add: deschedule_Enforce_def nodeStatus_policies [OF assms(3,4,6)] Let_def split: prod.splits option.splits)

text \<open>The number of violations that Enforce returns is the number of pairs of a node and a registered policy
  that the node does not violate: the counter is increased in the loop over the policies that are not violated.\<close>

theorem deschedule_Enforce_counts_nonviolations:
  assumes "deschedule_Enforce ord1 ord2 kube e cache k = (Inr number, k')" "list_nodes kube [] k = Inr nodes"
    and "reader_ok cache" "range_order ord1" "range_order ord2" "deschedule_registry e"
  shows "number = (\<Sum>node\<leftarrow>nodes. int (card (registered_policies e - violated_policies e cache (node_name node))))"
  by (rule Enforce_total [OF assms])

lemma deschedule_Enforce_counts_nonviolations_witness:
  "fst (deschedule_Enforce id id demo_kube demo_deschedule demo_reader [(''n1'', [])]) = Inr 0"
proof -
  obtain total k' where *: "deschedule_Enforce id id demo_kube demo_deschedule demo_reader [(''n1'', [])] = (Inr total, k')"
    using Enforce_marks [OF patches_nodes_demo lists_nodes_demo, of "[(''n1'', [])]" demo_reader id id demo_deschedule]
      reader_ok_demo demo_deschedule_registry by (auto simp: wf_map_Cons)
  have "list_nodes demo_kube [] [(''n1'', [])] = Inr [demo_node ''n1'' []]" by (simp add: demo_kube_def)
  from deschedule_Enforce_counts_nonviolations [OF * this reader_ok_demo range_order_id range_order_id demo_deschedule_registry]
  show ?thesis by (simp add: * demo_violated demo_node_def)
qed

end
