(* ===== verification/Tas_Labels.thy ===== *)
theory Tas_Labels
  imports Tas_Registry
begin

text \<open>
  Enforcing the labeling strategy (\<^verbatim>\<open>strategies/labeling/enforce.go\<close>): the rules that a node violates name
  labels, written \<^verbatim>\<open>name=value\<close>, that the node gets under the prefix of the policy; other labels under
  the common prefix are removed. The orders in which Go ranges over its maps are parameters.
\<close>

subsection \<open>Strings\<close>

definition labelPrefix :: string where "labelPrefix = ''telemetry.aware.scheduling.''"

definition getPrefix :: "string \<Rightarrow> string" where
  "getPrefix policyName = labelPrefix @ policyName @ ''/''"

text \<open>\<^verbatim>\<open>strings.ReplaceAll(s, "/", "~1")\<close>.\<close>

definition escape :: "string \<Rightarrow> string" where
  "escape s = concat (map (\<lambda>c. if c = CHR ''/'' then ''~1'' else [c]) s)"

lemma unescape_escape: "CHR ''~'' \<notin> set s \<Longrightarrow> unescape (escape s) = s"
proof (induction s)
  case (Cons c s)
  have "unescape (c # t) = c # unescape t" if "c \<noteq> CHR ''~''" for t using that by (cases t) simp_all
  then show ?case using Cons by (auto simp: escape_def)
qed (simp add: escape_def)

subsection \<open>The violated rules of a node\<close>

text \<open>node to policy name to labels, and node to the set of all labels; both prefixed, \<^verbatim>\<open>key=value\<close>.\<close>

type_synonym violationMap = "(string, (string, string list) gomap) gomap"
type_synonym nodeViolations = "(string, (string, bool) gomap) gomap"

definition shouldUpdateRuleThreshold :: "rule_result \<Rightarrow> rule_result \<Rightarrow> bool" where
  "shouldUpdateRuleThreshold result olderRes \<longleftrightarrow>
     (Operator (rr_rule result) = ''GreaterThan'' \<and> 0 < quantity_cmp (rr_quantity result) (rr_quantity olderRes)) \<or>
     (Operator (rr_rule result) = ''LessThan'' \<and> quantity_cmp (rr_quantity result) (rr_quantity olderRes) < 0)"

definition label_name :: "string \<Rightarrow> string" where
  "label_name label = hd (split_on CHR ''='' label)"

text \<open>One round of the inner loop; \<^verbatim>\<open>log.Panic\<close> is \<open>None\<close>.\<close>

definition minMax_step ::
  "rule_result \<times> string \<Rightarrow> (string, rule_result) gomap \<Rightarrow> (string, rule_result) gomap option" where
  "minMax_step rl violatedRules =
     (case rl of (result, label) \<Rightarrow>
        let name = label_name label
        in case map_of violatedRules name of
             None \<Rightarrow> Some (AList.update name result violatedRules)
           | Some olderRes \<Rightarrow>
               if Operator (rr_rule olderRes) \<noteq> Operator (rr_rule result) then None
               else if shouldUpdateRuleThreshold result olderRes
               then Some (AList.update name result violatedRules)
               else Some violatedRules)"

text \<open>The panic is recovered, and the function then returns the nil map.\<close>

definition minMaxFilterViolatedRules :: "rule_result list \<Rightarrow> (string, rule_result) gomap" where
  "minMaxFilterViolatedRules ruleResults =
     (case ofold minMax_step
             (concat (map (\<lambda>result. map (\<lambda>label. (result, label)) (rule_Labels (rr_rule result))) ruleResults)) [] of
        None \<Rightarrow> []
      | Some violatedRules \<Rightarrow> violatedRules)"

text \<open>The body of the inner loop of \<^verbatim>\<open>createLabels\<close>.\<close>

definition createLabel ::
  "string \<Rightarrow> string \<Rightarrow> string \<Rightarrow> violationMap \<times> nodeViolations \<Rightarrow> violationMap \<times> nodeViolations" where
  "createLabel nodeName policyName label state =
     (case state of (violations, allViolatedLabels) \<Rightarrow>
        (AList.update nodeName
           (gm_append policyName [getPrefix policyName @ label] (gm_getd [] violations nodeName)) violations,
         AList.update nodeName
           (AList.update (getPrefix policyName @ label) True (gm_getd [] allViolatedLabels nodeName))
           allViolatedLabels))"

definition createLabels ::
  "((string \<times> rule_result) list \<Rightarrow> (string \<times> rule_result) list) \<Rightarrow> (string, rule_result) gomap \<Rightarrow> string \<Rightarrow> string \<Rightarrow>
   violationMap \<times> nodeViolations \<Rightarrow> violationMap \<times> nodeViolations" where
  "createLabels ord violatedRules nodeName policyName state =
     fold (\<lambda>(_, result) state. fold (createLabel nodeName policyName) (rule_Labels (rr_rule result)) state)
       (ord violatedRules) state"

text \<open>The body of the loop over the nodes that violate a strategy.\<close>

definition status_of_node ::
  "((string \<times> rule_result) list \<Rightarrow> (string \<times> rule_result) list) \<Rightarrow> string \<Rightarrow> string \<times> violation \<Rightarrow>
   violationMap \<times> nodeViolations \<Rightarrow> violationMap \<times> nodeViolations" where
  "status_of_node ord policyName entry state =
     (case (entry, state) of ((nodeName, violationResult), (violations, allViolatedLabels)) \<Rightarrow>
        let violations = (if map_of violations nodeName = None
                          then AList.update nodeName [] violations else violations);
            allViolatedLabels = (if map_of allViolatedLabels nodeName = None
                                 then AList.update nodeName [] allViolatedLabels else allViolatedLabels);
            violatedRules = (case violationResult of
                               RuleResults ruleResults \<Rightarrow> minMaxFilterViolatedRules ruleResults
                             | NoResult \<Rightarrow> [])
        in createLabels ord violatedRules nodeName policyName (violations, allViolatedLabels))"

definition labeling_nodeStatusForStrategy ::
  "(strategy list \<Rightarrow> strategy list) \<Rightarrow> ((string \<times> rule_result) list \<Rightarrow> (string \<times> rule_result) list) \<Rightarrow>
   metric_enforcer \<Rightarrow> tas_reader \<Rightarrow> violationMap \<times> nodeViolations" where
  "labeling_nodeStatusForStrategy ord1 ord2 enforcer cache =
     fold (\<lambda>strategy. fold (status_of_node ord2 (GetPolicyName strategy)) (Violated cache strategy))
       (ord1 (strategies_of enforcer labeling_StrategyType)) ([], [])"

subsection \<open>The patches\<close>

definition labeling_appendViolationPatchValue ::
  "tas_patchValue list \<Rightarrow> string \<Rightarrow> node \<Rightarrow> tas_patchValue list \<times> tas_error option" where
  "labeling_appendViolationPatchValue payload label node =
     (let nameValuePair = split_on CHR ''='' label
      in if length nameValuePair \<noteq> 2 then (payload, Some (InvalidLabel label))
         else
           let labelName = nameValuePair ! 0; labelValue = nameValuePair ! 1;
               op = (if map_of (labels_of node) labelName \<noteq> None then ''replace'' else ''add'')
           in if map_of (labels_of node) labelName \<noteq> Some labelValue
              then (payload @ [createLabelPatchValue op (escape labelName) labelValue], None)
              else (payload, None))"

definition appendNodeLabelCleanups ::
  "((string \<times> string) list \<Rightarrow> (string \<times> string) list) \<Rightarrow> tas_patchValue list \<Rightarrow> (string, bool) gomap \<Rightarrow> node \<Rightarrow>
   tas_patchValue list" where
  "appendNodeLabelCleanups ord payload nodeViolatedLabels node =
     fold (\<lambda>(labelName, labelValue) payload.
         let isViolatedLabel = gm_getd False nodeViolatedLabels (labelName @ ''='' @ labelValue)
         in if prefix labelPrefix labelName \<and> \<not> isViolatedLabel
            then payload @ [createLabelPatchValue ''remove'' (escape labelName) []]
            else payload)
       (ord (labels_of node)) payload"

text \<open>The loop over the violated policies of a node: an error stops it, and the whole update.\<close>

definition labeling_node_policies ::
  "((string \<times> string list) list \<Rightarrow> (string \<times> string list) list) \<Rightarrow> (string, string list) gomap \<Rightarrow> node \<Rightarrow> int \<Rightarrow>
   tas_error + tas_patchValue list \<times> string \<times> int" where
  "labeling_node_policies ord policies node totalViolations =
     efold (\<lambda>(policyName, labels) (payload, violatedPolicies, totalViolations).
         let (payload, errOut) =
               fold (\<lambda>label (payload, errOut). labeling_appendViolationPatchValue payload label node)
                 labels (payload, None)
         in case errOut of
              Some err \<Rightarrow> Inl err
            | None \<Rightarrow> Inr (payload, violatedPolicies @ policyName @ '', '', totalViolations + 1))
       (ord policies) ([], [], totalViolations)"

definition labeling_update_node ::
  "((string \<times> string list) list \<Rightarrow> (string \<times> string list) list) \<Rightarrow>
   ((string \<times> string) list \<Rightarrow> (string \<times> string) list) \<Rightarrow> 'k kube_client \<Rightarrow> violationMap \<Rightarrow> nodeViolations \<Rightarrow>
   node \<Rightarrow> int \<times> string \<times> 'k \<Rightarrow> tas_error \<times> 'k + int \<times> string \<times> 'k" where
  "labeling_update_node ord1 ord2 kube violations allNodesViolatedLabels node state =
     (case state of (totalViolations, labelErrs, k) \<Rightarrow>
        case labeling_node_policies ord1 (gm_getd [] violations (node_name node)) node totalViolations of
          Inl err \<Rightarrow> Inl (err, k)
        | Inr (payload, violatedPolicies, totalViolations) \<Rightarrow>
            let payload = appendNodeLabelCleanups ord2 payload
                            (gm_getd [] allNodesViolatedLabels (node_name node)) node
            in if 0 < length payload
               then (case patchNode kube (node_name node) payload k of
                       (Some err, k) \<Rightarrow>
                         Inr (totalViolations,
                              labelErrs @ node_name node @ '': [ '' @ violatedPolicies @ '' ]; '', k)
                     | (None, k) \<Rightarrow> Inr (totalViolations, labelErrs, k))
               else Inr (totalViolations, labelErrs, k))"

definition labeling_updateNodeLabels ::
  "((string \<times> string list) list \<Rightarrow> (string \<times> string list) list) \<Rightarrow>
   ((string \<times> string) list \<Rightarrow> (string \<times> string) list) \<Rightarrow> 'k kube_client \<Rightarrow> violationMap \<Rightarrow> nodeViolations \<Rightarrow>
   node list \<Rightarrow> 'k \<Rightarrow> (int \<times> tas_error option) \<times> 'k" where
  "labeling_updateNodeLabels ord1 ord2 kube violations allNodesViolatedLabels allNodes k =
     (case efold (labeling_update_node ord1 ord2 kube violations allNodesViolatedLabels) allNodes (0, [], k) of
        Inl (errOut, k) \<Rightarrow> ((-1, Some errOut), k)
      | Inr (totalViolations, labelErrs, k) \<Rightarrow>
          ((totalViolations, if 0 < length labelErrs then Some (LabelingFailed labelErrs) else None), k))"

definition labeling_Enforce ::
  "(strategy list \<Rightarrow> strategy list) \<Rightarrow> ((string \<times> rule_result) list \<Rightarrow> (string \<times> rule_result) list) \<Rightarrow>
   ((string \<times> string list) list \<Rightarrow> (string \<times> string list) list) \<Rightarrow>
   ((string \<times> string) list \<Rightarrow> (string \<times> string) list) \<Rightarrow> 'k kube_client \<Rightarrow> metric_enforcer \<Rightarrow> tas_reader \<Rightarrow> 'k \<Rightarrow>
   (tas_error + int) \<times> 'k" where
  "labeling_Enforce ord1 ord2 ord3 ord4 kube enforcer cache k =
     (case list_nodes kube [] k of
        Inl err \<Rightarrow> (Inl (ListNodesFailed err), k)
      | Inr nodes \<Rightarrow>
          let (violations, allNodeViolatedLabels) = labeling_nodeStatusForStrategy ord1 ord2 enforcer cache
          in (case labeling_updateNodeLabels ord3 ord4 kube violations allNodeViolatedLabels nodes k of
                ((numberViolations, Some err), k) \<Rightarrow> (Inl err, k)
              | ((numberViolations, None), k) \<Rightarrow> (Inr numberViolations, k)))"

text \<open>\<^verbatim>\<open>Cleanup\<close> sends a patch for every label of every node, empty for labels that are not the policy's.\<close>

definition labeling_Cleanup ::
  "((string \<times> string) list \<Rightarrow> (string \<times> string) list) \<Rightarrow> 'k kube_client \<Rightarrow> string \<Rightarrow> 'k \<Rightarrow> tas_error option \<times> 'k" where
  "labeling_Cleanup ord kube policyName k =
     (case list_nodes kube [] k of
        Inl err \<Rightarrow> (Some (ListNodesFailed err), k)
      | Inr nodes \<Rightarrow>
          (None,
           fold (\<lambda>node k.
               fold (\<lambda>(labelName, _) k.
                   let name = escape labelName;
                       payload = (if prefix (getPrefix policyName) labelName
                                  then [createLabelPatchValue ''remove'' name []] else [])
                   in snd (patchNode kube (node_name node) payload k))
                 (ord (labels_of node)) k)
             nodes k))"

subsection \<open>The rule that wins a label\<close>

text \<open>The rules and labels in question, and when two of them conflict.\<close>

definition labeled_results :: "rule_result list \<Rightarrow> (rule_result \<times> string) list" where
  "labeled_results results = concat (map (\<lambda>result. map (\<lambda>label. (result, label)) (rule_Labels (rr_rule result))) results)"

definition conflict :: "(rule_result \<times> string) list \<Rightarrow> bool" where
  "conflict ps \<longleftrightarrow> (\<exists>(r, l) \<in> set ps. \<exists>(r', l') \<in> set ps.
     label_name l = label_name l' \<and> Operator (rr_rule r) \<noteq> Operator (rr_rule r'))"

text \<open>The best result among those with a label of a name: greatest for GreaterThan, least for LessThan.\<close>

definition best :: "(rule_result \<times> string) list \<Rightarrow> string \<Rightarrow> rule_result option \<Rightarrow> bool" where
  "best ps name winner \<longleftrightarrow>
     (case winner of
        None \<Rightarrow> \<forall>(r, l) \<in> set ps. label_name l \<noteq> name
      | Some w \<Rightarrow> (\<exists>l. (w, l) \<in> set ps \<and> label_name l = name) \<and>
          (\<forall>(r, l) \<in> set ps. label_name l = name \<longrightarrow>
             Operator (rr_rule r) = Operator (rr_rule w) \<and>
             (Operator (rr_rule w) = ''GreaterThan'' \<longrightarrow> rr_quantity r \<le> rr_quantity w) \<and>
             (Operator (rr_rule w) = ''LessThan'' \<longrightarrow> rr_quantity w \<le> rr_quantity r)))"

lemma shouldUpdate_iff:
  "shouldUpdateRuleThreshold r w \<longleftrightarrow>
     (Operator (rr_rule r) = ''GreaterThan'' \<and> rr_quantity w < rr_quantity r) \<or>
     (Operator (rr_rule r) = ''LessThan'' \<and> rr_quantity r < rr_quantity w)"
  by (auto simp: shouldUpdateRuleThreshold_def quantity_cmp_def split: if_splits)

lemma best_other: "label_name l \<noteq> name \<Longrightarrow> best (ps @ [(r, l)]) name w \<longleftrightarrow> best ps name w"
  by (auto simp: best_def split: option.splits)

lemma minMax_step_best:
  assumes "\<forall>name. best ps name (map_of m name)"
  shows "case minMax_step (r, l) m of
      None \<Rightarrow> conflict (ps @ [(r, l)])
    | Some m' \<Rightarrow> (\<forall>name. best (ps @ [(r, l)]) name (map_of m' name)) \<and> (conflict (ps @ [(r, l)]) \<longrightarrow> conflict ps)"
proof (cases "map_of m (label_name l)")
  case None
  with spec [OF assms, of "label_name l"] have fresh: "\<forall>(r', l') \<in> set ps. label_name l' \<noteq> label_name l"
    by (simp add: best_def)
  then have "best (ps @ [(r, l)]) (label_name l) (Some r)" by (auto simp: best_def)
  then have "\<forall>name. best (ps @ [(r, l)]) name (map_of (AList.update (label_name l) r m) name)"
    using assms by (simp add: best_other)
  moreover have "conflict (ps @ [(r, l)]) \<longrightarrow> conflict ps" using fresh by (auto simp: conflict_def)
  ultimately show ?thesis using None by (simp add: minMax_step_def)
next
  case (Some w)
  with assms have w: "best ps (label_name l) (Some w)" by metis
  then obtain l0 where l0: "(w, l0) \<in> set ps" "label_name l0 = label_name l" by (auto simp: best_def)
  show ?thesis
  proof (cases "Operator (rr_rule w) = Operator (rr_rule r)")
    case False
    then show ?thesis using Some l0 by (auto simp: minMax_step_def conflict_def intro!: bexI [of _ "(w, l0)"])
  next
    case True
    have old: "Operator (rr_rule r') = Operator (rr_rule w)" if "(r', l') \<in> set ps" "label_name l' = label_name l" for r' l'
      using w that by (auto simp: best_def)
    have "conflict (ps @ [(r, l)]) \<longrightarrow> conflict ps" using True old by (auto simp: conflict_def)
    moreover have winner: "best (ps @ [(r, l)]) (label_name l) (Some (if shouldUpdateRuleThreshold r w then r else w))"
    proof (cases "shouldUpdateRuleThreshold r w")
      case True
      with w \<open>Operator (rr_rule w) = Operator (rr_rule r)\<close> show ?thesis
        by (auto simp: best_def shouldUpdate_iff split_beta)
    next
      case False
      with w True show ?thesis by (auto simp: best_def shouldUpdate_iff not_less)
    qed
    moreover have "\<forall>name. best (ps @ [(r, l)]) name
        (((map_of m)(label_name l \<mapsto> if shouldUpdateRuleThreshold r w then r else w)) name)"
      using assms winner by (cases "shouldUpdateRuleThreshold r w") (simp_all add: best_other)
    ultimately show ?thesis using Some True map_upd_triv [of "map_of m" "label_name l" w, OF Some]
      by (cases "shouldUpdateRuleThreshold r w") (simp_all add: minMax_step_def)
  qed
qed

lemma minMax_best:
  "case ofold minMax_step ps [] of
     None \<Rightarrow> conflict ps
   | Some m \<Rightarrow> (\<forall>name. best ps name (map_of m name)) \<and> \<not> conflict ps"
proof (induction ps rule: rev_induct)
  case Nil
  show ?case by (simp add: best_def conflict_def)
next
  case (snoc p ps)
  have more: "conflict ps \<Longrightarrow> conflict (ps @ [p])" by (auto simp: conflict_def)
  show ?case
  proof (cases "ofold minMax_step ps []")
    case None
    then show ?thesis using snoc more by simp
  next
    case (Some m)
    with snoc have "\<forall>name. best ps name (map_of m name)" "\<not> conflict ps" by simp_all
    then show ?thesis using Some minMax_step_best [of ps m "fst p" "snd p"]
      by (simp split: option.splits)
  qed
qed

lemma minMaxFilter_best:
  "if conflict (labeled_results results) then minMaxFilterViolatedRules results = []
   else \<forall>name. best (labeled_results results) name (map_of (minMaxFilterViolatedRules results) name)"
  using minMax_best [of "labeled_results results"]
  by (auto simp: minMaxFilterViolatedRules_def labeled_results_def split: option.splits)

text \<open>Among the violated rules of a node that carry a label of the same name, the filter keeps the one with the
  most violating value: the greatest for GreaterThan, the least for LessThan; every name has a rule exactly if some
  violated rule has a label of that name. When rules with different operators share a name the filter panics, recovers
  and keeps nothing: the node then gets none of the labels of the policy.\<close>

theorem minMaxFilterViolatedRules_spec:
  "if conflict (labeled_results results) then minMaxFilterViolatedRules results = []
   else \<forall>name. best (labeled_results results) name (map_of (minMaxFilterViolatedRules results) name)"
  by (rule minMaxFilter_best)

subsection \<open>The payload of a node\<close>

definition valid_label :: "string \<Rightarrow> bool" where
  "valid_label label \<longleftrightarrow> length (split_on CHR ''='' label) = 2 \<and> CHR ''~'' \<notin> set label"

lemma valid_label_parts:
  assumes "valid_label label"
  obtains name v where "label = name @ ''='' @ v" "split_on CHR ''='' label = [name, v]" "label_name label = name"
    "CHR ''~'' \<notin> set name"
proof -
  obtain name v where parts: "split_on CHR ''='' label = [name, v]"
    using assms by (auto simp: valid_label_def length_Suc_conv numeral_2_eq_2)
  then have "label = name @ ''='' @ v" using join_split_on [of "CHR ''=''" label] by simp
  with parts that assms show ?thesis by (simp add: label_name_def valid_label_def)
qed

lemma valid_label_split:
  assumes "valid_label (n @ ''='' @ v)"
  shows "split_on CHR ''='' (n @ ''='' @ v) = [n, v]"
proof -
  obtain name w where eq: "n @ ''='' @ v = name @ ''='' @ w" and parts: "split_on CHR ''='' (n @ ''='' @ v) = [name, w]"
    using assms by (rule valid_label_parts)
  from parts have "CHR ''='' \<notin> set name" "CHR ''='' \<notin> set w" by (metis list.set_intros split_on_elem)+
  with arg_cong [OF eq, of "\<lambda>l. count_list l CHR ''=''"] have "count_list n CHR ''='' = 0" "count_list v CHR ''='' = 0"
    by (simp_all add: count_list_0_iff)
  then show ?thesis by (simp add: count_list_0_iff split_on_append split_on_no_sep)
qed

text \<open>The labels \<open>ls\<close> give every name they name its one value: the function \<open>val\<close>.\<close>

definition label_values :: "string set \<Rightarrow> (string \<Rightarrow> string option) \<Rightarrow> bool" where
  "label_values ls val \<longleftrightarrow> (\<forall>name v. val name = Some v \<longleftrightarrow> name @ ''='' @ v \<in> ls)"

text \<open>The patch for one label.\<close>

definition label_patch :: "node \<Rightarrow> string \<Rightarrow> tas_patchValue" where
  "label_patch node label =
     createLabelPatchValue (if map_of (labels_of node) (label_name label) \<noteq> None then ''replace'' else ''add'')
       (escape (label_name label)) (split_on CHR ''='' label ! 1)"

definition to_patch :: "node \<Rightarrow> string \<Rightarrow> bool" where
  "to_patch node label \<longleftrightarrow> map_of (labels_of node) (label_name label) \<noteq> Some (split_on CHR ''='' label ! 1)"

lemma append_valid:
  assumes "valid_label label"
  shows "labeling_appendViolationPatchValue payload label node =
    (payload @ (if to_patch node label then [label_patch node label] else []), None)"
proof -
  have "hd (split_on CHR ''='' label) = split_on CHR ''='' label ! 0" by (simp add: hd_conv_nth)
  then show ?thesis using assms
    by (simp add: labeling_appendViolationPatchValue_def Let_def valid_label_def to_patch_def label_patch_def label_name_def)
qed

lemma append_valids:
  "(\<And>l. l \<in> set ls \<Longrightarrow> valid_label l) \<Longrightarrow>
     fold (\<lambda>label (payload, errOut). labeling_appendViolationPatchValue payload label node) ls (payload, None) =
     (payload @ map (label_patch node) (filter (to_patch node) ls), None)"
  by (induction ls arbitrary: payload) (simp_all add: append_valid)

definition all_labels :: "(string, string list) gomap \<Rightarrow> string set" where
  "all_labels policies = (\<Union>(p, ls) \<in> set policies. set ls)"

definition policy_patches ::
  "((string \<times> string list) list \<Rightarrow> (string \<times> string list) list) \<Rightarrow> (string, string list) gomap \<Rightarrow> node \<Rightarrow> tas_patchValue list" where
  "policy_patches ord policies node =
     map (label_patch node) (filter (to_patch node) (concat (map snd (ord policies))))"

lemma labeling_node_policies_valid:
  assumes "\<And>l. l \<in> all_labels policies \<Longrightarrow> valid_label l" "range_order ord"
  shows "\<exists>violated t'. labeling_node_policies ord policies node t = Inr (policy_patches ord policies node, violated, t')"
proof -
  let ?f = "\<lambda>(policyName, labels) (payload, violatedPolicies, totalViolations).
      let (payload, errOut) = fold (\<lambda>label (payload, errOut). labeling_appendViolationPatchValue payload label node)
            labels (payload, None)
      in case errOut of Some err \<Rightarrow> Inl err
         | None \<Rightarrow> Inr (payload, violatedPolicies @ policyName @ '', '', totalViolations + 1)"
  have "\<exists>violated t'. efold ?f ps (payload, s, t) =
      Inr (payload @ map (label_patch node) (filter (to_patch node) (concat (map snd ps))), violated, t')"
    if "\<And>l. l \<in> all_labels ps \<Longrightarrow> valid_label l" for ps payload s and t :: int
    using that
  proof (induction ps arbitrary: payload s t)
    case (Cons pl ps)
    obtain p ls where pl: "pl = (p, ls)" by (cases pl)
    have "\<And>l. l \<in> set ls \<Longrightarrow> valid_label l" "\<And>l. l \<in> all_labels ps \<Longrightarrow> valid_label l"
      using Cons.prems by (auto simp: pl all_labels_def)
    then show ?case
      using Cons.IH [of "payload @ map (label_patch node) (filter (to_patch node) ls)" "s @ p @ '', ''" "t + 1"]
      by (simp add: pl append_valids)
  qed simp
  moreover have "all_labels (ord policies) = all_labels policies"
    using range_order_set [OF assms(2)] by (simp add: all_labels_def)
  ultimately show ?thesis
    using assms(1) unfolding labeling_node_policies_def policy_patches_def by (metis append_Nil)
qed

lemma ranged_labels: "range_order ord \<Longrightarrow> set (concat (map snd (ord policies))) = all_labels policies"
  using range_order_set [of ord policies] by (auto simp: all_labels_def)

lemma cleanups:
  "appendNodeLabelCleanups ord payload viols node = payload @ map (\<lambda>(l, v). createLabelPatchValue ''remove'' (escape l) [])
     (filter (\<lambda>(l, v). prefix labelPrefix l \<and> \<not> gm_getd False viols (l @ ''='' @ v)) (ord (labels_of node)))"
proof -
  have "fold (\<lambda>(l, v) payload. let isViolatedLabel = gm_getd False viols (l @ ''='' @ v)
      in if prefix labelPrefix l \<and> \<not> isViolatedLabel then payload @ [createLabelPatchValue ''remove'' (escape l) []] else payload)
    es payload = payload @ map (\<lambda>(l, v). createLabelPatchValue ''remove'' (escape l) [])
      (filter (\<lambda>(l, v). prefix labelPrefix l \<and> \<not> gm_getd False viols (l @ ''='' @ v)) es)" for es
  proof (induction es arbitrary: payload)
    case (Cons e es)
    obtain l v where "e = (l, v)" by (cases e)
    then show ?case
      using Cons.IH [of payload] Cons.IH [of "payload @ [createLabelPatchValue ''remove'' (escape l) []]"]
      by (cases "prefix labelPrefix l"; cases "gm_getd False viols (l @ ''='' @ v)") simp_all
  qed simp
  then show ?thesis by (simp add: appendNodeLabelCleanups_def)
qed

lemma fold_values:
  assumes "\<And>p. p \<in> set ps \<Longrightarrow> val (f p) = Some (g p)"
  shows "fold (\<lambda>p m. m(f p \<mapsto> g p)) ps m n = (if n \<in> f ` set ps then val n else m n)"
  using assms by (induction ps arbitrary: m) auto

text \<open>What the labels of a node become: a wanted value is there unless the node had another value before.\<close>

definition relabeled :: "(string \<Rightarrow> string option) \<Rightarrow> (string \<Rightarrow> string option) \<Rightarrow> string \<Rightarrow> string option" where
  "relabeled val lbls name =
     (if prefix labelPrefix name
      then (case val name of
              None \<Rightarrow> None
            | Some v \<Rightarrow> if lbls name = None \<or> lbls name = Some v then Some v else None)
      else lbls name)"

text \<open>The removals of some labels of a node, in any order, after other changes.\<close>

lemma label_removals:
  assumes "range_order ord" "wf_map lbls" "\<And>l. l \<in> fst ` set lbls \<Longrightarrow> CHR ''~'' \<notin> set l"
    and "wf_map lbls1" "\<And>l v. map_of lbls l = Some v \<Longrightarrow> Q l v \<Longrightarrow> map_of lbls1 l \<noteq> None"
  shows "\<exists>lbls'. apply_patch (map (\<lambda>(l, v). createLabelPatchValue ''remove'' (escape l) [])
      (filter (\<lambda>(l, v). Q l v) (ord lbls))) lbls1 = Some lbls' \<and> wf_map lbls' \<and>
    (\<forall>l. map_of lbls' l = (if \<exists>v. map_of lbls l = Some v \<and> Q l v then None else map_of lbls1 l))"
proof -
  let ?es = "filter (\<lambda>(l, v). Q l v) (ord lbls)"
  let ?removes = "map (\<lambda>(l, v). createLabelPatchValue ''remove'' (escape l) []) ?es"
  have set: "set (ord lbls) = set lbls" by (rule range_order_set [OF assms(1)])
  have "unescape (escape l) = l" if "(l, v) \<in> set lbls" for l v
    using assms(3) [of l] that by (force intro: unescape_escape)
  then have keys: "map patched_label ?removes = map fst ?es"
    unfolding map_map by (intro map_cong [OF refl]) (auto simp: set)
  have "distinct (map fst (ord lbls))"
    using range_order_mset [OF assms(1), of lbls] assms(2) by (metis mset_eq_imp_distinct_iff mset_map wf_map_def)
  then have dist: "distinct (map patched_label ?removes)" unfolding keys by (rule distinct_map_filter)
  have removed: "l \<in> patched_label ` set ?removes \<longleftrightarrow> (\<exists>v. map_of lbls l = Some v \<and> Q l v)" for l
  proof -
    have "l \<in> patched_label ` set ?removes \<longleftrightarrow> (\<exists>v. (l, v) \<in> set lbls \<and> Q l v)"
      using arg_cong [OF keys, of set] unfolding set_map [symmetric] by (auto simp: set image_iff)
    then show ?thesis using wf_map_lookup [OF assms(2)] by auto
  qed
  have "patched_label ` set ?removes \<subseteq> fst ` set lbls1"
    using assms(5) by (intro subsetI) (metis removed map_of_None_keys)
  moreover have "prefix label_root (Path q) \<and> Op q = ''remove''" if "q \<in> set ?removes" for q using that by auto
  ultimately show ?thesis using apply_removes [OF _ dist _ assms(4)] unfolding removed by blast
qed

text \<open>Setting the labels of a node that it should have.\<close>

lemma labeling_sets_apply:
  assumes "label_values (set ls) val" "\<And>l. l \<in> set ls \<Longrightarrow> valid_label l" "wf_map (labels_of node)"
  shows "\<exists>lbls. apply_patch (map (label_patch node) (filter (to_patch node) ls)) (labels_of node) = Some lbls \<and> wf_map lbls \<and>
    (\<forall>n. map_of lbls n = (case val n of Some v \<Rightarrow> Some v | None \<Rightarrow> map_of (labels_of node) n))"
proof -
  let ?L = "labels_of node"
  let ?sets = "map (label_patch node) (filter (to_patch node) ls)"
  have wanted: "val (label_name l) = Some (split_on CHR ''='' l ! 1)" "unescape (escape (label_name l)) = label_name l"
    if l: "l \<in> set ls" for l
  proof -
    have "valid_label l" using assms(2) l by blast
    then obtain name v where parts: "l = name @ ''='' @ v" "split_on CHR ''='' l = [name, v]" "label_name l = name"
      "CHR ''~'' \<notin> set name" by (rule valid_label_parts)
    then show "val (label_name l) = Some (split_on CHR ''='' l ! 1)" using assms(1) l by (auto simp: label_values_def)
    show "unescape (escape (label_name l)) = label_name l" using parts by (simp add: unescape_escape)
  qed
  have patched: "patched_label (label_patch node l) = label_name l" "pv_Value (label_patch node l) = split_on CHR ''='' l ! 1"
    if "l \<in> set ls" for l using wanted(2) [OF that] by (simp_all add: label_patch_def)
  have sets: "prefix label_root (Path p) \<and> (Op p = ''add'' \<or> Op p = ''replace'' \<and> patched_label p \<in> fst ` set ?L)"
    if p: "p \<in> set ?sets" for p
  proof -
    obtain l where l: "l \<in> set ls" "p = label_patch node l" using p by auto
    then show ?thesis using patched(1) [OF l(1)] map_of_None_keys [of ?L "label_name l"]
      by (auto simp: label_patch_def split: if_splits)
  qed
  obtain L1 where L1: "apply_patch ?sets ?L = Some L1" "wf_map L1"
      "map_of L1 = fold (\<lambda>p m. m(patched_label p \<mapsto> pv_Value p)) ?sets (map_of ?L)"
    using apply_sets [of ?sets ?L, OF sets assms(3)] by blast
  have "map_of L1 n = (if n \<in> patched_label ` set ?sets then val n else map_of ?L n)" for n
    unfolding L1(3) by (rule fold_values) (use wanted(1) patched in auto)
  moreover have "n \<in> patched_label ` set ?sets \<longleftrightarrow> (\<exists>v. val n = Some v \<and> map_of ?L n \<noteq> Some v)" for n
  proof
    assume "n \<in> patched_label ` set ?sets"
    then show "\<exists>v. val n = Some v \<and> map_of ?L n \<noteq> Some v" using patched(1) wanted(1) by (auto simp: to_patch_def)
  next
    assume "\<exists>v. val n = Some v \<and> map_of ?L n \<noteq> Some v"
    then obtain v where v: "n @ ''='' @ v \<in> set ls" "map_of ?L n \<noteq> Some v" "val n = Some v"
      using assms(1) by (auto simp: label_values_def)
    let ?l = "n @ ''='' @ v"
    have "split_on CHR ''='' ?l = [n, v]" using assms(2) v(1) by (intro valid_label_split) blast
    then have "label_name ?l = n" "split_on CHR ''='' ?l ! 1 = v" by (simp_all add: label_name_def)
    then show "n \<in> patched_label ` set ?sets" using v patched(1) [OF v(1)] by (force simp: to_patch_def)
  qed
  ultimately have "map_of L1 n = (case val n of Some v \<Rightarrow> Some v | None \<Rightarrow> map_of ?L n)" for n
    by (auto split: option.splits)
  then show ?thesis using L1(1,2) by blast
qed


lemma labeling_payload_applies:
  assumes "label_values (set ls) val" "\<And>l. l \<in> set ls \<Longrightarrow> valid_label l \<and> prefix labelPrefix (label_name l)"
    and "\<And>l. gm_getd False viols l \<longleftrightarrow> l \<in> set ls" "range_order ord" "wf_map (labels_of node)"
    and "\<And>l. l \<in> fst ` set (labels_of node) \<Longrightarrow> CHR ''~'' \<notin> set l"
  shows "\<exists>lbls. apply_patch (appendNodeLabelCleanups ord (map (label_patch node) (filter (to_patch node) ls)) viols node)
      (labels_of node) = Some lbls \<and> wf_map lbls \<and> map_of lbls = relabeled val (map_of (labels_of node))"
proof -
  let ?L = "labels_of node"
  let ?Q = "\<lambda>l v. prefix labelPrefix l \<and> \<not> gm_getd False viols (l @ ''='' @ v)"
  have wanted: "valid_label l" if "l \<in> set ls" for l using assms(2) that by blast
  obtain L1 where L1: "apply_patch (map (label_patch node) (filter (to_patch node) ls)) ?L = Some L1" "wf_map L1"
    "\<And>n. map_of L1 n = (case val n of Some v \<Rightarrow> Some v | None \<Rightarrow> map_of ?L n)"
    using labeling_sets_apply [OF assms(1) wanted assms(5)] by blast
  have "map_of L1 l \<noteq> None" if "map_of ?L l = Some v" for l v using that by (simp add: L1(3) split: option.split)
  then obtain L2 where L2: "apply_patch (map (\<lambda>(l, v). createLabelPatchValue ''remove'' (escape l) [])
      (filter (\<lambda>(l, v). ?Q l v) (ord ?L))) L1 = Some L2" "wf_map L2"
    "\<And>l. map_of L2 l = (if \<exists>v. map_of ?L l = Some v \<and> ?Q l v then None else map_of L1 l)"
    using label_removals [OF assms(4-6) L1(2), of ?Q] by blast
  have unprefixed: "val n = None" if "\<not> prefix labelPrefix n" for n
  proof (rule ccontr)
    assume "val n \<noteq> None"
    then obtain v where l: "n @ ''='' @ v \<in> set ls" using assms(1) by (auto simp: label_values_def)
    then have "label_name (n @ ''='' @ v) = n" using assms(2) valid_label_split [of n v] by (simp add: label_name_def)
    then show False using assms(2) [OF l] that by simp
  qed
  have "l @ ''='' @ v \<in> set ls \<longleftrightarrow> val l = Some v" for l v using assms(1) by (auto simp: label_values_def)
  then have "map_of L2 n = relabeled val (map_of ?L) n" for n
    unfolding L2(3) L1(3) relabeled_def assms(3) using unprefixed [of n] by (auto split: option.splits)
  moreover have "apply_patch (appendNodeLabelCleanups ord (map (label_patch node) (filter (to_patch node) ls)) viols node) ?L =
      Some L2" unfolding cleanups using L1(1) L2(1) by (simp add: apply_patch_def)
  ultimately show ?thesis using L2(2) by blast
qed

subsection \<open>The labels that a node should have\<close>

definition rule_labels :: "string \<Rightarrow> (string, rule_result) gomap \<Rightarrow> string set" where
  "rule_labels policyName violatedRules =
     (\<Union>(name, r) \<in> set violatedRules. (@) (getPrefix policyName) ` set (rule_Labels (rr_rule r)))"

text \<open>For every violated policy, the labels of the rules that win a label name.\<close>

definition violated_labels :: "metric_enforcer \<Rightarrow> tas_reader \<Rightarrow> string \<Rightarrow> string set" where
  "violated_labels e cache n =
     (\<Union>s \<in> set (strategies_of e labeling_StrategyType).
        if violates cache n (strategy_data s)
        then rule_labels (GetPolicyName s) (minMaxFilterViolatedRules (node_results cache n (Rules (strategy_data s))))
        else {})"

definition labeling_registry :: "metric_enforcer \<Rightarrow> bool" where
  "labeling_registry e \<longleftrightarrow>
     (\<forall>s \<in> set (strategies_of e labeling_StrategyType). StrategyType s = labeling_StrategyType \<and>
        (\<forall>rule \<in> set (Rules (strategy_data s)). \<forall>l \<in> set (rule_Labels rule). valid_label (getPrefix (GetPolicyName s) @ l)))"

text \<open>The two maps of labels at one node.\<close>

definition labels_at :: "string \<Rightarrow> violationMap \<times> nodeViolations \<Rightarrow> string set \<times> string set" where
  "labels_at n state =
     (all_labels (gm_getd [] (fst state) n), {l. gm_getd False (gm_getd [] (snd state) n) l})"

lemma all_labels_simps: "all_labels [] = {}" "all_labels ((p, ls) # m) = set ls \<union> all_labels m"
  by (simp_all add: all_labels_def)

lemma all_labels_append: "all_labels (gm_append p [l] m) = insert l (all_labels m)"
proof -
  have "all_labels (AList.update p (gm_getd [] m p @ [l]) m) = insert l (all_labels m)"
  proof (induction m)
    case (Cons e m)
    obtain k ls where "e = (k, ls)" by (cases e)
    then show ?case using Cons.IH by (cases "k = p") (simp_all add: all_labels_simps)
  qed (simp add: all_labels_simps)
  then show ?thesis by (simp add: gm_append_def)
qed

lemma createLabels_at:
  assumes "range_order ord"
  shows "labels_at n (createLabels ord violatedRules nodeName p state) =
    (if nodeName = n
     then (fst (labels_at n state) \<union> rule_labels p violatedRules, snd (labels_at n state) \<union> rule_labels p violatedRules)
     else labels_at n state)"
proof -
  have step: "labels_at n (createLabel m p l st) =
      (if m = n then (insert (getPrefix p @ l) (fst (labels_at n st)), insert (getPrefix p @ l) (snd (labels_at n st)))
       else labels_at n st)" for m l st
    by (cases st) (auto simp: createLabel_def labels_at_def all_labels_append)
  have rule: "labels_at n (fold (createLabel m p) ls st) =
      (if m = n then (fst (labels_at n st) \<union> (@) (getPrefix p) ` set ls, snd (labels_at n st) \<union> (@) (getPrefix p) ` set ls)
       else labels_at n st)" for m ls st
    by (induction ls arbitrary: st) (simp_all add: step)
  have "labels_at n (fold (\<lambda>(u, result) st. fold (createLabel nodeName p) (rule_Labels (rr_rule result)) st) rs st) =
      (if nodeName = n then (fst (labels_at n st) \<union> rule_labels p rs, snd (labels_at n st) \<union> rule_labels p rs)
       else labels_at n st)" for rs st
  proof (induction rs arbitrary: st)
    case Nil
    show ?case by (simp add: rule_labels_def)
  next
    case (Cons r rs)
    obtain u result where "r = (u, result)" by (cases r)
    then show ?case using Cons.IH [of "fold (createLabel nodeName p) (rule_Labels (rr_rule result)) st"] rule [of _ "rule_Labels (rr_rule result)" st]
      by (simp add: rule_labels_def Un_assoc)
  qed
  moreover have "rule_labels p (ord violatedRules) = rule_labels p violatedRules"
    using range_order_set [OF assms] by (simp add: rule_labels_def)
  ultimately show ?thesis by (simp add: createLabels_def)
qed

lemma labeling_typed: "StrategyType s = labeling_StrategyType \<Longrightarrow> \<exists>d. s = Labeling d"
  by (cases s) (simp_all add: scheduleonmetric_StrategyType_def dontschedule_StrategyType_def
      deschedule_StrategyType_def labeling_StrategyType_def)

text \<open>The labels of one violated strategy, from the value that \<^verbatim>\<open>Violated\<close> returns for a node.\<close>

definition violation_labels :: "string \<Rightarrow> violation \<Rightarrow> string set" where
  "violation_labels p v =
     rule_labels p (case v of RuleResults results \<Rightarrow> minMaxFilterViolatedRules results | NoResult \<Rightarrow> [])"

lemma nodeStatus_at:
  assumes "reader_ok cache" "range_order ord1" "range_order ord2" "labeling_registry e"
  shows "labels_at n (labeling_nodeStatusForStrategy ord1 ord2 e cache) =
    (violated_labels e cache n, violated_labels e cache n)"
proof -
  let ?X = "\<lambda>s. case map_of (Violated cache s) n of None \<Rightarrow> {} | Some v \<Rightarrow> violation_labels (GetPolicyName s) v"
  have init: "labels_at n (if map_of viol k = None then AList.update k [] viol else viol,
      if map_of all k = None then AList.update k [] all else all) = labels_at n (viol, all)" for viol all k
    by (simp add: labels_at_def gm_getd_def)
  have node: "labels_at n (status_of_node ord2 p (m, v) st) =
      (if m = n then (fst (labels_at n st) \<union> violation_labels p v, snd (labels_at n st) \<union> violation_labels p v)
       else labels_at n st)" for p m v st
    by (cases st) (simp only: status_of_node_def Let_def prod.case createLabels_at [OF assms(3)] init violation_labels_def)
  have strategy: "labels_at n (fold (status_of_node ord2 (GetPolicyName s)) (Violated cache s) st) =
      (fst (labels_at n st) \<union> ?X s, snd (labels_at n st) \<union> ?X s)" for s st
    by (subst fold_own_key [OF wf_Violated [OF assms(1)], where P = "labels_at n" and n = n and
          g = "\<lambda>v P. (fst P \<union> violation_labels (GetPolicyName s) v, snd P \<union> violation_labels (GetPolicyName s) v)"])
      (simp_all add: node split: option.splits)
  have all: "labels_at n (fold (\<lambda>s. fold (status_of_node ord2 (GetPolicyName s)) (Violated cache s)) ss st) =
      (fst (labels_at n st) \<union> (\<Union>s \<in> set ss. ?X s), snd (labels_at n st) \<union> (\<Union>s \<in> set ss. ?X s))" for ss st
  proof (induction ss arbitrary: st)
    case (Cons s ss)
    show ?case unfolding fold_Cons comp_def Cons.IH strategy by (simp add: Un_assoc)
  qed simp
  have X: "?X s = (if violates cache n (strategy_data s)
      then rule_labels (GetPolicyName s) (minMaxFilterViolatedRules (node_results cache n (Rules (strategy_data s)))) else {})"
    if "s \<in> set (strategies_of e labeling_StrategyType)" for s
    using that assms(4) labeling_typed [of s]
    by (auto simp: labeling_registry_def Violated_node [OF assms(1)] violation_labels_def)
  show ?thesis
    unfolding labeling_nodeStatusForStrategy_def all range_order_set [OF assms(2)] violated_labels_def
    by (simp add: X labels_at_def all_labels_simps cong: SUP_cong)
qed

lemma split_prefix: "c \<notin> set x \<Longrightarrow> hd (split_on c (x @ s)) = x @ hd (split_on c s)"
  by (induction x) (auto split: list.splits simp: split_on_not_Nil)

lemma name_of_prefixed: "prefix labelPrefix (label_name (getPrefix p @ l))"
proof -
  have "CHR ''='' \<notin> set labelPrefix" by (simp add: labelPrefix_def)
  from split_prefix [OF this, of "p @ ''/'' @ l"] show ?thesis by (simp add: label_name_def getPrefix_def)
qed

lemma minMax_subset: "snd ` set (minMaxFilterViolatedRules results) \<subseteq> set results"
proof -
  let ?I = "\<lambda>m. snd ` set m \<subseteq> set results"
  have update: "snd ` set (AList.update k v m) \<subseteq> insert v (snd ` set m)" for k v and m :: "(string, rule_result) gomap"
    by (induction m) auto
  have "?I m" if "ofold minMax_step (labeled_results results) [] = Some m" for m
    using that
  proof (rule ofold_invariant)
    fix x s s' assume "x \<in> set (labeled_results results)" "?I s" "minMax_step x s = Some s'"
    then have x: "fst x \<in> set results" and I: "?I s" and s': "s' = s \<or> s' = AList.update (label_name (snd x)) (fst x) s"
      by (auto simp: labeled_results_def minMax_step_def Let_def split: option.splits if_splits)
    have "?I (AList.update (label_name (snd x)) (fst x) s)"
      using subset_trans [OF update, of "fst x" s "set results" "label_name (snd x)"] x I by blast
    with s' I show "?I s'" by metis
  qed simp
  then show ?thesis
    by (cases "ofold minMax_step (labeled_results results) []") (auto simp: minMaxFilterViolatedRules_def labeled_results_def)
qed

lemma violated_labels_valid:
  assumes "labeling_registry e" "l \<in> violated_labels e cache n"
  shows "valid_label l \<and> prefix labelPrefix (label_name l)"
proof -
  obtain s name r l0 where s: "s \<in> set (strategies_of e labeling_StrategyType)"
    "(name, r) \<in> set (minMaxFilterViolatedRules (node_results cache n (Rules (strategy_data s))))"
    "l0 \<in> set (rule_Labels (rr_rule r))" "l = getPrefix (GetPolicyName s) @ l0"
    using assms(2) by (auto simp: violated_labels_def rule_labels_def split: if_splits)
  have "r \<in> set (node_results cache n (Rules (strategy_data s)))" using minMax_subset s(2) by force
  then have "rr_rule r \<in> set (map rr_rule (node_results cache n (Rules (strategy_data s))))" by simp
  then have "rr_rule r \<in> set (Rules (strategy_data s))" by (simp add: node_results_rules)
  then show ?thesis using assms(1) s(1,3,4) by (auto simp: labeling_registry_def name_of_prefixed)
qed

subsection \<open>A round of enforcement\<close>

lemma efold_fold:
  "fold (\<lambda>x st. case st of Inl err \<Rightarrow> Inl err | Inr s \<Rightarrow> f x s) xs st =
     (case st of Inl err \<Rightarrow> Inl err | Inr s \<Rightarrow> efold f xs s)"
  by (induction xs arbitrary: st) (auto split: sum.splits)

lemma labeling_node_labels:
  assumes "reader_ok cache" "range_order ord1" "range_order ord2" "range_order ord3" "range_order ord4"
    and "labeling_registry e" "label_values (violated_labels e cache (node_name node)) val" "wf_map (labels_of node)"
    and "\<And>l. l \<in> fst ` set (labels_of node) \<Longrightarrow> CHR ''~'' \<notin> set l"
    and "labeling_nodeStatusForStrategy ord1 ord2 e cache = (violations, allViolatedLabels)"
  shows "(\<exists>violated t'. labeling_node_policies ord3 (gm_getd [] violations (node_name node)) node t =
      Inr (policy_patches ord3 (gm_getd [] violations (node_name node)) node, violated, t'))"
    and "\<exists>lbls. apply_patch (appendNodeLabelCleanups ord4 (policy_patches ord3 (gm_getd [] violations (node_name node)) node)
      (gm_getd [] allViolatedLabels (node_name node)) node) (labels_of node) = Some lbls \<and>
      map_of lbls = relabeled val (map_of (labels_of node))"
proof -
  let ?n = "node_name node"
  from nodeStatus_at [OF assms(1-3,6), of ?n] have at: "all_labels (gm_getd [] violations ?n) = violated_labels e cache ?n"
    "gm_getd False (gm_getd [] allViolatedLabels ?n) l \<longleftrightarrow> l \<in> violated_labels e cache ?n" for l
    by (auto simp: labels_at_def assms(10))
  have valid: "valid_label l \<and> prefix labelPrefix (label_name l)" if "l \<in> violated_labels e cache ?n" for l
    by (rule violated_labels_valid [OF assms(6) that])
  then show "\<exists>violated t'. labeling_node_policies ord3 (gm_getd [] violations ?n) node t =
      Inr (policy_patches ord3 (gm_getd [] violations ?n) node, violated, t')"
    using labeling_node_policies_valid [of "gm_getd [] violations ?n" ord3 node t] assms(4) by (simp add: at(1))
  let ?ls = "concat (map snd (ord3 (gm_getd [] violations ?n)))"
  have ls: "set ?ls = violated_labels e cache ?n" unfolding ranged_labels [OF assms(4)] at(1) ..
  have "label_values (set ?ls) val" "\<And>l. l \<in> set ?ls \<Longrightarrow> valid_label l \<and> prefix labelPrefix (label_name l)"
    "\<And>l. gm_getd False (gm_getd [] allViolatedLabels ?n) l \<longleftrightarrow> l \<in> set ?ls"
    unfolding ls using assms(7) valid at(2) by simp_all
  from labeling_payload_applies [OF this assms(5,8,9)]
  show "\<exists>lbls. apply_patch (appendNodeLabelCleanups ord4 (policy_patches ord3 (gm_getd [] violations ?n) node)
      (gm_getd [] allViolatedLabels ?n) node) (labels_of node) = Some lbls \<and>
      map_of lbls = relabeled val (map_of (labels_of node))" unfolding policy_patches_def by blast
qed

lemma labeling_update_node_step:
  assumes "patches_nodes kube labels" "labels k (node_name node) = Some (labels_of node)"
    and "labeling_node_policies ord3 (gm_getd [] violations (node_name node)) node t = Inr (payload, violated, t')"
    and "apply_patch (appendNodeLabelCleanups ord4 payload (gm_getd [] allViolated (node_name node)) node) (labels_of node) = Some lbls"
  shows "\<exists>k'. labeling_update_node ord3 ord4 kube violations allViolated node (t, [], k) = Inr (t', [], k') \<and>
    labels k' = (labels k)(node_name node \<mapsto> lbls)"
proof (cases "appendNodeLabelCleanups ord4 payload (gm_getd [] allViolated (node_name node)) node = []")
  case True
  then show ?thesis using assms(2-4) by (simp add: labeling_update_node_def apply_patch_def fun_upd_idem)
next
  case False
  then show ?thesis using patchNode_accepted [OF assms(1,2,4)] assms(3) by (auto simp: labeling_update_node_def)
qed

lemma labeling_Enforce_relabels:
  assumes "patches_nodes kube labels" "lists_nodes kube labels k nodes" "reader_ok cache"
    and ord: "range_order ord1" "range_order ord2" "range_order ord3" "range_order ord4"
    and "labeling_registry e"
    and "\<And>node. node \<in> set nodes \<Longrightarrow> label_values (violated_labels e cache (node_name node)) (val (node_name node))"
    and "\<And>node l. node \<in> set nodes \<Longrightarrow> l \<in> fst ` set (labels_of node) \<Longrightarrow> CHR ''~'' \<notin> set l"
  shows "\<exists>number k'. labeling_Enforce ord1 ord2 ord3 ord4 kube e cache k = (Inr number, k') \<and>
    (\<forall>node \<in> set nodes. \<exists>lbls. labels k' (node_name node) = Some lbls \<and>
       map_of lbls = relabeled (val (node_name node)) (map_of (labels_of node))) \<and>
    (\<forall>n. n \<notin> node_name ` set nodes \<longrightarrow> labels k' n = labels k n)"
proof -
  obtain violations allViolated where status: "labeling_nodeStatusForStrategy ord1 ord2 e cache = (violations, allViolated)"
    by fastforce
  let ?patches = "\<lambda>node. policy_patches ord3 (gm_getd [] violations (node_name node)) node"
  let ?P = "\<lambda>node. appendNodeLabelCleanups ord4 (?patches node) (gm_getd [] allViolated (node_name node)) node"
  let ?f = "labeling_update_node ord3 ord4 kube violations allViolated"
  define F where "F node st = (case st of Inl err \<Rightarrow> Inl err | Inr s \<Rightarrow> ?f node s)" for node st
  define K :: "tas_error \<times> 'a + int \<times> string \<times> 'a \<Rightarrow> 'a"
    where "K st = (case st of Inl (err, k) \<Rightarrow> k | Inr (t, errs, k) \<Rightarrow> k)" for st
  define I :: "tas_error \<times> 'a + int \<times> string \<times> 'a \<Rightarrow> bool" where "I st \<longleftrightarrow> (\<exists>t k. st = Inr (t, [], k))" for st
  have nodes: "list_nodes kube [] k = Inr nodes" "distinct (map node_name nodes)"
    "\<And>node. node \<in> set nodes \<Longrightarrow> labels k (node_name node) = Some (labels_of node) \<and> wf_map (labels_of node)"
    using assms(2) by (simp_all add: lists_nodes_def)
  have policies: "\<exists>violated t'. labeling_node_policies ord3 (gm_getd [] violations (node_name node)) node t =
      Inr (?patches node, violated, t')"
    and patch: "\<exists>lbls. apply_patch (?P node) (labels_of node) = Some lbls \<and>
      map_of lbls = relabeled (val (node_name node)) (map_of (labels_of node))" if "node \<in> set nodes" for node t
    using labeling_node_labels [OF assms(3) ord assms(8) assms(9) [OF that] _ _ status] nodes(3) [OF that] assms(10) [OF that]
    by blast+
  from patch have "\<forall>node \<in> set nodes. \<exists>lbls. apply_patch (?P node) (labels_of node) = Some lbls \<and>
      map_of lbls = relabeled (val (node_name node)) (map_of (labels_of node))" by blast
  from bchoice [OF this] obtain result where result: "\<And>node. node \<in> set nodes \<Longrightarrow>
      apply_patch (?P node) (labels_of node) = Some (result node) \<and>
      map_of (result node) = relabeled (val (node_name node)) (map_of (labels_of node))" by blast
  have step: "I (F node st) \<and> labels (K (F node st)) = (labels (K st))(node_name node \<mapsto> lbls)"
    if *: "node \<in> set nodes" "I st" "labels (K st) (node_name node) = Some (labels_of node)"
      "apply_patch (?P node) (labels_of node) = Some lbls" for node st lbls
  proof -
    obtain t k0 where st: "st = Inr (t, [], k0)" using *(2) by (auto simp: I_def)
    obtain violated t' where "labeling_node_policies ord3 (gm_getd [] violations (node_name node)) node t =
        Inr (?patches node, violated, t')" using policies [OF *(1)] by blast
    from labeling_update_node_step [OF assms(1) _ this *(4), of k0] *(3) obtain k'
      where "?f node (t, [], k0) = Inr (t', [], k')" "labels k' = (labels k0)(node_name node \<mapsto> lbls)"
      by (auto simp: st K_def)
    then show ?thesis by (simp add: st F_def K_def I_def)
  qed
  have init: "I (Inr (0, [], k))" "K (Inr (0, [], k)) = k" by (simp_all add: I_def K_def)
  have before: "labels (K (Inr (0, [], k))) (node_name node) = Some (labels_of node) \<and>
      apply_patch (?P node) (labels_of node) = Some (result node)" if "node \<in> set nodes" for node
    unfolding init using nodes(3) [OF that] result [OF that] by blast
  from patch_loop [where P = ?P and F = F and I = I and K = K and labels = labels, OF step before nodes(2) init(1)]
  have after: "I (fold F nodes (Inr (0, [], k)))"
    "\<forall>node \<in> set nodes. labels (K (fold F nodes (Inr (0, [], k)))) (node_name node) = Some (result node)"
    "\<forall>n. n \<notin> node_name ` set nodes \<longrightarrow> labels (K (fold F nodes (Inr (0, [], k)))) n = labels k n"
    unfolding init by blast+
  then obtain number k' where "fold F nodes (Inr (0, [], k)) = Inr (number, [], k')" by (auto simp: I_def)
  with after have k': "efold ?f nodes (0, [], k) = Inr (number, [], k')"
    "\<forall>node \<in> set nodes. labels k' (node_name node) = Some (result node)"
    "\<forall>n. n \<notin> node_name ` set nodes \<longrightarrow> labels k' n = labels k n"
    using efold_fold [of ?f nodes "Inr (0, [], k)"] by (simp_all add: K_def F_def [abs_def])
  have "labeling_Enforce ord1 ord2 ord3 ord4 kube e cache k = (Inr number, k')"
    by (simp add: labeling_Enforce_def nodes(1) status labeling_updateNodeLabels_def k'(1))
  then show ?thesis using k'(2,3) result by blast
qed


lemma label_values_single:
  assumes "valid_label (n @ ''='' @ v)"
  shows "label_values {n @ ''='' @ v} (\<lambda>m. if m = n then Some v else None)"
proof -
  have "m = n \<and> w = v" if "m @ ''='' @ w = n @ ''='' @ v" for m w
  proof -
    have "valid_label (m @ ''='' @ w)" unfolding that by (rule assms)
    from valid_label_split [OF this] valid_label_split [OF assms] show ?thesis unfolding that by simp
  qed
  then show ?thesis by (auto simp: label_values_def)
qed

definition demo_labeling :: metric_enforcer where
  "demo_labeling = \<lparr>RegisteredStrategies =
     [(labeling_StrategyType, [Labeling (demo_strategy ''p'' [demo_rule ''GreaterThan'' 50 [''foo=1'']])])]\<rparr>"

definition demo_labels :: cluster where
  "demo_labels = [(''n1'', [(''zone'', ''a'')]),
     (''n2'', [(''telemetry.aware.scheduling.p/foo'', ''1''), (''zone'', ''b'')])]"

lemma demo_labels_lists:
  "lists_nodes demo_kube map_of demo_labels (map (\<lambda>(n, lbls). demo_node n lbls) demo_labels)"
  by (rule lists_nodes_demo) (auto simp: demo_labels_def wf_map_Cons)

lemma demo_violations:
  "violates demo_reader ''n1'' (demo_strategy ''p'' [demo_rule ''GreaterThan'' 50 ls])"
  "\<not> violates demo_reader ''n2'' (demo_strategy ''p'' [demo_rule ''GreaterThan'' 50 ls])"
  "node_results demo_reader ''n1'' [demo_rule ''GreaterThan'' 50 ls] =
     [\<lparr>rr_rule = demo_rule ''GreaterThan'' 50 ls, rr_quantity = Quantity 80\<rparr>]"
  by (simp_all add: demo_strategy_def violates_def violates_rule_def node_results_def demo_reader_def demo_rule_def
      demo_metric_def EvaluateRule_def cmp_int64_def quantity_cmp_def less_quantity_def)

lemma demo_labeling_registry: "labeling_registry demo_labeling"
  by (simp add: labeling_registry_def demo_labeling_def strategies_of_def demo_strategy_def demo_rule_def valid_label_def
      getPrefix_def labelPrefix_def GetPolicyName_def)

lemma demo_violated_labels:
  "violated_labels demo_labeling demo_reader ''n1'' = {''telemetry.aware.scheduling.p/foo'' @ ''='' @ ''1''}"
  "violated_labels demo_labeling demo_reader ''n2'' = {}"
proof -
  have "minMaxFilterViolatedRules [\<lparr>rr_rule = demo_rule ''GreaterThan'' 50 [''foo=1''], rr_quantity = Quantity 80\<rparr>] =
      [(''foo'', \<lparr>rr_rule = demo_rule ''GreaterThan'' 50 [''foo=1''], rr_quantity = Quantity 80\<rparr>)]"
    by (simp add: minMaxFilterViolatedRules_def minMax_step_def label_name_def demo_rule_def)
  then show "violated_labels demo_labeling demo_reader ''n1'' = {''telemetry.aware.scheduling.p/foo'' @ ''='' @ ''1''}"
    "violated_labels demo_labeling demo_reader ''n2'' = {}"
    using demo_violations [of "[''foo=1'']"]
    by (simp_all add: violated_labels_def demo_labeling_def strategies_of_def rule_labels_def GetPolicyName_def)
      (simp_all add: demo_strategy_def demo_rule_def getPrefix_def labelPrefix_def)
qed


end
