(* ===== verification/Tas_Enforcer.thy ===== *)
theory Tas_Enforcer
  imports Tas_Deschedule Tas_Labels
begin

text \<open>
  The enforcer (\<^verbatim>\<open>strategies/core/enforcer.go\<close>): adding a strategy to the registry, removing it
  and cleaning up after it, and enforcing what is registered. Comparing labeling strategies can panic:
  the operations then are \<open>None\<close>.
\<close>

text \<open>The orders in which Go ranges over the maps of the enforcing code.\<close>

record go_orders =
  by_strategy :: "strategy list \<Rightarrow> strategy list"
  by_policy :: "(string \<times> unit) list \<Rightarrow> (string \<times> unit) list"
  by_result :: "(string \<times> rule_result) list \<Rightarrow> (string \<times> rule_result) list"
  by_labels :: "(string \<times> string list) list \<Rightarrow> (string \<times> string list) list"
  by_label :: "(string \<times> string) list \<Rightarrow> (string \<times> string) list"
  by_type :: "string list \<Rightarrow> string list"

subsection \<open>Enforceable strategies\<close>

text \<open>The strategy types with methods \<^verbatim>\<open>Enforce\<close> and \<^verbatim>\<open>Cleanup\<close>, and the dispatch on them.\<close>

fun Enforceable :: "strategy \<Rightarrow> bool" where
  "Enforceable (Deschedule d) = True"
| "Enforceable (Labeling d) = True"
| "Enforceable _ = False"

definition Enforce ::
  "go_orders \<Rightarrow> 'k kube_client \<Rightarrow> metric_enforcer \<Rightarrow> tas_reader \<Rightarrow> strategy \<Rightarrow> 'k \<Rightarrow> (tas_error + int) \<times> 'k" where
  "Enforce ords kube e cache s k =
     (case s of
        Deschedule d \<Rightarrow> deschedule_Enforce (by_strategy ords) (by_policy ords) kube e cache k
      | Labeling d \<Rightarrow>
          labeling_Enforce (by_strategy ords) (by_result ords) (by_labels ords) (by_label ords) kube e cache k
      | _ \<Rightarrow> (Inr 0, k))"

definition Cleanup ::
  "go_orders \<Rightarrow> 'k kube_client \<Rightarrow> strategy \<Rightarrow> string \<Rightarrow> 'k \<Rightarrow> tas_error option \<times> 'k" where
  "Cleanup ords kube s policyName k =
     (case s of
        Deschedule d \<Rightarrow> deschedule_Cleanup kube policyName k
      | Labeling d \<Rightarrow> labeling_Cleanup (by_label ords) kube policyName k
      | _ \<Rightarrow> (None, k))"

subsection \<open>The operations\<close>

text \<open>The two loops over the registered strategies of a type, for any comparison.\<close>

fun find_equal :: "('s \<Rightarrow> 's \<Rightarrow> bool option) \<Rightarrow> 's \<Rightarrow> 's list \<Rightarrow> bool option" where
  "find_equal equals str [] = Some False"
| "find_equal equals str (s # ss) = do {
     eq \<leftarrow> equals s str;
     if eq then Some True else find_equal equals str ss
   }"

fun remove_equal :: "('s \<Rightarrow> 's \<Rightarrow> bool option) \<Rightarrow> 's \<Rightarrow> 's list \<Rightarrow> 's list option" where
  "remove_equal equals str [] = Some []"
| "remove_equal equals str (s # ss) = do {
     eq \<leftarrow> equals s str;
     kept \<leftarrow> remove_equal equals str ss;
     Some (if eq then kept else s # kept)
   }"

definition AddStrategy :: "go_orders \<Rightarrow> strategy \<Rightarrow> string \<Rightarrow> metric_enforcer \<Rightarrow> metric_enforcer option" where
  "AddStrategy ords str strategyType e = do {
     duplicate \<leftarrow> find_equal Equals str (by_strategy ords (strategies_of e strategyType));
     if duplicate then Some e
     else case map_of (RegisteredStrategies e) strategyType of
       Some registered \<Rightarrow>
         if Enforceable str
         then Some (e\<lparr>RegisteredStrategies :=
                       AList.update strategyType (registered @ [str]) (RegisteredStrategies e)\<rparr>)
         else Some e
     | None \<Rightarrow> Some e
   }"

definition RemoveStrategy ::
  "go_orders \<Rightarrow> 'k kube_client \<Rightarrow> strategy \<Rightarrow> string \<Rightarrow> metric_enforcer \<times> 'k \<Rightarrow> (metric_enforcer \<times> 'k) option" where
  "RemoveStrategy ords kube str strategyType state = do {
     let (e, k) = state;
     kept \<leftarrow> remove_equal Equals str (by_strategy ords (strategies_of e strategyType));
     let e = (if map_of (RegisteredStrategies e) strategyType = None then e
              else e\<lparr>RegisteredStrategies := AList.update strategyType kept (RegisteredStrategies e)\<rparr>);
     if Enforceable str
     then let (err, k) = Cleanup ords kube str (GetPolicyName str) k in Some (e, k)
     else Some (e, k)
   }"

definition enforceStrategy ::
  "go_orders \<Rightarrow> 'k kube_client \<Rightarrow> string \<Rightarrow> tas_reader \<Rightarrow> metric_enforcer \<times> 'k \<Rightarrow> metric_enforcer \<times> 'k" where
  "enforceStrategy ords kube strategyType cache state =
     (case state of (e, k) \<Rightarrow>
        (case map_of (RegisteredStrategies e) strategyType of
           None \<Rightarrow> (e, k)
         | Some strList \<Rightarrow>
             (e, fold (\<lambda>str k. if Enforceable str then snd (Enforce ords kube e cache str k) else k)
                   (by_strategy ords strList) k)))"

text \<open>One tick of \<^verbatim>\<open>EnforceRegisteredStrategies\<close>.\<close>

definition EnforceRegisteredStrategies ::
  "go_orders \<Rightarrow> 'k kube_client \<Rightarrow> tas_reader \<Rightarrow> metric_enforcer \<times> 'k \<Rightarrow> metric_enforcer \<times> 'k" where
  "EnforceRegisteredStrategies ords kube cache state =
     fold (\<lambda>registeredType state. enforceStrategy ords kube registeredType cache state)
       (by_type ords (RegisteredStrategyTypes (fst state))) state"

subsection \<open>The interface of a strategy\<close>

text \<open>
  What the enforcer relies on in \<^verbatim>\<open>core.Interface\<close>: strategies that compare equal have the same type and
  policy name.
\<close>

locale strategy_interface =
  fixes equals :: "'s \<Rightarrow> 's \<Rightarrow> bool option" and kind :: "'s \<Rightarrow> string" and name :: "'s \<Rightarrow> string"
  assumes equals_same: "equals s t = Some True \<Longrightarrow> kind s = kind t \<and> name s = name t"
begin

lemma remove_equal_filter:
  "remove_equal equals str ss = Some kept \<Longrightarrow> kept = filter (\<lambda>s. equals s str \<noteq> Some True) ss"
proof (induction ss arbitrary: kept)
  case (Cons s ss)
  obtain eq where eq: "equals s str = Some eq" using Cons.prems by (cases "equals s str") simp_all
  obtain rest where step: "remove_equal equals str ss = Some rest"
    using Cons.prems eq by (cases "remove_equal equals str ss") simp_all
  have "rest = filter (\<lambda>s. equals s str \<noteq> Some True) ss" by (rule Cons.IH [OF step])
  with eq step Cons.prems show ?case by (cases eq) simp_all
qed simp

lemma remove_equal_kept:
  "remove_equal equals str ss = Some kept \<Longrightarrow> set kept = {s \<in> set ss. equals s str \<noteq> Some True}"
  by (drule remove_equal_filter) simp

lemma find_equal_iff:
  "find_equal equals str ss = Some dup \<Longrightarrow> dup \<longleftrightarrow> (\<exists>s \<in> set ss. equals s str = Some True)"
proof (induction ss)
  case (Cons s ss)
  then obtain eq where "equals s str = Some eq" "find_equal equals str (s # ss) = (if eq then Some True else find_equal equals str ss)"
    by (auto split: bind_splits)
  then show ?case using Cons by (cases eq) simp_all
qed simp

lemma removed_only_same:
  "remove_equal equals str ss = Some kept \<Longrightarrow> s \<in> set ss \<Longrightarrow> s \<notin> set kept \<Longrightarrow> kind s = kind str \<and> name s = name str"
  using remove_equal_kept [of str ss kept] equals_same [of s str] by simp

end

interpretation strategies: strategy_interface Equals StrategyType GetPolicyName
  by unfold_locales (simp add: Equals_iff)

subsection \<open>The registry as a typed store\<close>

definition registry_ok :: "metric_enforcer \<Rightarrow> bool" where
  "registry_ok e \<longleftrightarrow> wf_map (RegisteredStrategies e) \<and>
     (\<forall>t s. s \<in> set (strategies_of e t) \<longrightarrow> StrategyType s = t \<and> Enforceable s)"

lemma strategies_of_update [simp]:
  "strategies_of (e\<lparr>RegisteredStrategies := AList.update t ss (RegisteredStrategies e)\<rparr>) t' =
     (if t' = t then ss else strategies_of e t')"
  by (simp add: strategies_of_def)

lemma strategies_of_registered: "map_of (RegisteredStrategies e) t = Some ss \<Longrightarrow> strategies_of e t = ss"
  by (simp add: strategies_of_def gm_getd_Some)

lemma AddStrategy_strategies:
  assumes "AddStrategy ords str t e = Some e'"
  shows "\<exists>ss. strategies_of e' t = ss \<and> (\<forall>t'. t' \<noteq> t \<longrightarrow> strategies_of e' t' = strategies_of e t') \<and>
    (wf_map (RegisteredStrategies e) \<longrightarrow> wf_map (RegisteredStrategies e')) \<and>
    (ss = strategies_of e t \<or> ss = strategies_of e t @ [str] \<and> Enforceable str)"
  using assms by (auto simp: AddStrategy_def strategies_of_registered split: bind_splits if_splits option.splits)

lemma RemoveStrategy_strategies:
  assumes "RemoveStrategy ords kube str t (e, k) = Some (e', k')" "range_order (by_strategy ords)"
  shows "set (strategies_of e' t) = {s \<in> set (strategies_of e t). Equals s str \<noteq> Some True} \<and>
    (\<forall>t'. t' \<noteq> t \<longrightarrow> strategies_of e' t' = strategies_of e t') \<and>
    (wf_map (RegisteredStrategies e) \<longrightarrow> wf_map (RegisteredStrategies e'))"
proof -
  obtain kept where kept: "remove_equal Equals str (by_strategy ords (strategies_of e t)) = Some kept"
    "e' = (if map_of (RegisteredStrategies e) t = None then e
       else e\<lparr>RegisteredStrategies := AList.update t kept (RegisteredStrategies e)\<rparr>)"
    using assms(1) by (auto simp: RemoveStrategy_def Let_def split: bind_splits if_splits prod.splits)
  have "set kept = {s \<in> set (strategies_of e t). Equals s str \<noteq> Some True}"
    using strategies.remove_equal_kept [OF kept(1)] range_order_set [OF assms(2)] by simp
  moreover have "strategies_of e t = []" if "map_of (RegisteredStrategies e) t = None"
    using that by (simp add: strategies_of_def gm_getd_def)
  ultimately show ?thesis by (auto simp: kept(2))
qed

lemma AddStrategy_ok:
  assumes "AddStrategy ords str (StrategyType str) e = Some e'" "registry_ok e"
  shows "registry_ok e' \<and> (map_of (RegisteredStrategies e) t \<noteq> None \<longrightarrow> map_of (RegisteredStrategies e') t \<noteq> None)"
proof -
  note * = AddStrategy_strategies [OF assms(1)]
  have "StrategyType x = t \<and> Enforceable x" if "x \<in> set (strategies_of e' t)" for t x
    using that * assms(2) by (cases "t = StrategyType str") (auto simp: registry_ok_def)
  then have "registry_ok e'" using * assms(2) by (simp add: registry_ok_def)
  then show ?thesis using assms(1)
    by (auto simp: AddStrategy_def split: bind_splits if_splits option.splits)
qed

lemma RemoveStrategy_ok:
  assumes "RemoveStrategy ords kube str (StrategyType str) (e, k) = Some (e', k')" "range_order (by_strategy ords)" "registry_ok e"
  shows "registry_ok e' \<and> (map_of (RegisteredStrategies e) t \<noteq> None \<longrightarrow> map_of (RegisteredStrategies e') t \<noteq> None)"
proof -
  note * = RemoveStrategy_strategies [OF assms(1,2)]
  have "StrategyType x = t \<and> Enforceable x" if "x \<in> set (strategies_of e' t)" for t x
    using that * assms(3) by (cases "t = StrategyType str") (auto simp: registry_ok_def)
  then have "registry_ok e'" using * assms(3) by (simp add: registry_ok_def)
  then show ?thesis using assms(1)
    by (auto simp: RemoveStrategy_def Let_def split: bind_splits if_splits option.splits prod.splits)
qed

text \<open>The states of the registry: what the program does to it, starting from the empty one.\<close>

inductive registry_reachable :: "'k kube_client \<Rightarrow> metric_enforcer \<Rightarrow> bool" for kube :: "'k kube_client" where
  start: "registry_reachable kube NewEnforcer"
| register: "registry_reachable kube e \<Longrightarrow> registry_reachable kube (RegisterStrategyType s e)"
| unregister: "registry_reachable kube e \<Longrightarrow> registry_reachable kube (UnregisterStrategyType s e)"
| added: "registry_reachable kube e \<Longrightarrow> range_order (by_strategy ords) \<Longrightarrow>
    AddStrategy ords s (StrategyType s) e = Some e' \<Longrightarrow> registry_reachable kube e'"
| removed: "registry_reachable kube e \<Longrightarrow> range_order (by_strategy ords) \<Longrightarrow>
    RemoveStrategy ords kube s (StrategyType s) (e, k) = Some (e', k') \<Longrightarrow> registry_reachable kube e'"

lemma registry_ok_reachable: "registry_reachable kube e \<Longrightarrow> registry_ok e"
proof (induction rule: registry_reachable.induct)
  case start
  show ?case by (simp add: registry_ok_def NewEnforcer_def strategies_of_def)
next
  case (register e s)
  then show ?case by (auto simp: registry_ok_def RegisterStrategyType_def split: if_splits)
next
  case (unregister e s)
  then show ?case by (auto simp: registry_ok_def UnregisterStrategyType_def strategies_of_def gm_getd_def split: if_splits option.splits)
next
  case (added e ords s e')
  show ?case using AddStrategy_ok [OF added(3) added.IH] by simp
next
  case (removed e ords s k e' k')
  show ?case using RemoveStrategy_ok [OF removed(3,2) removed.IH] by simp
qed

text \<open>C32: the registry is well typed in every state that the enforcer's operations reach: each strategy is stored
  under the name of its own type, and only types that can be enforced are stored, so that every stored strategy is enforced
  by its own type's code.\<close>

theorem registry_typed:
  assumes "registry_reachable kube e"
  shows "registry_ok e"
  by (rule registry_ok_reachable [OF assms])

definition demo_orders :: go_orders where
  "demo_orders = \<lparr>by_strategy = id, by_policy = id, by_result = id, by_labels = id, by_label = id, by_type = id\<rparr>"

lemma registry_typed_witness: "registry_ok demo_deschedule"
proof (rule registry_typed [of demo_kube])
  let ?s = "Deschedule (demo_strategy ''p'' [demo_rule ''GreaterThan'' 50 []])"
  have "registry_reachable demo_kube (RegisterStrategyType ?s NewEnforcer)" by (intro registry_reachable.intros)
  moreover have "AddStrategy demo_orders ?s (StrategyType ?s) (RegisterStrategyType ?s NewEnforcer) = Some demo_deschedule"
    by (simp add: AddStrategy_def RegisterStrategyType_def NewEnforcer_def strategies_of_def demo_orders_def demo_deschedule_def)
  moreover have "range_order (by_strategy demo_orders)" by (simp add: demo_orders_def)
  ultimately show "registry_reachable demo_kube demo_deschedule" by (blast intro: registry_reachable.added)
qed

subsection \<open>Adding and removing\<close>

lemma AddStrategy_registers:
  assumes "AddStrategy ords str t e = Some e'" "map_of (RegisteredStrategies e) t \<noteq> None" "Enforceable str"
    and "Rules (strategy_data str) \<noteq> []" "range_order (by_strategy ords)"
  shows "\<exists>s \<in> set (strategies_of e' t). Equals s str = Some True"
proof -
  have refl: "Equals str str = Some True" using assms(4) by (simp add: Equals_iff list_all2_same rule_equal_def)
  obtain dup where dup: "find_equal Equals str (by_strategy ords (strategies_of e t)) = Some dup"
    using assms(1) by (auto simp: AddStrategy_def split: bind_splits)
  show ?thesis
  proof (cases dup)
    case True
    then show ?thesis using assms(1) dup strategies.find_equal_iff [OF dup] range_order_set [OF assms(5)]
      by (auto simp: AddStrategy_def)
  next
    case False
    then show ?thesis using assms(1,2,3) dup refl by (auto simp: AddStrategy_def split: option.splits)
  qed
qed

lemma removes_equal:
  assumes "RemoveStrategy ords kube str t (e, k) = Some (e', k')" "range_order (by_strategy ords)"
  shows "set (strategies_of e' t) = {s \<in> set (strategies_of e t).
      \<not> (StrategyType s = StrategyType str \<and> GetPolicyName s = GetPolicyName str \<and> Rules (strategy_data s) \<noteq> [] \<and>
         list_all2 (rule_equal (StrategyType s = labeling_StrategyType)) (Rules (strategy_data s)) (Rules (strategy_data str)))}"
    and "t' \<noteq> t \<Longrightarrow> strategies_of e' t' = strategies_of e t'"
  using RemoveStrategy_strategies [OF assms] by (auto simp: Equals_iff)

text \<open>Removing a strategy takes out of its type exactly the strategies of the same policy name with the same
  rules, and nothing of the other types. A strategy without rules is never taken out: it equals nothing, not even
  itself.\<close>

theorem RemoveStrategy_removes_equal:
  assumes "RemoveStrategy ords kube str t (e, k) = Some (e', k')" "range_order (by_strategy ords)"
  shows "set (strategies_of e' t) = {s \<in> set (strategies_of e t).
      \<not> (StrategyType s = StrategyType str \<and> GetPolicyName s = GetPolicyName str \<and> Rules (strategy_data s) \<noteq> [] \<and>
         list_all2 (rule_equal (StrategyType s = labeling_StrategyType)) (Rules (strategy_data s)) (Rules (strategy_data str)))} \<and>
    (\<forall>t'. t' \<noteq> t \<longrightarrow> strategies_of e' t' = strategies_of e t')"
  using removes_equal [OF assms] by simp

lemma RemoveStrategy_removes_equal_witness:
  "\<exists>e' k'. RemoveStrategy demo_orders demo_kube (Deschedule (demo_strategy ''p'' [demo_rule ''GreaterThan'' 50 []]))
      deschedule_StrategyType (demo_deschedule, demo_cluster) = Some (e', k') \<and>
     set (strategies_of e' deschedule_StrategyType) = {}"
proof -
  let ?s = "Deschedule (demo_strategy ''p'' [demo_rule ''GreaterThan'' 50 []])"
  have "remove_equal Equals ?s [?s] = Some []"
    by (simp add: deschedule_Equals_def plain_Equals_def demo_strategy_def)
  then have "RemoveStrategy demo_orders demo_kube ?s deschedule_StrategyType (demo_deschedule, demo_cluster) \<noteq> None"
    by (simp add: RemoveStrategy_def strategies_of_def demo_orders_def demo_deschedule_def split: prod.splits)
  then obtain e' k' where *: "RemoveStrategy demo_orders demo_kube ?s deschedule_StrategyType (demo_deschedule, demo_cluster) = Some (e', k')"
    by auto
  have "range_order (by_strategy demo_orders)" by (simp add: demo_orders_def)
  from RemoveStrategy_removes_equal [OF * this] have "set (strategies_of e' deschedule_StrategyType) = {}"
    by (simp add: demo_deschedule_def strategies_of_def demo_strategy_def rule_equal_def GetPolicyName_def)
  with * show ?thesis by blast
qed

end
