(* ===== verification/Tas_Controller.thy ===== *)
theory Tas_Controller
  imports Tas_Enforcer
begin

text \<open>
  The policy controller (\<^verbatim>\<open>controller/controller.go\<close>): what the informer's add, update and delete events of
  telemetry policies do to the cache and the enforcer. A result \<open>None\<close> is a panic of the handler (a failed
  type assertion, or comparing labeling strategies).
\<close>

record 'k tas_state =
  tas_Cache :: tas_cache
  tas_Enforcer :: metric_enforcer
  tas_World :: 'k

text \<open>Go's zero value, which ranging code reads for a missing strategy.\<close>

definition zero_strategy :: tas_strategy where
  "zero_strategy = \<lparr>PolicyName = [], LogicalOperator = [], Rules = []\<rparr>"

definition castStrategy :: "string \<Rightarrow> tas_strategy \<Rightarrow> tas_error + strategy" where
  "castStrategy strategyType policy =
     (if strategyType = scheduleonmetric_StrategyType then Inr (ScheduleOnMetric policy)
      else if strategyType = deschedule_StrategyType then Inr (Deschedule policy)
      else if strategyType = dontschedule_StrategyType then Inr (DontSchedule policy)
      else if strategyType = labeling_StrategyType then Inr (Labeling policy)
      else Inl InvalidStrategyType)"

subsection \<open>The handlers\<close>

text \<open>A loop whose body may panic, or return from the handler (\<open>Inl\<close>).\<close>

fun ranged :: "('a \<Rightarrow> 's \<Rightarrow> ('s + 's) option) \<Rightarrow> 'a list \<Rightarrow> 's \<Rightarrow> ('s + 's) option" where
  "ranged f [] s = Some (Inr s)"
| "ranged f (x # xs) s = do {
     r \<leftarrow> f x s;
     case r of Inl s \<Rightarrow> Some (Inl s) | Inr s \<Rightarrow> ranged f xs s
   }"

definition write_metrics :: "tas_rule list \<Rightarrow> tas_cache \<Rightarrow> tas_cache option" where
  "write_metrics rules c =
     ofold (\<lambda>m c. do { r \<leftarrow> WriteMetric m [] c; Some (case r of Inl err \<Rightarrow> c | Inr c \<Rightarrow> c) })
       (map Metricname rules) c"

definition delete_metrics :: "tas_rule list \<Rightarrow> tas_cache \<Rightarrow> tas_cache option" where
  "delete_metrics rules c = ofold DeleteMetric (map Metricname rules) c"

text \<open>The steps of the three loops over the strategies of a policy.\<close>

definition register_strategy ::
  "go_orders \<Rightarrow> string \<Rightarrow> strategy \<Rightarrow> string \<Rightarrow> tas_rule list \<Rightarrow> 'k tas_state \<Rightarrow> 'k tas_state option" where
  "register_strategy ords polname strt name rules st = do {
     let strt = SetPolicyName polname strt;
     e \<leftarrow> AddStrategy ords strt name (tas_Enforcer st);
     c \<leftarrow> write_metrics rules (tas_Cache st);
     Some (st\<lparr>tas_Enforcer := e, tas_Cache := c\<rparr>)
   }"

definition unregister_strategy ::
  "go_orders \<Rightarrow> 'k kube_client \<Rightarrow> string \<Rightarrow> strategy \<Rightarrow> (string, tas_strategy) gomap \<Rightarrow> 'k tas_state \<Rightarrow>
   'k tas_state option" where
  "unregister_strategy ords kube polname strt strategies st = do {
     let strt = SetPolicyName polname strt;
     (e, k) \<leftarrow> RemoveStrategy ords kube strt (StrategyType strt) (tas_Enforcer st, tas_World st);
     c \<leftarrow> delete_metrics (Rules (gm_getd zero_strategy strategies (StrategyType strt))) (tas_Cache st);
     Some (st\<lparr>tas_Enforcer := e, tas_World := k, tas_Cache := c\<rparr>)
   }"

definition onAdd ::
  "go_orders \<Rightarrow> ((string \<times> tas_strategy) list \<Rightarrow> (string \<times> tas_strategy) list) \<Rightarrow> tas_policy option \<Rightarrow>
   'k tas_state \<Rightarrow> 'k tas_state option" where
  "onAdd ords ord obj st =
     (case obj of
        None \<Rightarrow> Some st
      | Some pol \<Rightarrow>
          (case WritePolicy (tas_namespace pol) (tas_name pol) pol (tas_Cache st) of
             Inl err \<Rightarrow> Some st
           | Inr c \<Rightarrow>
               map_option (case_sum id id)
                 (ranged (\<lambda>(name, s) st.
                     case castStrategy name s of
                       Inl err \<Rightarrow> Some (Inl st)
                     | Inr strt \<Rightarrow> map_option Inr (register_strategy ords (tas_name pol) strt name (Rules s) st))
                   (ord (Strategies pol)) (st\<lparr>tas_Cache := c\<rparr>))))"

definition onUpdate ::
  "go_orders \<Rightarrow> ((string \<times> tas_strategy) list \<Rightarrow> (string \<times> tas_strategy) list) \<Rightarrow> 'k kube_client \<Rightarrow>
   tas_policy option \<Rightarrow> tas_policy option \<Rightarrow> 'k tas_state \<Rightarrow> 'k tas_state option" where
  "onUpdate ords ord kube older newer st = do {
     oldPol \<leftarrow> older;
     pol \<leftarrow> newer;
     case WritePolicy (tas_namespace pol) (tas_name pol) pol (tas_Cache st) of
       Inl err \<Rightarrow> Some st
     | Inr c \<Rightarrow>
         map_option (case_sum id id)
           (ranged (\<lambda>(name, s) st.
               case castStrategy name (gm_getd zero_strategy (Strategies oldPol) name) of
                 Inl err \<Rightarrow> Some (Inl st)
               | Inr oldStrat \<Rightarrow> do {
                   st \<leftarrow> unregister_strategy ords kube (tas_name pol) oldStrat (Strategies oldPol) st;
                   case castStrategy name s of
                     Inl err \<Rightarrow> Some (Inl st)
                   | Inr strt \<Rightarrow> map_option Inr (register_strategy ords (tas_name pol) strt name (Rules s) st)
                 })
             (ord (Strategies pol)) (st\<lparr>tas_Cache := c\<rparr>))
   }"

definition onDelete ::
  "go_orders \<Rightarrow> ((string \<times> tas_strategy) list \<Rightarrow> (string \<times> tas_strategy) list) \<Rightarrow> 'k kube_client \<Rightarrow>
   tas_policy option \<Rightarrow> 'k tas_state \<Rightarrow> 'k tas_state option" where
  "onDelete ords ord kube obj st = do {
     pol \<leftarrow> obj;
     r \<leftarrow> ranged (\<lambda>(name, s) st.
              case castStrategy name s of
                Inl err \<Rightarrow> Some (Inl st)
              | Inr strt \<Rightarrow> map_option Inr (unregister_strategy ords kube (tas_name pol) strt (Strategies pol) st))
            (ord (Strategies pol)) st;
     Some (case r of
             Inl st \<Rightarrow> st
           | Inr st \<Rightarrow> st\<lparr>tas_Cache := DeletePolicy (tas_namespace pol) (tas_name pol) (tas_Cache st)\<rparr>)
   }"

subsection \<open>Loops and strategies\<close>

lemma ranged_done:
  assumes "ranged f es st = Some r" "I [] st"
    and "\<And>sofar e rest s r. es = sofar @ e # rest \<Longrightarrow> I sofar s \<Longrightarrow> f e s = Some r \<Longrightarrow>
      \<exists>s'. r = Inr s' \<and> I (sofar @ [e]) s'"
  shows "\<exists>s'. r = Inr s' \<and> I es s'"
proof -
  have "\<exists>s'. r = Inr s' \<and> I es s'" if "ranged f todo s = Some r" "I sofar s" "es = sofar @ todo" for todo sofar s
    using that
  proof (induction todo arbitrary: s sofar)
    case (Cons e todo)
    obtain r1 where r1: "f e s = Some r1" using Cons.prems(1) by (cases "f e s") simp_all
    obtain s1 where s1: "r1 = Inr s1" "I (sofar @ [e]) s1" using assms(3) [OF Cons.prems(3,2) r1] by blast
    show ?case by (rule Cons.IH [of s1 "sofar @ [e]"]) (use Cons.prems(1,3) r1 s1 in auto)
  qed auto
  from this [of es st "[]"] assms(1,2) show ?thesis by simp
qed

lemma castStrategy_Inr: "castStrategy t p = Inr s \<Longrightarrow> StrategyType s = t \<and> strategy_data s = p"
  by (auto simp: castStrategy_def split: if_splits)

definition strategy_types :: "string set" where
  "strategy_types = {scheduleonmetric_StrategyType, deschedule_StrategyType, dontschedule_StrategyType, labeling_StrategyType}"

lemma castStrategy_valid: "t \<in> strategy_types \<Longrightarrow> \<exists>s. castStrategy t p = Inr s"
  by (auto simp: castStrategy_def strategy_types_def)

lemma SetPolicyName_simps [simp]:
  "StrategyType (SetPolicyName n s) = StrategyType s" "GetPolicyName (SetPolicyName n s) = n"
  "strategy_data (SetPolicyName n s) = (strategy_data s)\<lparr>PolicyName := n\<rparr>"
  by (cases s; simp add: GetPolicyName_def)+

text \<open>How often the strategies use a metric.\<close>

definition metric_uses :: "(string \<times> tas_strategy) list \<Rightarrow> string \<Rightarrow> int" where
  "metric_uses strategies m = (\<Sum>(name, s)\<leftarrow>strategies. int (count_list (map Metricname (Rules s)) m))"

lemma metric_uses_simps [simp]:
  "metric_uses [] m = 0" "metric_uses (es @ es') m = metric_uses es m + metric_uses es' m"
  "metric_uses [(name, s)] m = int (count_list (map Metricname (Rules s)) m)"
  by (simp_all add: metric_uses_def)

lemma sum_list_perm: "mset xs = mset ys \<Longrightarrow> sum_list (map f xs) = (sum_list (map f ys) :: int)"
proof -
  have "sum_list (map f zs) = sum_mset (image_mset f (mset zs))" for zs by (induction zs) simp_all
  then show "mset xs = mset ys \<Longrightarrow> sum_list (map f xs) = sum_list (map f ys)" by simp
qed

lemma sum_list_positive:
  fixes f :: "'a \<Rightarrow> int"
  shows "x \<in> set xs \<Longrightarrow> 0 < f x \<Longrightarrow> (\<And>y. 0 \<le> f y) \<Longrightarrow> 0 < sum_list (map f xs)"
proof (induction xs)
  case (Cons y xs)
  have "0 \<le> sum_list (map f xs)" using Cons.prems(3) by (induction xs) (simp_all add: add_nonneg_nonneg)
  then show ?case using Cons.prems(3) [of y] Cons.prems(1,2) Cons.IH [OF _ Cons.prems(2,3)] by auto
qed simp

lemma metric_uses_nonneg: "0 \<le> metric_uses es m"
  by (induction es) (auto simp: metric_uses_def)

lemma metric_uses_order: "range_order ord \<Longrightarrow> metric_uses (ord es) m = metric_uses es m"
  unfolding metric_uses_def by (intro sum_list_perm range_order_mset)

lemma write_metrics_counts:
  assumes "write_metrics rules c = Some c'" "cache_ok c"
  shows "cache_ok c'" "cache_ReadPolicy c' = cache_ReadPolicy c"
    "users c' m = users c m + (if m = [] then 0 else int (count_list (map Metricname rules) m))"
  using cache.claim_all [OF assms(2), of "map Metricname rules"] assms(1) by (auto simp: write_metrics_def)

lemma delete_metrics_counts:
  assumes "delete_metrics rules c = Some c'" "cache_ok c"
  shows "cache_ok c'" "cache_ReadPolicy c' = cache_ReadPolicy c"
    "users c' m = users c m - int (count_list (map Metricname rules) m)"
  using cache.release_all [OF assms(2), of "map Metricname rules"] assms(1) by (auto simp: delete_metrics_def)

subsection \<open>One strategy\<close>

definition descheduled :: "'k tas_state \<Rightarrow> strategy set" where
  "descheduled st = set (strategies_of (tas_Enforcer st) deschedule_StrategyType)"

definition state_ok :: "'k tas_state \<Rightarrow> bool" where
  "state_ok st \<longleftrightarrow> cache_ok (tas_Cache st) \<and> registry_ok (tas_Enforcer st) \<and>
     map_of (RegisteredStrategies (tas_Enforcer st)) deschedule_StrategyType \<noteq> None"

lemma descheduled_simps [simp]:
  "descheduled (st\<lparr>tas_Cache := c\<rparr>) = descheduled st" by (simp add: descheduled_def)

lemma register_strategy_effect:
  assumes "register_strategy ords p strt name rules st = Some st'" "state_ok st" "StrategyType strt = name"
  shows "state_ok st'" "cache_ReadPolicy (tas_Cache st') = cache_ReadPolicy (tas_Cache st)"
    "users (tas_Cache st') m = users (tas_Cache st) m + (if m = [] then 0 else int (count_list (map Metricname rules) m))"
    "name \<noteq> deschedule_StrategyType \<Longrightarrow> descheduled st' = descheduled st"
proof -
  obtain e c where e: "AddStrategy ords (SetPolicyName p strt) (StrategyType (SetPolicyName p strt)) (tas_Enforcer st) = Some e"
    and c: "write_metrics rules (tas_Cache st) = Some c" and st': "st' = st\<lparr>tas_Enforcer := e, tas_Cache := c\<rparr>"
    using assms(1,3) by (auto simp: register_strategy_def split: bind_splits)
  note w = write_metrics_counts [OF c]
  show "state_ok st'" using AddStrategy_ok [OF e] w(1) assms(2) by (auto simp: state_ok_def st')
  show "cache_ReadPolicy (tas_Cache st') = cache_ReadPolicy (tas_Cache st)"
    "users (tas_Cache st') m = users (tas_Cache st) m + (if m = [] then 0 else int (count_list (map Metricname rules) m))"
    using w(2,3) assms(2) by (simp_all add: state_ok_def st')
  show "descheduled st' = descheduled st" if "name \<noteq> deschedule_StrategyType"
    using AddStrategy_strategies [OF e] that assms(3) by (auto simp: descheduled_def st')
qed

lemma register_deschedule:
  assumes "register_strategy ords p strt deschedule_StrategyType rules st = Some st'" "state_ok st"
    and "StrategyType strt = deschedule_StrategyType" "\<And>s. s \<in> descheduled st \<Longrightarrow> GetPolicyName s \<noteq> p" "range_order (by_strategy ords)"
  shows "descheduled st' = insert (SetPolicyName p strt) (descheduled st)"
proof -
  let ?t = deschedule_StrategyType and ?str = "SetPolicyName p strt"
  obtain e c where e: "AddStrategy ords ?str ?t (tas_Enforcer st) = Some e" and st': "st' = st\<lparr>tas_Enforcer := e, tas_Cache := c\<rparr>"
    using assms(1) by (auto simp: register_strategy_def split: bind_splits)
  obtain dup where dup: "find_equal Equals ?str (by_strategy ords (strategies_of (tas_Enforcer st) ?t)) = Some dup"
    using e by (auto simp: AddStrategy_def split: bind_splits)
  have "Equals s ?str \<noteq> Some True" if "s \<in> descheduled st" for s
    using assms(4) [OF that] strategies.equals_same [of s ?str] by auto
  then have "\<not> dup" using strategies.find_equal_iff [OF dup] range_order_set [OF assms(5)] by (auto simp: descheduled_def)
  moreover have "Enforceable ?str" using deschedule_typed [OF assms(3)] by auto
  moreover obtain ss where "map_of (RegisteredStrategies (tas_Enforcer st)) ?t = Some ss" using assms(2) by (auto simp: state_ok_def)
  ultimately show ?thesis using e dup by (auto simp: AddStrategy_def descheduled_def st' strategies_of_registered)
qed

lemma unregister_strategy_effect:
  assumes "unregister_strategy ords kube p strt strategies st = Some st'" "state_ok st" "range_order (by_strategy ords)"
  shows "state_ok st'" "cache_ReadPolicy (tas_Cache st') = cache_ReadPolicy (tas_Cache st)"
    "users (tas_Cache st') m = users (tas_Cache st) m -
       int (count_list (map Metricname (Rules (gm_getd zero_strategy strategies (StrategyType strt)))) m)"
    "descheduled st' = (if StrategyType strt = deschedule_StrategyType
       then {s \<in> descheduled st. Equals s (SetPolicyName p strt) \<noteq> Some True} else descheduled st)"
proof -
  obtain e k c where e: "RemoveStrategy ords kube (SetPolicyName p strt) (StrategyType (SetPolicyName p strt))
      (tas_Enforcer st, tas_World st) = Some (e, k)"
    and c: "delete_metrics (Rules (gm_getd zero_strategy strategies (StrategyType strt))) (tas_Cache st) = Some c"
    and st': "st' = st\<lparr>tas_Enforcer := e, tas_World := k, tas_Cache := c\<rparr>"
    using assms(1) by (auto simp: unregister_strategy_def Let_def split: bind_splits)
  note w = delete_metrics_counts [OF c]
  show "state_ok st'" using RemoveStrategy_ok [OF e assms(3)] w(1) assms(2) by (auto simp: state_ok_def st')
  show "cache_ReadPolicy (tas_Cache st') = cache_ReadPolicy (tas_Cache st)"
    "users (tas_Cache st') m = users (tas_Cache st) m -
       int (count_list (map Metricname (Rules (gm_getd zero_strategy strategies (StrategyType strt)))) m)"
    using w(2,3) assms(2) by (simp_all add: state_ok_def st')
  show "descheduled st' = (if StrategyType strt = deschedule_StrategyType
       then {s \<in> descheduled st. Equals s (SetPolicyName p strt) \<noteq> Some True} else descheduled st)"
    using RemoveStrategy_strategies [OF e assms(3)] by (auto simp: descheduled_def st')
qed

lemma unregister_deschedule:
  assumes "unregister_strategy ords kube p strt strategies st = Some st'" "state_ok st" "range_order (by_strategy ords)"
    and "StrategyType strt = deschedule_StrategyType" "Rules (strategy_data strt) \<noteq> []"
    and "\<And>s. s \<in> descheduled st \<Longrightarrow> GetPolicyName s = p \<Longrightarrow> s = SetPolicyName p strt"
  shows "descheduled st' = {s \<in> descheduled st. GetPolicyName s \<noteq> p}"
proof -
  have "Equals (SetPolicyName p strt) (SetPolicyName p strt) = Some True"
    using assms(5) by (simp add: Equals_iff list_all2_same rule_equal_def)
  then have "Equals s (SetPolicyName p strt) = Some True \<longleftrightarrow> GetPolicyName s = p" if "s \<in> descheduled st" for s
    using assms(6) [OF that] strategies.equals_same [of s "SetPolicyName p strt"] by auto
  then show ?thesis using unregister_strategy_effect(4) [OF assms(1-3)] assms(4) by auto
qed

subsection \<open>One event\<close>

definition valid_policy :: "tas_policy \<Rightarrow> bool" where
  "valid_policy pol \<longleftrightarrow> tas_name pol \<noteq> [] \<and> CHR ''/'' \<notin> set (tas_namespace pol) \<and> CHR ''~'' \<notin> set (tas_name pol) \<and>
     wf_map (Strategies pol) \<and> fst ` set (Strategies pol) \<subseteq> strategy_types \<and>
     (\<forall>s. (deschedule_StrategyType, s) \<in> set (Strategies pol) \<longrightarrow> Rules s \<noteq> [])"

text \<open>The deschedule strategies that entries of a policy stand for.\<close>

definition own :: "string \<Rightarrow> (string \<times> tas_strategy) list \<Rightarrow> strategy set" where
  "own p strategies = {SetPolicyName p (Deschedule s) | s. (deschedule_StrategyType, s) \<in> set strategies}"

lemma own_simps [simp]:
  "own p [] = {}" "own p (es @ es') = own p es \<union> own p es'"
  "own p [(name, s)] = (if name = deschedule_StrategyType then {SetPolicyName p (Deschedule s)} else {})"
  by (auto simp: own_def)

lemma own_order: "range_order ord \<Longrightarrow> own p (ord es) = own p es"
  using range_order_set [of ord es] by (simp add: own_def)

lemma own_name: "s \<in> own p es \<Longrightarrow> GetPolicyName s = p"
  by (auto simp: own_def GetPolicyName_def)

lemma ordered_entries:
  assumes "range_order ord" "wf_map strategies" "ord strategies = sofar @ (name, s) # rest"
  shows "(name, s) \<in> set strategies" "name \<notin> fst ` set sofar" "map_of strategies name = Some s"
proof -
  show mem: "(name, s) \<in> set strategies" using range_order_set [OF assms(1), of strategies] assms(3) by (metis in_set_conv_decomp)
  have "distinct (map fst (ord strategies))"
    using range_order_mset [OF assms(1), of strategies] assms(2) by (metis mset_eq_imp_distinct_iff mset_map wf_map_def)
  then show "name \<notin> fst ` set sofar" unfolding assms(3) by auto
  show "map_of strategies name = Some s" using wf_map_lookup [OF assms(2)] mem by simp
qed

lemma own_fresh: "deschedule_StrategyType \<notin> fst ` set es \<Longrightarrow> own p es = {}"
  by (force simp: own_def)

lemma cast_deschedule: "castStrategy deschedule_StrategyType s = Inr (Deschedule s)"
  by (simp add: castStrategy_def deschedule_StrategyType_def scheduleonmetric_StrategyType_def)

text \<open>What an event leaves the policies of the cache as, when it writes one.\<close>

lemma WritePolicy_state:
  assumes "WritePolicy ns p pol c = Inr c'" "state_ok (st\<lparr>tas_Cache := c\<rparr>)"
  shows "state_ok (st\<lparr>tas_Cache := c'\<rparr>)" "users c' = users c"
  using assms by (simp_all add: state_ok_def WritePolicy_read)

lemma onAdd_effect:
  assumes "onAdd ords ord (Some pol) st = Some st'" "state_ok st" "valid_policy pol"
    and orders: "range_order ord" "range_order (by_strategy ords)"
    and fresh: "\<forall>s \<in> descheduled st. GetPolicyName s \<noteq> tas_name pol"
  shows "state_ok st'" "m \<noteq> [] \<Longrightarrow> users (tas_Cache st') m = users (tas_Cache st) m + metric_uses (Strategies pol) m"
    "descheduled st' = descheduled st \<union> own (tas_name pol) (Strategies pol)"
    "cache_ReadPolicy (tas_Cache st') ns p = (if policyPath ns p = policyPath (tas_namespace pol) (tas_name pol)
       then Inr pol else cache_ReadPolicy (tas_Cache st) ns p)"
proof -
  let ?p = "tas_name pol"
  obtain c where c: "WritePolicy (tas_namespace pol) ?p pol (tas_Cache st) = Inr c"
    using assms(3) by (auto simp: WritePolicy_def valid_policy_def)
  define st0 where "st0 = st\<lparr>tas_Cache := c\<rparr>"
  have st0: "state_ok st0" "users c = users (tas_Cache st)" using WritePolicy_state [OF c, of st] assms(2) by (simp_all add: st0_def)
  let ?f = "\<lambda>(name, s) st. case castStrategy name s of Inl err \<Rightarrow> Some (Inl st)
      | Inr strt \<Rightarrow> map_option Inr (register_strategy ords ?p strt name (Rules s) st)"
  let ?I = "\<lambda>sofar s. state_ok s \<and> cache_ReadPolicy (tas_Cache s) = cache_ReadPolicy c \<and>
      (\<forall>m. m \<noteq> [] \<longrightarrow> users (tas_Cache s) m = users c m + metric_uses sofar m) \<and>
      descheduled s = descheduled st0 \<union> own ?p sofar"
  obtain r where r: "ranged ?f (ord (Strategies pol)) st0 = Some r" "st' = case_sum id id r"
    using assms(1) by (auto simp: onAdd_def c st0_def)
  have "\<exists>s'. r = Inr s' \<and> ?I (ord (Strategies pol)) s'"
  proof (rule ranged_done [OF r(1)])
    show "?I [] st0" using st0 by (simp add: st0_def)
  next
    fix sofar e rest s r
    assume es: "ord (Strategies pol) = sofar @ e # rest" and I: "?I sofar s" and step: "?f e s = Some r"
    obtain name d where e: "e = (name, d)" by (cases e)
    note entry = ordered_entries [OF orders(1) _ es [unfolded e]]
    have wf: "wf_map (Strategies pol)" "name \<in> strategy_types" using assms(3) entry(1) by (force simp: valid_policy_def)+
    obtain strt where strt: "castStrategy name d = Inr strt" using castStrategy_valid [OF wf(2)] by blast
    obtain s' where s': "register_strategy ords ?p strt name (Rules d) s = Some s'" "r = Inr s'"
      using step by (auto simp: e strt)
    have typed: "StrategyType strt = name" using castStrategy_Inr [OF strt] by simp
    note effect = register_strategy_effect [OF s'(1) _ typed]
    have "descheduled s' = descheduled st0 \<union> own ?p (sofar @ [e])"
    proof (cases "name = deschedule_StrategyType")
      case True
      have "descheduled s = descheduled st0" using I own_fresh entry(2) [OF wf(1)] True by simp
      moreover have "strt = Deschedule d" using strt True by (simp add: cast_deschedule)
      ultimately show ?thesis
        using register_deschedule [OF s'(1) [unfolded True] _ _ _ orders(2)] I typed True fresh by (auto simp: e st0_def)
    next
      case False
      then show ?thesis using effect(4) I by (simp add: e)
    qed
    then show "\<exists>s'. r = Inr s' \<and> ?I (sofar @ [e]) s'" using s'(2) effect(1-3) I by (auto simp: e)
  qed
  then obtain s' where "st' = s'" "?I (ord (Strategies pol)) s'" using r(2) by auto
  then show "state_ok st'" "m \<noteq> [] \<Longrightarrow> users (tas_Cache st') m = users (tas_Cache st) m + metric_uses (Strategies pol) m"
    "descheduled st' = descheduled st \<union> own ?p (Strategies pol)"
    "cache_ReadPolicy (tas_Cache st') ns p = (if policyPath ns p = policyPath (tas_namespace pol) ?p
       then Inr pol else cache_ReadPolicy (tas_Cache st) ns p)"
    using st0 WritePolicy_read(1) [OF c] by (simp_all add: metric_uses_order own_order orders(1)) (simp add: st0_def)
qed

text \<open>What stays when the strategies of a policy go.\<close>

abbreviation others :: "string \<Rightarrow> strategy set \<Rightarrow> strategy set" where
  "others p D \<equiv> {s \<in> D. GetPolicyName s \<noteq> p}"

lemma unregister_own:
  assumes "unregister_strategy ords kube p strt strategies s = Some s'" "state_ok s" "range_order (by_strategy ords)"
    and "castStrategy deschedule_StrategyType d = Inr strt" "wf_map strategies" "map_of strategies deschedule_StrategyType = Some d"
    and "Rules d \<noteq> []" "\<forall>x \<in> descheduled s. GetPolicyName x = p \<longrightarrow> x \<in> own p strategies"
  shows "descheduled s' = others p (descheduled s)"
proof -
  have strt: "strt = Deschedule d" using assms(4) by (simp add: cast_deschedule)
  have "x = SetPolicyName p strt" if "x \<in> descheduled s" "GetPolicyName x = p" for x
  proof -
    have "x \<in> own p strategies" using assms(8) that by blast
    then show ?thesis using wf_map_lookup [OF assms(5)] assms(6) by (auto simp: own_def strt)
  qed
  then show ?thesis
    using unregister_deschedule [OF assms(1-3)] castStrategy_Inr [OF assms(4)] assms(7) by (simp add: strt)
qed

lemma onDelete_effect:
  assumes "onDelete ords ord kube (Some pol) st = Some st'" "state_ok st" "valid_policy pol"
    and orders: "range_order ord" "range_order (by_strategy ords)"
    and own: "\<forall>s \<in> descheduled st. GetPolicyName s = tas_name pol \<longrightarrow> s \<in> own (tas_name pol) (Strategies pol)"
  shows "state_ok st'" "m \<noteq> [] \<Longrightarrow> users (tas_Cache st') m = users (tas_Cache st) m - metric_uses (Strategies pol) m"
    "descheduled st' = others (tas_name pol) (descheduled st)"
    "cache_ReadPolicy (tas_Cache st') ns p = (if policyPath ns p = policyPath (tas_namespace pol) (tas_name pol)
       then Inl (NoPolicy p) else cache_ReadPolicy (tas_Cache st) ns p)"
proof -
  let ?p = "tas_name pol"
  let ?f = "\<lambda>(name, s) st. case castStrategy name s of Inl err \<Rightarrow> Some (Inl st)
      | Inr strt \<Rightarrow> map_option Inr (unregister_strategy ords kube ?p strt (Strategies pol) st)"
  let ?I = "\<lambda>sofar s. state_ok s \<and> cache_ReadPolicy (tas_Cache s) = cache_ReadPolicy (tas_Cache st) \<and>
      (\<forall>m. users (tas_Cache s) m = users (tas_Cache st) m - metric_uses sofar m) \<and>
      descheduled s = (if deschedule_StrategyType \<in> fst ` set sofar then others ?p (descheduled st) else descheduled st)"
  have wf: "wf_map (Strategies pol)" using assms(3) by (simp add: valid_policy_def)
  obtain r where r: "ranged ?f (ord (Strategies pol)) st = Some r"
    "st' = (case r of Inl st \<Rightarrow> st | Inr st \<Rightarrow> st\<lparr>tas_Cache := DeletePolicy (tas_namespace pol) ?p (tas_Cache st)\<rparr>)"
    using assms(1) by (auto simp: onDelete_def split: bind_splits)
  have "\<exists>s'. r = Inr s' \<and> ?I (ord (Strategies pol)) s'"
  proof (rule ranged_done [OF r(1)])
    show "?I [] st" using assms(2) by simp
  next
    fix sofar e rest s r
    assume es: "ord (Strategies pol) = sofar @ e # rest" and I: "?I sofar s" and step: "?f e s = Some r"
    obtain name d where e: "e = (name, d)" by (cases e)
    note entry = ordered_entries [OF orders(1) wf es [unfolded e]]
    have "name \<in> strategy_types" using assms(3) entry(1) by (force simp: valid_policy_def)
    then obtain strt where strt: "castStrategy name d = Inr strt" using castStrategy_valid by blast
    obtain s' where s': "unregister_strategy ords kube ?p strt (Strategies pol) s = Some s'" "r = Inr s'"
      using step by (auto simp: e strt)
    have typed: "StrategyType strt = name" "strategy_data strt = d" using castStrategy_Inr [OF strt] by simp_all
    have ok: "state_ok s" using I by blast
    note effect = unregister_strategy_effect [OF s'(1) ok orders(2)]
    have "descheduled s' = others ?p (descheduled st)" if True: "name = deschedule_StrategyType"
    proof -
      have before: "descheduled s = descheduled st" using I entry(2) True by simp
      have "Rules d \<noteq> []" using assms(3) entry(1) True by (simp add: valid_policy_def)
      then show ?thesis
        using unregister_own [OF s'(1) ok orders(2) strt [unfolded True] wf entry(3) [unfolded True]] own by (simp add: before)
    qed
    moreover have "descheduled s' = descheduled s" if "name \<noteq> deschedule_StrategyType"
      using effect(4) I typed that by simp
    ultimately have "descheduled s' = (if deschedule_StrategyType \<in> fst ` set (sofar @ [e])
        then others ?p (descheduled st) else descheduled st)"
      using I by (cases "name = deschedule_StrategyType") (simp_all add: e)
    moreover have "users (tas_Cache s') m = users (tas_Cache st) m - metric_uses (sofar @ [e]) m" for m
      using effect(3) I entry(3) typed by (simp add: e gm_getd_Some)
    moreover have "state_ok s'" "cache_ReadPolicy (tas_Cache s') = cache_ReadPolicy (tas_Cache st)" using effect(1,2) I by simp_all
    ultimately show "\<exists>s'. r = Inr s' \<and> ?I (sofar @ [e]) s'" using s'(2) by blast
  qed
  then obtain s' where s': "r = Inr s'" "?I (ord (Strategies pol)) s'" by blast
  have keys: "fst ` set (ord (Strategies pol)) = fst ` set (Strategies pol)" using range_order_set [OF orders(1)] by simp
  have none: "others ?p (descheduled st) = descheduled st" if "deschedule_StrategyType \<notin> fst ` set (Strategies pol)"
    using own own_fresh [OF that] by auto
  show "state_ok st'" "m \<noteq> [] \<Longrightarrow> users (tas_Cache st') m = users (tas_Cache st) m - metric_uses (Strategies pol) m"
    "cache_ReadPolicy (tas_Cache st') ns p = (if policyPath ns p = policyPath (tas_namespace pol) ?p
       then Inl (NoPolicy p) else cache_ReadPolicy (tas_Cache st) ns p)"
    using s' r(2) by (simp_all add: state_ok_def DeletePolicy_read metric_uses_order orders(1))
  show "descheduled st' = others ?p (descheduled st)" using s' r(2) none unfolding keys by simp
qed

lemma old_uses:
  assumes "wf_map old" "wf_map new" "fst ` set old = fst ` set new"
  shows "(\<Sum>(name, s)\<leftarrow>new. int (count_list (map Metricname (Rules (gm_getd zero_strategy old name))) m)) = metric_uses old m"
proof -
  let ?g = "\<lambda>name. int (count_list (map Metricname (Rules (gm_getd zero_strategy old name))) m)"
  have "mset (map fst new) = mset (map fst old)"
    using assms by (metis list.set_map set_eq_iff_mset_eq_distinct wf_map_def)
  then have "sum_list (map ?g (map fst new)) = sum_list (map ?g (map fst old))"
    by (rule sum_list_perm)
  moreover have "map (\<lambda>e. ?g (fst e)) old = map (\<lambda>(name, s). int (count_list (map Metricname (Rules s)) m)) old"
    using wf_map_lookup [OF assms(1)] by (intro map_cong) (auto simp: gm_getd_Some)
  ultimately show ?thesis by (simp add: metric_uses_def comp_def case_prod_unfold)
qed

text \<open>One strategy of an update: the old one goes, the new one comes.\<close>

lemma replaced_strategy:
  assumes "unregister_strategy ords kube p strt0 old s = Some s1" "register_strategy ords p strt name (Rules d) s1 = Some s'"
    and ok: "state_ok s" and ord: "range_order (by_strategy ords)"
    and cast: "castStrategy name d0 = Inr strt0" "castStrategy name d = Inr strt" and wf: "wf_map old" "map_of old name = Some d0"
    and own: "name = deschedule_StrategyType \<Longrightarrow> Rules d0 \<noteq> [] \<and> (\<forall>x \<in> descheduled s. GetPolicyName x = p \<longrightarrow> x \<in> own p old)"
  shows "state_ok s'" "cache_ReadPolicy (tas_Cache s') = cache_ReadPolicy (tas_Cache s)"
    "m \<noteq> [] \<Longrightarrow> users (tas_Cache s') m = users (tas_Cache s) m - int (count_list (map Metricname (Rules d0)) m)
       + int (count_list (map Metricname (Rules d)) m)"
    "descheduled s' = (if name = deschedule_StrategyType then others p (descheduled s) \<union> own p [(name, d)] else descheduled s)"
proof -
  have typed: "StrategyType strt0 = name" "StrategyType strt = name" using castStrategy_Inr cast by blast+
  note gone = unregister_strategy_effect [OF assms(1) ok ord]
  note new = register_strategy_effect [OF assms(2) gone(1) typed(2)]
  show "state_ok s'" "cache_ReadPolicy (tas_Cache s') = cache_ReadPolicy (tas_Cache s)" using new(1,2) gone(2) by simp_all
  show "m \<noteq> [] \<Longrightarrow> users (tas_Cache s') m = users (tas_Cache s) m - int (count_list (map Metricname (Rules d0)) m)
       + int (count_list (map Metricname (Rules d)) m)"
    using new(3) gone(3) by (simp add: typed gm_getd_Some [OF wf(2)])
  show "descheduled s' = (if name = deschedule_StrategyType then others p (descheduled s) \<union> own p [(name, d)] else descheduled s)"
  proof (cases "name = deschedule_StrategyType")
    case True
    have mid: "descheduled s1 = others p (descheduled s)"
      by (rule unregister_own [OF assms(1) ok ord cast(1) [unfolded True] wf(1) wf(2) [unfolded True]]) (use own [OF True] in blast)+
    have "strt = Deschedule d" using cast(2) True by (simp add: cast_deschedule)
    then show ?thesis
      using register_deschedule [OF assms(2) [unfolded True] gone(1) _ _ ord] typed(2) True mid by auto
  qed (use new(4) gone(4) typed(1) in simp)
qed

lemma onUpdate_effect:
  assumes "onUpdate ords ord kube (Some old) (Some pol) st = Some st'" "state_ok st" "valid_policy pol" "valid_policy old"
    and orders: "range_order ord" "range_order (by_strategy ords)"
    and same: "tas_name old = tas_name pol" "fst ` set (Strategies old) = fst ` set (Strategies pol)"
    and own: "\<forall>s \<in> descheduled st. GetPolicyName s = tas_name pol \<longrightarrow> s \<in> own (tas_name pol) (Strategies old)"
  shows "state_ok st'"
    "m \<noteq> [] \<Longrightarrow> users (tas_Cache st') m = users (tas_Cache st) m - metric_uses (Strategies old) m + metric_uses (Strategies pol) m"
    "descheduled st' = others (tas_name pol) (descheduled st) \<union> own (tas_name pol) (Strategies pol)"
    "cache_ReadPolicy (tas_Cache st') ns p = (if policyPath ns p = policyPath (tas_namespace pol) (tas_name pol)
       then Inr pol else cache_ReadPolicy (tas_Cache st) ns p)"
proof -
  let ?p = "tas_name pol" and ?old = "Strategies old"
  obtain c where c: "WritePolicy (tas_namespace pol) ?p pol (tas_Cache st) = Inr c"
    using assms(3) by (auto simp: WritePolicy_def valid_policy_def)
  define st0 where "st0 = st\<lparr>tas_Cache := c\<rparr>"
  have st0: "state_ok st0" "users c = users (tas_Cache st)" using WritePolicy_state [OF c, of st] assms(2) by (simp_all add: st0_def)
  let ?f = "\<lambda>(name, s) st. case castStrategy name (gm_getd zero_strategy ?old name) of
        Inl err \<Rightarrow> Some (Inl st)
      | Inr oldStrat \<Rightarrow> do {
          st \<leftarrow> unregister_strategy ords kube ?p oldStrat ?old st;
          case castStrategy name s of Inl err \<Rightarrow> Some (Inl st)
          | Inr strt \<Rightarrow> map_option Inr (register_strategy ords ?p strt name (Rules s) st)
        }"
  let ?gone = "\<lambda>es m. \<Sum>(name, s)\<leftarrow>es. int (count_list (map Metricname (Rules (gm_getd zero_strategy ?old name))) m)"
  let ?I = "\<lambda>sofar s. state_ok s \<and> cache_ReadPolicy (tas_Cache s) = cache_ReadPolicy c \<and>
      (\<forall>m. m \<noteq> [] \<longrightarrow> users (tas_Cache s) m = users c m - ?gone sofar m + metric_uses sofar m) \<and>
      descheduled s = (if deschedule_StrategyType \<in> fst ` set sofar then others ?p (descheduled st) else descheduled st) \<union> own ?p sofar"
  have wf: "wf_map (Strategies pol)" "wf_map ?old" using assms(3,4) by (simp_all add: valid_policy_def)
  obtain r where r: "ranged ?f (ord (Strategies pol)) st0 = Some r" "st' = case_sum id id r"
    using assms(1) by (auto simp: onUpdate_def c st0_def)
  have "\<exists>s'. r = Inr s' \<and> ?I (ord (Strategies pol)) s'"
  proof (rule ranged_done [OF r(1)])
    show "?I [] st0" using st0 by (simp add: st0_def)
  next
    fix sofar e rest s r
    assume es: "ord (Strategies pol) = sofar @ e # rest" and I: "?I sofar s" and step: "?f e s = Some r"
    obtain name d where e: "e = (name, d)" by (cases e)
    note entry = ordered_entries [OF orders(1) wf(1) es [unfolded e]]
    have name: "name \<in> strategy_types" using assms(3) entry(1) by (force simp: valid_policy_def)
    have "name \<in> fst ` set ?old" unfolding same(2) using entry(1) by force
    then obtain d0 where d0: "map_of ?old name = Some d0" by (auto simp: map_of_Some_keys)
    obtain strt0 strt where cast: "castStrategy name d0 = Inr strt0" "castStrategy name d = Inr strt"
      using castStrategy_valid [OF name] by meson
    obtain s1 s' where s1: "unregister_strategy ords kube ?p strt0 ?old s = Some s1"
      and s': "register_strategy ords ?p strt name (Rules d) s1 = Some s'" "r = Inr s'"
      using step by (auto simp: e gm_getd_Some [OF d0] cast split: bind_splits)
    have ok: "state_ok s" using I by blast
    have desched: "Rules d0 \<noteq> [] \<and> (\<forall>x \<in> descheduled s. GetPolicyName x = ?p \<longrightarrow> x \<in> own ?p ?old)" "descheduled s = descheduled st"
      if "name = deschedule_StrategyType"
    proof -
      show before: "descheduled s = descheduled st" using I entry(2) own_fresh that by simp
      show "Rules d0 \<noteq> [] \<and> (\<forall>x \<in> descheduled s. GetPolicyName x = ?p \<longrightarrow> x \<in> own ?p ?old)"
        unfolding before using own assms(4) d0 that wf_map_lookup [OF wf(2)] by (simp add: valid_policy_def)
    qed
    note replaced = replaced_strategy [OF s1 s'(1) ok orders(2) cast wf(2) d0 desched(1)]
    have "descheduled s' = (if deschedule_StrategyType \<in> fst ` set (sofar @ [e])
        then others ?p (descheduled st) else descheduled st) \<union> own ?p (sofar @ [e])"
      using replaced(4) desched(2) I entry(2) own_fresh by (cases "name = deschedule_StrategyType") (simp_all add: e)
    moreover have "users (tas_Cache s') m = users c m - ?gone (sofar @ [e]) m + metric_uses (sofar @ [e]) m" if "m \<noteq> []" for m
      using replaced(3) [OF _ that] I that by (simp add: e gm_getd_Some [OF d0])
    moreover have "state_ok s'" "cache_ReadPolicy (tas_Cache s') = cache_ReadPolicy c" using replaced(1,2) I by simp_all
    ultimately show "\<exists>s'. r = Inr s' \<and> ?I (sofar @ [e]) s'" using s'(2) by blast
  qed
  then obtain s' where s': "st' = s'" "?I (ord (Strategies pol)) s'" using r(2) by auto
  have keys: "fst ` set (ord (Strategies pol)) = fst ` set (Strategies pol)" using range_order_set [OF orders(1)] by simp
  have "?gone (ord (Strategies pol)) m = metric_uses ?old m"
  proof -
    have "?gone (ord (Strategies pol)) m = ?gone (Strategies pol) m"
      by (intro sum_list_perm range_order_mset orders(1))
    then show ?thesis using old_uses [OF wf(2,1) same(2)] by simp
  qed
  then show "state_ok st'"
    "m \<noteq> [] \<Longrightarrow> users (tas_Cache st') m = users (tas_Cache st) m - metric_uses ?old m + metric_uses (Strategies pol) m"
    "cache_ReadPolicy (tas_Cache st') ns p = (if policyPath ns p = policyPath (tas_namespace pol) ?p
       then Inr pol else cache_ReadPolicy (tas_Cache st) ns p)"
    using s' st0 WritePolicy_read(1) [OF c] by (simp_all add: metric_uses_order orders(1))
  have "others ?p (descheduled st) = descheduled st" if "deschedule_StrategyType \<notin> fst ` set (Strategies pol)"
    using own own_fresh [of ?old] that same(2) by auto
  then show "descheduled st' = others ?p (descheduled st) \<union> own ?p (Strategies pol)"
    using s' unfolding keys own_order [OF orders(1)] by auto
qed

subsection \<open>The life of the controller\<close>

text \<open>The state that the program starts with (\<^verbatim>\<open>cmd/main.go\<close>): an empty cache, the four types registered.\<close>

definition tas_start :: "'k \<Rightarrow> 'k tas_state" where
  "tas_start k =
     \<lparr>tas_Cache = NewAutoUpdatingCache,
      tas_Enforcer = RegisterStrategyType (Labeling zero_strategy)
        (RegisterStrategyType (DontSchedule zero_strategy)
          (RegisterStrategyType (ScheduleOnMetric zero_strategy)
            (RegisterStrategyType (Deschedule zero_strategy) NewEnforcer))),
      tas_World = k\<rparr>"

text \<open>
  The live policies and the state after any sequence of events: the informer's events for policies with distinct
  names, where an update keeps the strategy types of the policy, and between them rounds of the periodic update of the
  metrics and of enforcement.
\<close>

inductive controller_reachable :: "'k kube_client \<Rightarrow> tas_policy list \<Rightarrow> 'k tas_state \<Rightarrow> bool"
  for kube :: "'k kube_client" where
  start: "controller_reachable kube [] (tas_start k)"
| policy_added: "controller_reachable kube live st \<Longrightarrow> valid_policy pol \<Longrightarrow> tas_name pol \<notin> tas_name ` set live \<Longrightarrow>
    range_order ord \<Longrightarrow> range_order (by_strategy ords) \<Longrightarrow>
    onAdd ords ord (Some pol) st = Some st' \<Longrightarrow> controller_reachable kube (pol # live) st'"
| policy_updated: "controller_reachable kube live st \<Longrightarrow> old \<in> set live \<Longrightarrow> valid_policy pol \<Longrightarrow>
    tas_name old = tas_name pol \<Longrightarrow> tas_namespace old = tas_namespace pol \<Longrightarrow>
    fst ` set (Strategies old) = fst ` set (Strategies pol) \<Longrightarrow>
    range_order ord \<Longrightarrow> range_order (by_strategy ords) \<Longrightarrow>
    onUpdate ords ord kube (Some old) (Some pol) st = Some st' \<Longrightarrow>
    controller_reachable kube (pol # remove1 old live) st'"
| policy_deleted: "controller_reachable kube live st \<Longrightarrow> pol \<in> set live \<Longrightarrow>
    range_order ord \<Longrightarrow> range_order (by_strategy ords) \<Longrightarrow>
    onDelete ords ord kube (Some pol) st = Some st' \<Longrightarrow> controller_reachable kube (remove1 pol live) st'"
| metrics_refreshed: "controller_reachable kube live st \<Longrightarrow> range_order ord \<Longrightarrow>
    updateAllMetrics ord (GetNodeMetric api) (tas_Cache st) = Some c \<Longrightarrow>
    controller_reachable kube live (st\<lparr>tas_Cache := c\<rparr>)"
| strategies_enforced: "controller_reachable kube live st \<Longrightarrow>
    EnforceRegisteredStrategies ords kube (cache_reader (tas_Cache st)) (tas_Enforcer st, tas_World st) = (e, k) \<Longrightarrow>
    controller_reachable kube live (st\<lparr>tas_Enforcer := e, tas_World := k\<rparr>)"

definition total_uses :: "tas_policy list \<Rightarrow> string \<Rightarrow> int" where
  "total_uses live m = (\<Sum>pol\<leftarrow>live. metric_uses (Strategies pol) m)"

definition controller_inv :: "tas_policy list \<Rightarrow> 'k tas_state \<Rightarrow> bool" where
  "controller_inv live st \<longleftrightarrow> state_ok st \<and> distinct (map tas_name live) \<and> (\<forall>pol \<in> set live. valid_policy pol) \<and>
     (\<forall>m. m \<noteq> [] \<longrightarrow> users (tas_Cache st) m = total_uses live m) \<and>
     (\<forall>pol \<in> set live. cache_ReadPolicy (tas_Cache st) (tas_namespace pol) (tas_name pol) = Inr pol) \<and>
     descheduled st = (\<Union>pol \<in> set live. own (tas_name pol) (Strategies pol))"

lemma enforce_keeps_registry: "fst (EnforceRegisteredStrategies ords kube cache (e, k)) = e"
proof -
  have "fst (enforceStrategy ords kube t cache s) = fst s" for t s
    by (simp add: enforceStrategy_def split: prod.splits option.splits)
  then have "fst (fold (\<lambda>t s. enforceStrategy ords kube t cache s) ts s) = fst s" for ts s
    by (induction ts arbitrary: s) simp_all
  then show ?thesis by (simp add: EnforceRegisteredStrategies_def)
qed

lemma RegisterStrategyType_lookup:
  "map_of (RegisteredStrategies (RegisterStrategyType s e)) t =
     (if t = StrategyType s then Some [] else map_of (RegisteredStrategies e) t)"
  "strategies_of (RegisterStrategyType s e) t = (if t = StrategyType s then [] else strategies_of e t)"
  by (simp_all add: RegisterStrategyType_def strategies_of_def)

lemma start_inv: "controller_inv [] (tas_start k)"
proof -
  have "registry_reachable demo_kube (tas_Enforcer (tas_start k))"
    unfolding tas_start_def tas_state.simps by (intro registry_reachable.intros)
  then have "registry_ok (tas_Enforcer (tas_start k))" by (rule registry_ok_reachable)
  moreover have "cache_ok NewAutoUpdatingCache"
    by (simp add: cache_ok_def NewAutoUpdatingCache_def reader_ok_def cache_ReadMetric_def read_key_lookup)
  ultimately show ?thesis
    by (simp add: controller_inv_def state_ok_def total_uses_def descheduled_def tas_start_def RegisterStrategyType_lookup
        NewEnforcer_def)
      (simp add: NewAutoUpdatingCache_def strategies_of_def)
qed

lemma distinct_paths:
  assumes "valid_policy a" "valid_policy b" "tas_name a \<noteq> tas_name b"
  shows "policyPath (tas_namespace a) (tas_name a) \<noteq> policyPath (tas_namespace b) (tas_name b)"
  using assms policyPath_inject [of "tas_namespace a" "tas_namespace b"] by (simp add: valid_policy_def)

lemma remove1_names:
  assumes "distinct (map tas_name live)" "old \<in> set live"
  shows "set (remove1 old live) = {q \<in> set live. tas_name q \<noteq> tas_name old}"
proof -
  have "distinct live" using assms(1) by (simp add: distinct_map)
  moreover have "q = old" if "q \<in> set live" "tas_name q = tas_name old" for q
    using assms that by (simp add: distinct_map inj_on_def)
  ultimately show ?thesis by auto
qed

lemma own_of_live:
  assumes "controller_inv live st" "pol \<in> set live"
  shows "\<forall>s \<in> descheduled st. GetPolicyName s = tas_name pol \<longrightarrow> s \<in> own (tas_name pol) (Strategies pol)"
proof (intro ballI impI)
  fix s assume s: "s \<in> descheduled st" "GetPolicyName s = tas_name pol"
  then obtain q where q: "q \<in> set live" "s \<in> own (tas_name q) (Strategies q)" using assms(1) by (auto simp: controller_inv_def)
  then have "tas_name q = tas_name pol" using own_name s(2) by metis
  then have "q = pol" using assms(1,2) q(1) by (auto simp: controller_inv_def distinct_map inj_on_def)
  with q show "s \<in> own (tas_name pol) (Strategies pol)" by simp
qed

lemma others_live:
  assumes "controller_inv live st" "pol \<in> set live"
  shows "others (tas_name pol) (descheduled st) = (\<Union>q \<in> set (remove1 pol live). own (tas_name q) (Strategies q))"
proof -
  have "distinct (map tas_name live)" using assms(1) by (simp add: controller_inv_def)
  from remove1_names [OF this assms(2)] show ?thesis using assms(1) own_name by (fastforce simp: controller_inv_def)
qed

lemma total_uses_remove: "pol \<in> set live \<Longrightarrow> total_uses live m = metric_uses (Strategies pol) m + total_uses (remove1 pol live) m"
  by (simp add: total_uses_def sum_list_map_remove1)

lemma added_inv:
  assumes "controller_inv live st" "valid_policy pol" "tas_name pol \<notin> tas_name ` set live"
    and "range_order ord" "range_order (by_strategy ords)" "onAdd ords ord (Some pol) st = Some st'"
  shows "controller_inv (pol # live) st'"
proof -
  have ok: "state_ok st" using assms(1) by (simp add: controller_inv_def)
  have fresh: "\<forall>s \<in> descheduled st. GetPolicyName s \<noteq> tas_name pol"
  proof
    fix s assume s: "s \<in> descheduled st"
    have D: "descheduled st = (\<Union>pol \<in> set live. own (tas_name pol) (Strategies pol))"
      using assms(1) by (simp add: controller_inv_def)
    from s [unfolded D] obtain q where q: "q \<in> set live" "s \<in> own (tas_name q) (Strategies q)" by (rule UN_E)
    have "tas_name q \<noteq> tas_name pol" using assms(3) q(1) by (metis imageI)
    then show "GetPolicyName s \<noteq> tas_name pol" using own_name [OF q(2)] by simp
  qed
  note effect = onAdd_effect [OF assms(6) ok assms(2,4,5) fresh]
  have "policyPath (tas_namespace q) (tas_name q) \<noteq> policyPath (tas_namespace pol) (tas_name pol)" if "q \<in> set live" for q
  proof (rule distinct_paths)
    show "valid_policy q" "valid_policy pol" using that assms(1) assms(2) by (simp_all add: controller_inv_def)
    show "tas_name q \<noteq> tas_name pol" using assms(3) that by (metis imageI)
  qed
  then show ?thesis using assms(1) effect assms(2,3)
    by (auto simp: controller_inv_def total_uses_def)
qed

lemma updated_inv:
  assumes "controller_inv live st" "old \<in> set live" "valid_policy pol" "tas_name old = tas_name pol"
    and "tas_namespace old = tas_namespace pol" "fst ` set (Strategies old) = fst ` set (Strategies pol)"
    and "range_order ord" "range_order (by_strategy ords)" "onUpdate ords ord kube (Some old) (Some pol) st = Some st'"
  shows "controller_inv (pol # remove1 old live) st'"
proof -
  let ?rest = "remove1 old live"
  have ok: "state_ok st" "distinct (map tas_name live)" "valid_policy old" using assms(2) assms(1)
    by (simp_all add: controller_inv_def)
  have own: "\<forall>s \<in> descheduled st. GetPolicyName s = tas_name pol \<longrightarrow> s \<in> own (tas_name pol) (Strategies old)"
    using own_of_live [OF assms(1) assms(2)] assms(4) by simp
  note effect = onUpdate_effect [OF assms(9) ok(1) assms(3) ok(3) assms(7,8,4,6) own]
  have rest: "q \<in> set live" "tas_name q \<noteq> tas_name pol" "valid_policy q" if "q \<in> set ?rest" for q
    using that remove1_names [OF ok(2) assms(2)] assms(4) assms(1) by (auto simp: controller_inv_def)
  have "policyPath (tas_namespace q) (tas_name q) \<noteq> policyPath (tas_namespace pol) (tas_name pol)" if "q \<in> set ?rest" for q
    using rest [OF that] assms(3) by (intro distinct_paths)
  then have read: "\<forall>q \<in> set (pol # ?rest). cache_ReadPolicy (tas_Cache st') (tas_namespace q) (tas_name q) = Inr q"
    using effect(4) rest assms(1) by (auto simp: controller_inv_def)
  have "distinct (map tas_name ?rest)" using ok(2) by (auto simp: distinct_map inj_on_def)
  moreover have "tas_name pol \<notin> tas_name ` set ?rest" using rest(2) by (metis imageE)
  ultimately have "distinct (map tas_name (pol # ?rest))" by simp
  moreover have "descheduled st' = (\<Union>q \<in> set (pol # ?rest). own (tas_name q) (Strategies q))"
    using effect(3) others_live [OF assms(1) assms(2)] assms(4) by (simp add: Un_commute)
  moreover have "users (tas_Cache st') m = total_uses (pol # ?rest) m" if "m \<noteq> []" for m
    using effect(2) [OF that] that assms(1) total_uses_remove [OF assms(2), of m]
    by (simp add: controller_inv_def total_uses_def)
  ultimately show ?thesis using effect(1) read rest(3) assms(3) by (auto simp: controller_inv_def)
qed

lemma deleted_inv:
  assumes "controller_inv live st" "pol \<in> set live" "range_order ord" "range_order (by_strategy ords)"
    and "onDelete ords ord kube (Some pol) st = Some st'"
  shows "controller_inv (remove1 pol live) st'"
proof -
  let ?rest = "remove1 pol live"
  have ok: "state_ok st" "distinct (map tas_name live)" "valid_policy pol" using assms(2) assms(1)
    by (simp_all add: controller_inv_def)
  note effect = onDelete_effect [OF assms(5) ok(1,3) assms(3,4) own_of_live [OF assms(1) assms(2)]]
  have rest: "q \<in> set live" "tas_name q \<noteq> tas_name pol" "valid_policy q" if "q \<in> set ?rest" for q
    using that remove1_names [OF ok(2) assms(2)] assms(1) by (auto simp: controller_inv_def)
  have "policyPath (tas_namespace q) (tas_name q) \<noteq> policyPath (tas_namespace pol) (tas_name pol)" if "q \<in> set ?rest" for q
    using rest [OF that] ok(3) by (intro distinct_paths)
  moreover have "cache_ReadPolicy (tas_Cache st) (tas_namespace q) (tas_name q) = Inr q" if "q \<in> set ?rest" for q
    using rest(1) [OF that] assms(1) by (simp add: controller_inv_def)
  ultimately have "\<forall>q \<in> set ?rest. cache_ReadPolicy (tas_Cache st') (tas_namespace q) (tas_name q) = Inr q"
    by (simp add: effect(4))
  moreover have "distinct (map tas_name ?rest)" using ok(2) by (auto simp: distinct_map inj_on_def)
  moreover have "descheduled st' = (\<Union>q \<in> set ?rest. own (tas_name q) (Strategies q))"
    using effect(3) others_live [OF assms(1) assms(2)] by simp
  moreover have "users (tas_Cache st') m = total_uses ?rest m" if "m \<noteq> []" for m
    using effect(2) [OF that] that assms(1) total_uses_remove [OF assms(2), of m]
    by (simp add: controller_inv_def)
  ultimately show ?thesis using effect(1) rest(3) unfolding controller_inv_def by blast
qed

lemma controller_inv_reachable: "controller_reachable kube live st \<Longrightarrow> controller_inv live st"
proof (induction rule: controller_reachable.induct)
  case (start k)
  show ?case by (rule start_inv)
next
  case (policy_added live st pol ord ords st')
  from added_inv [OF policy_added.IH policy_added(2-6)] show ?case .
next
  case (policy_updated live st old pol ord ords st')
  from updated_inv [OF policy_updated.IH policy_updated(2-9)] show ?case .
next
  case (policy_deleted live st pol ord ords st')
  from deleted_inv [OF policy_deleted.IH policy_deleted(2-5)] show ?case .
next
  case (metrics_refreshed live st ord api c)
  have ok: "cache_ok (tas_Cache st)" using metrics_refreshed.IH by (simp add: controller_inv_def state_ok_def)
  from updateAllMetrics_round [OF ok metrics_refreshed(2), of "GetNodeMetric api"] GetNodeMetric_answers metrics_refreshed(3)
  have c: "cache_ok c" "metricMap c = (if [] \<in> fst ` set (metricMap (tas_Cache st))
      then AList.delete [] (metricMap (tas_Cache st)) else metricMap (tas_Cache st))"
    "cache_ReadPolicy c = cache_ReadPolicy (tas_Cache st)" by auto
  have "users c m = users (tas_Cache st) m" if "m \<noteq> []" for m using that by (simp add: c(2) gm_getd_def)
  then show ?case using metrics_refreshed.IH c(1,3) by (simp add: controller_inv_def state_ok_def)
next
  case (strategies_enforced live st ords e k)
  then have "e = tas_Enforcer st" using enforce_keeps_registry [of ords kube _ "tas_Enforcer st" "tas_World st"] by (metis fst_conv)
  then show ?case using strategies_enforced.IH by (simp add: controller_inv_def state_ok_def descheduled_def)
qed


definition demo_policy :: tas_policy where
  "demo_policy = \<lparr>tas_name = ''p'', tas_namespace = ''default'',
     Strategies = [(deschedule_StrategyType, demo_strategy '''' [demo_rule ''GreaterThan'' 50 []]),
       (dontschedule_StrategyType, demo_strategy '''' [demo_rule ''GreaterThan'' 40 []])]\<rparr>"

lemma valid_demo_policy: "valid_policy demo_policy"
  by (auto simp: valid_policy_def demo_policy_def strategy_types_def wf_map_def demo_strategy_def
      deschedule_StrategyType_def dontschedule_StrategyType_def)

lemma onAdd_demo_world: "map_option tas_World (onAdd demo_orders id (Some demo_policy) (tas_start demo_cluster)) = Some demo_cluster"
  by code_simp

lemma reachable_demo: "\<exists>st. controller_reachable demo_kube [demo_policy] st \<and> tas_World st = demo_cluster"
proof -
  obtain st where st: "onAdd demo_orders id (Some demo_policy) (tas_start demo_cluster) = Some st" "tas_World st = demo_cluster"
    using onAdd_demo_world by auto
  have "range_order (by_strategy demo_orders)" by (simp add: demo_orders_def)
  from controller_reachable.policy_added [OF controller_reachable.start valid_demo_policy _ range_order_id this st(1), of demo_kube]
  show ?thesis using st(2) by auto
qed


subsection \<open>The components together\<close>

text \<open>The policies with a deschedule strategy, and those of them that a node violates.\<close>

definition descheduling :: "tas_policy list \<Rightarrow> string set" where
  "descheduling live = {tas_name pol | pol s. pol \<in> set live \<and> (deschedule_StrategyType, s) \<in> set (Strategies pol)}"

definition descheduling_violated :: "tas_policy list \<Rightarrow> tas_reader \<Rightarrow> string \<Rightarrow> string set" where
  "descheduling_violated live cache n =
     {tas_name pol | pol s. pol \<in> set live \<and> (deschedule_StrategyType, s) \<in> set (Strategies pol) \<and> violates cache n s}"

lemma violates_renamed [simp]: "violates cache n (s\<lparr>PolicyName := p\<rparr>) = violates cache n s"
  by (simp add: violates_def)

lemma live_registry:
  assumes "controller_inv live st"
  shows "deschedule_registry (tas_Enforcer st)" "registered_policies (tas_Enforcer st) = descheduling live"
    "violated_policies (tas_Enforcer st) cache n = descheduling_violated live cache n"
proof -
  let ?S = "set (strategies_of (tas_Enforcer st) deschedule_StrategyType)"
  have S: "?S = (\<Union>pol \<in> set live. own (tas_name pol) (Strategies pol))" using assms
    by (simp add: controller_inv_def descheduled_def)
  have "StrategyType s = deschedule_StrategyType" if "s \<in> ?S" for s
    using that assms by (simp add: controller_inv_def state_ok_def registry_ok_def)
  moreover have "CHR ''~'' \<notin> set (GetPolicyName s)" if "s \<in> ?S" for s
    using that assms own_name [of s] unfolding S by (auto simp: controller_inv_def valid_policy_def)
  ultimately show "deschedule_registry (tas_Enforcer st)" by (simp add: deschedule_registry_def)
  have "GetPolicyName ` own p es = (if \<exists>s. (deschedule_StrategyType, s) \<in> set es then {p} else {})" for p es
  proof -
    have "GetPolicyName ` own p es = (\<lambda>x. p) ` own p es" by (rule image_cong [OF refl own_name])
    then show ?thesis by (auto simp: own_def)
  qed
  then show "registered_policies (tas_Enforcer st) = descheduling live"
    unfolding registered_policies_def S image_UN descheduling_def by (auto split: if_splits)
  have "{GetPolicyName s | s. s \<in> own p es \<and> violates cache n (strategy_data s)} =
      (if \<exists>s. (deschedule_StrategyType, s) \<in> set es \<and> violates cache n s then {p} else {})" for p es
  proof -
    have in_own: "\<exists>s' \<in> own p es. GetPolicyName s' = p \<and> violates cache n (strategy_data s')"
      if "(deschedule_StrategyType, s) \<in> set es" "violates cache n s" for s
      using that by (intro bexI [of _ "SetPolicyName p (Deschedule s)"]) (auto simp: own_def GetPolicyName_def)
    have from_own: "(\<exists>s'. (deschedule_StrategyType, s') \<in> set es \<and> violates cache n s') \<and> GetPolicyName s = p"
      if "s \<in> own p es" "violates cache n (strategy_data s)" for s
      using that by (auto simp: own_def GetPolicyName_def)
    show ?thesis
    proof (cases "\<exists>s. (deschedule_StrategyType, s) \<in> set es \<and> violates cache n s")
      case True
      then obtain s where "s \<in> own p es" "GetPolicyName s = p" "violates cache n (strategy_data s)" using in_own by blast
      with from_own True show ?thesis by auto
    next
      case False
      then show ?thesis using from_own by auto
    qed
  qed
  moreover have "violated_policies (tas_Enforcer st) cache n =
      (\<Union>pol \<in> set live. {GetPolicyName s | s. s \<in> own (tas_name pol) (Strategies pol) \<and> violates cache n (strategy_data s)})"
    unfolding violated_policies_def S by blast
  ultimately show "violated_policies (tas_Enforcer st) cache n = descheduling_violated live cache n"
    by (auto simp: descheduling_violated_def split: if_splits)
qed





text \<open>
  An update that takes a strategy type out of a policy leaves that strategy registered and its metric counted: the
  loop runs over the strategies of the new policy only.
\<close>

lemma onUpdate_keeps_dropped_strategy:
  "case (do {
       st \<leftarrow> onAdd demo_orders id (Some demo_policy) (tas_start demo_cluster);
       onUpdate demo_orders id demo_kube (Some demo_policy) (Some (demo_policy\<lparr>Strategies := []\<rparr>)) st
     }) of
     None \<Rightarrow> False
   | Some st \<Rightarrow> users (tas_Cache st) ''power'' = 2 \<and>
       map GetPolicyName (strategies_of (tas_Enforcer st) deschedule_StrategyType) = [''p'']"
  by code_simp

end
