(* ===== verification/Tas_Scheduler.thy ===== *)
theory Tas_Scheduler
  imports Tas_Strategies Http
begin

text \<open>
  The scheduler extender of TAS (\<^verbatim>\<open>telemetryscheduler/telemetryscheduler.go\<close>): the answers to the filter
  and prioritize requests for a pod whose label names a policy. The cache is read through
  \<open>tas_reader\<close>; a panic (a nil pod) is \<open>None\<close>.
\<close>

subsection \<open>Requests and results\<close>

record tas_pod =
  tp_name :: string
  tp_namespace :: string
  tp_labels :: "(string, string) gomap option"

record tas_args =
  tas_Pod :: "tas_pod option"
  tas_Nodes :: "node list option"

record tas_filter_result =
  fr_Nodes :: "node list option"
  fr_NodeNames :: "string list option"
  fr_FailedNodes :: "(string, string) gomap"
  fr_Error :: string

record host_priority =
  Host :: string
  Score :: int64

definition maxScore :: int where "maxScore = 10"

definition tasPolicy :: string where "tasPolicy = ''telemetry-policy''"

text \<open>
  The body is nil or some text; the JSON decoder and an error of closing the body are parameters. The request's
  node list may be nil.
\<close>

definition DecodeExtenderRequest ::
  "(string \<Rightarrow> tas_args option) \<Rightarrow> string option \<Rightarrow> string option \<Rightarrow> tas_error + tas_args" where
  "DecodeExtenderRequest decode close_error body =
     (case body of
        None \<Rightarrow> Inl EmptyRequestBody
      | Some text \<Rightarrow>
          (case decode text of
             None \<Rightarrow> Inl DecodeError
           | Some args \<Rightarrow>
               (case close_error of
                  Some err \<Rightarrow> Inl (CloseError err)
                | None \<Rightarrow> if tas_Nodes args = None then Inl NoNodes else Inr args)))"

subsection \<open>The policy of a pod and its rules\<close>

definition getPolicyFromPod :: "tas_reader \<Rightarrow> tas_pod \<Rightarrow> tas_error + tas_policy" where
  "getPolicyFromPod cache pod =
     (case nil_get (tp_labels pod) ''telemetry-policy'' of
        Some policyName \<Rightarrow> ReadPolicy cache (tp_namespace pod) policyName
      | None \<Rightarrow> Inl (NoPolicyForPod (tp_name pod)))"

definition getSchedulingRule :: "tas_policy \<Rightarrow> tas_error + tas_rule" where
  "getSchedulingRule policy =
     (case map_of (Strategies policy) scheduleonmetric_StrategyType of
        None \<Rightarrow> Inl NoRules
      | Some s \<Rightarrow>
          if 0 < length (Rules s)
          then let out = Rules s ! 0 in if 0 < length (Metricname out) then Inr out else Inl NoRules
          else Inl NoRules)"

definition getDontScheduleStrategy :: "tas_policy \<Rightarrow> tas_error + tas_strategy" where
  "getDontScheduleStrategy policy =
     (let rawStrategy = gm_getd \<lparr>PolicyName = [], LogicalOperator = [], Rules = []\<rparr> (Strategies policy)
            dontschedule_StrategyType
      in if length (Rules rawStrategy) = 0 then Inl NoDontschedule else Inr rawStrategy)"

subsection \<open>Priorities\<close>

definition prioritizeNodesForRule ::
  "(node_sortable_metric list \<Rightarrow> node_sortable_metric list) \<Rightarrow> tas_reader \<Rightarrow> tas_rule \<Rightarrow> node list \<Rightarrow>
   tas_error + host_priority list" where
  "prioritizeNodesForRule ord cache rule nodes =
     (case ReadMetric cache (Metricname rule) of
        Inl err \<Rightarrow> Inl err
      | Inr nodeData \<Rightarrow>
          (let filteredNodeData = fold (\<lambda>node data.
                 case map_of nodeData (node_name node) of
                   Some v \<Rightarrow> AList.update (node_name node) v data
                 | None \<Rightarrow> data) nodes [];
               orderedNodes = OrderedList ord filteredNodeData (Operator rule)
           in Inr (map (\<lambda>(i, node). \<lparr>Host = NodeName node, Score = word_of_int (maxScore - i)\<rparr>)
                (zip (map int [0..<length orderedNodes]) orderedNodes))))"

definition prioritizeNodes ::
  "(node_sortable_metric list \<Rightarrow> node_sortable_metric list) \<Rightarrow> tas_reader \<Rightarrow> tas_pod \<Rightarrow> node list \<Rightarrow>
   host_priority list option" where
  "prioritizeNodes ord cache pod nodes =
     (case getPolicyFromPod cache pod of
        Inl err \<Rightarrow> Some []
      | Inr policy \<Rightarrow>
          (case getSchedulingRule policy of
             Inl err \<Rightarrow> Some []
           | Inr scheduleRule \<Rightarrow>
               (case prioritizeNodesForRule ord cache scheduleRule nodes of
                  Inl err \<Rightarrow> Some []
                | Inr chosenNodes \<Rightarrow> Some chosenNodes)))"

definition WritePrioritizeResponse ::
  "(host_priority list option \<Rightarrow> string option) \<Rightarrow> host_priority list option \<Rightarrow> http_writer \<Rightarrow> http_writer" where
  "WritePrioritizeResponse encode result w =
     (case encode result of
        Some text \<Rightarrow> write_body text w
      | None \<Rightarrow> http_error ''Encode error '' 400 w)"

text \<open>The answer to a request without a policy label is not cut short after its status is set.\<close>

definition tas_Prioritize ::
  "(node_sortable_metric list \<Rightarrow> node_sortable_metric list) \<Rightarrow> tas_reader \<Rightarrow> (string \<Rightarrow> tas_args option) \<Rightarrow>
   (host_priority list option \<Rightarrow> string option) \<Rightarrow> string option \<Rightarrow> string option \<Rightarrow> http_writer \<Rightarrow>
   http_writer option" where
  "tas_Prioritize ord cache decode encode close_error body w =
     (case DecodeExtenderRequest decode close_error body of
        Inl err \<Rightarrow> Some w
      | Inr extenderArgs \<Rightarrow> do {
          nodes \<leftarrow> tas_Nodes extenderArgs;
          if length nodes = 0 then Some w
          else do {
            pod \<leftarrow> tas_Pod extenderArgs;
            let w = (if nil_get (tp_labels pod) tasPolicy = None then write_header 400 w else w);
            let prioritizedNodes = prioritizeNodes ord cache pod nodes;
            let w = (if prioritizedNodes = None then write_header 404 w else w);
            Some (WritePrioritizeResponse encode prioritizedNodes w)
          }
        })"

subsection \<open>Filtering\<close>

text \<open>
  \<open>strings.Join([]string{"Node violates"}, policy.Name)\<close> joins one string: the name is only the
  separator.
\<close>

fun strings_Join :: "string list \<Rightarrow> string \<Rightarrow> string" where
  "strings_Join [] sep = []"
| "strings_Join [x] sep = x"
| "strings_Join (x # y # ys) sep = x @ sep @ strings_Join (y # ys) sep"

definition filter_node ::
  "violations \<Rightarrow> tas_policy \<Rightarrow> node \<Rightarrow> node list \<times> (string, string) gomap \<times> string \<Rightarrow>
   node list \<times> (string, string) gomap \<times> string" where
  "filter_node violatingNodes policy node state =
     (case state of (filteredNodes, failedNodes, availableNodeNames) \<Rightarrow>
        case map_of violatingNodes (node_name node) of
          Some _ \<Rightarrow>
            (filteredNodes,
             AList.update (node_name node) (strings_Join [''Node violates''] (tas_name policy)) failedNodes,
             availableNodeNames)
        | None \<Rightarrow> (filteredNodes @ [node], failedNodes, availableNodeNames @ node_name node @ '' ''))"

definition tas_filterNodes :: "tas_reader \<Rightarrow> tas_pod \<Rightarrow> node list \<Rightarrow> tas_filter_result option" where
  "tas_filterNodes cache pod nodes =
     (case getPolicyFromPod cache pod of
        Inl err \<Rightarrow> None
      | Inr policy \<Rightarrow>
          (case getDontScheduleStrategy policy of
             Inl err \<Rightarrow> Some \<lparr>fr_Nodes = Some nodes, fr_NodeNames = None, fr_FailedNodes = [], fr_Error = []\<rparr>
           | Inr dontscheduleStrategy \<Rightarrow>
               (let violatingNodes = dontschedule_Violated cache dontscheduleStrategy
                in if length nodes = 0 then None
                   else (case fold (filter_node violatingNodes policy) nodes ([], [], []) of
                           (filteredNodes, failedNodes, availableNodeNames) \<Rightarrow>
                             Some \<lparr>fr_Nodes = Some filteredNodes,
                               fr_NodeNames = Some (split_on CHR '' '' availableNodeNames),
                               fr_FailedNodes = failedNodes, fr_Error = []\<rparr>))))"

definition WriteFilterResponse ::
  "(tas_filter_result option \<Rightarrow> string option) \<Rightarrow> tas_filter_result option \<Rightarrow> http_writer \<Rightarrow> http_writer" where
  "WriteFilterResponse encode result w =
     (case encode result of
        Some text \<Rightarrow> write_body text w
      | None \<Rightarrow> http_error ''Encode error'' 400 w)"

definition tas_Filter ::
  "tas_reader \<Rightarrow> (string \<Rightarrow> tas_args option) \<Rightarrow> (tas_filter_result option \<Rightarrow> string option) \<Rightarrow>
   string option \<Rightarrow> string option \<Rightarrow> http_writer \<Rightarrow> http_writer option" where
  "tas_Filter cache decode encode close_error body w =
     (case DecodeExtenderRequest decode close_error body of
        Inl err \<Rightarrow> Some w
      | Inr extenderArgs \<Rightarrow> do {
          pod \<leftarrow> tas_Pod extenderArgs;
          nodes \<leftarrow> tas_Nodes extenderArgs;
          let filteredNodes = tas_filterNodes cache pod nodes;
          let w = (if filteredNodes = None then write_header 404 w else w);
          Some (WriteFilterResponse encode filteredNodes w)
        })"

definition tas_Bind :: "http_writer \<Rightarrow> http_writer" where
  "tas_Bind w = write_header 404 w"

subsection \<open>What a filter request answers\<close>

lemma filter_node_loop:
  "fold (filter_node viol policy) nodes (kept, failed, names) =
     (kept @ filter (\<lambda>n. map_of viol (node_name n) = None) nodes,
      fold (\<lambda>n. AList.update (node_name n) ''Node violates'') (filter (\<lambda>n. map_of viol (node_name n) \<noteq> None) nodes) failed,
      names @ concat (map (\<lambda>n. node_name n @ '' '') (filter (\<lambda>n. map_of viol (node_name n) = None) nodes)))"
  by (induction nodes arbitrary: kept failed names) (auto simp: filter_node_def split: option.splits)

lemma map_of_fold_const: "map_of (fold (\<lambda>n. AList.update (f n) v) xs m) k = (if k \<in> f ` set xs then Some v else map_of m k)"
  by (induction xs arbitrary: m) (auto simp: update_conv')

lemma split_names:
  "(\<And>n. n \<in> set names \<Longrightarrow> CHR '' '' \<notin> set n) \<Longrightarrow> split_on CHR '' '' (concat (map (\<lambda>n. n @ '' '') names)) = names @ [[]]"
  by (induction names) (auto simp: split_on_append)

text \<open>The nodes of a request that do not violate a strategy, in the order of the request.\<close>

definition keeps :: "tas_reader \<Rightarrow> tas_strategy \<Rightarrow> node list \<Rightarrow> node list" where
  "keeps cache s nodes = filter (\<lambda>n. \<not> violates cache (node_name n) s) nodes"

lemma tas_filter_strategy:
  assumes "reader_ok cache" "getPolicyFromPod cache pod = Inr policy" "getDontScheduleStrategy policy = Inr s" "nodes \<noteq> []"
  shows "\<exists>names failed. tas_filterNodes cache pod nodes =
      Some \<lparr>fr_Nodes = Some (keeps cache s nodes), fr_NodeNames = Some names, fr_FailedNodes = failed, fr_Error = []\<rparr> \<and>
    map_of failed = (\<lambda>n. if n \<in> node_name ` set nodes \<and> violates cache n s then Some ''Node violates'' else None) \<and>
    ((\<forall>n \<in> set nodes. CHR '' '' \<notin> set (node_name n)) \<longrightarrow> names = map node_name (keeps cache s nodes) @ [[]])"
proof -
  have kept: "filter (\<lambda>n. map_of (dontschedule_Violated cache s) (node_name n) = None) nodes = keeps cache s nodes"
    by (simp add: keeps_def dontschedule_violates [OF assms(1)])
  have failed: "map_of (fold (\<lambda>n. AList.update (node_name n) ''Node violates'')
      (filter (\<lambda>n. map_of (dontschedule_Violated cache s) (node_name n) \<noteq> None) nodes) []) =
    (\<lambda>n. if n \<in> node_name ` set nodes \<and> violates cache n s then Some ''Node violates'' else None)"
    by (auto simp: fun_eq_iff map_of_fold_const dontschedule_violates [OF assms(1)])
  have "split_on CHR '' '' (concat (map (\<lambda>n. node_name n @ '' '') (keeps cache s nodes))) = map node_name (keeps cache s nodes) @ [[]]"
    if "\<forall>n \<in> set nodes. CHR '' '' \<notin> set (node_name n)"
    using split_names [of "map node_name (keeps cache s nodes)"] that by (auto simp: keeps_def comp_def)
  then show ?thesis using assms(2-4) failed
    by (simp add: tas_filterNodes_def filter_node_loop kept)
qed

text \<open>C14: the answer to a filter request. Without a readable policy there is no result; without dontschedule
  rules every node passes; otherwise, unless the request names no node, exactly the nodes that violate the
  dontschedule strategy are failed nodes, the others are returned in the order of the request, and their names are
  listed with one empty name at the end.\<close>

theorem tas_filterNodes_answer:
  assumes "reader_ok cache"
  shows "case getPolicyFromPod cache pod of
      Inl err \<Rightarrow> tas_filterNodes cache pod nodes = None
    | Inr policy \<Rightarrow>
        (case getDontScheduleStrategy policy of
           Inl err \<Rightarrow> tas_filterNodes cache pod nodes =
             Some \<lparr>fr_Nodes = Some nodes, fr_NodeNames = None, fr_FailedNodes = [], fr_Error = []\<rparr>
         | Inr s \<Rightarrow>
             if nodes = [] then tas_filterNodes cache pod nodes = None
             else \<exists>names failed. tas_filterNodes cache pod nodes =
               Some \<lparr>fr_Nodes = Some (keeps cache s nodes), fr_NodeNames = Some names, fr_FailedNodes = failed, fr_Error = []\<rparr> \<and>
               map_of failed = (\<lambda>n. if n \<in> node_name ` set nodes \<and> violates cache n s then Some ''Node violates'' else None) \<and>
               ((\<forall>n \<in> set nodes. CHR '' '' \<notin> set (node_name n)) \<longrightarrow> names = map node_name (keeps cache s nodes) @ [[]]))"
proof (cases "getPolicyFromPod cache pod")
  case (Inr policy)
  then show ?thesis
  proof (cases "getDontScheduleStrategy policy")
    case (Inr s)
    show ?thesis
    proof (cases "nodes = []")
      case False
      from tas_filter_strategy [OF assms \<open>getPolicyFromPod cache pod = Inr policy\<close> Inr False] show ?thesis
        by (simp only: \<open>getPolicyFromPod cache pod = Inr policy\<close> Inr sum.case False if_False)
    qed (use Inr \<open>getPolicyFromPod cache pod = Inr policy\<close> in \<open>simp add: tas_filterNodes_def\<close>)
  qed (simp add: tas_filterNodes_def)
qed (simp add: tas_filterNodes_def)

definition sched_policy :: tas_policy where
  "sched_policy = \<lparr>tas_name = ''p'', tas_namespace = ''default'',
     Strategies = [(dontschedule_StrategyType, demo_strategy '''' [demo_rule ''GreaterThan'' 50 []]),
       (scheduleonmetric_StrategyType, demo_strategy '''' [demo_rule ''LessThan'' 0 []])]\<rparr>"

definition sched_reader :: tas_reader where
  "sched_reader = demo_reader\<lparr>ReadPolicy := \<lambda>ns name. if name = ''p'' then Inr sched_policy else Inl (NoPolicy name)\<rparr>"

definition sched_pod :: tas_pod where
  "sched_pod = \<lparr>tp_name = ''pod'', tp_namespace = ''default'', tp_labels = Some [(''telemetry-policy'', ''p'')]\<rparr>"

definition plain_node :: "string \<Rightarrow> node" where
  "plain_node n = \<lparr>node_name = n, node_labels = None, node_capacity = [], node_allocatable = []\<rparr>"

lemma reader_ok_sched: "reader_ok sched_reader"
  using reader_ok_demo by (simp add: reader_ok_def sched_reader_def)

lemma sched_policy_read: "getPolicyFromPod sched_reader sched_pod = Inr sched_policy"
  by (simp add: getPolicyFromPod_def sched_reader_def sched_pod_def nil_get_def)

lemma tas_filterNodes_answer_witness:
  "\<exists>r. tas_filterNodes sched_reader sched_pod [plain_node ''n1'', plain_node ''n2''] = Some r \<and>
     map_of (fr_FailedNodes r) ''n1'' = Some ''Node violates'' \<and> fr_NodeNames r = Some [''n2'', '''']"
proof -
  have s: "getDontScheduleStrategy sched_policy = Inr (demo_strategy '''' [demo_rule ''GreaterThan'' 50 []])"
    by (simp add: getDontScheduleStrategy_def sched_policy_def gm_getd_def demo_strategy_def)
  have v: "violates sched_reader ''n1'' (demo_strategy '''' [demo_rule ''GreaterThan'' 50 []])"
    "\<not> violates sched_reader ''n2'' (demo_strategy '''' [demo_rule ''GreaterThan'' 50 []])"
    by (simp_all add: violates_def violates_rule_def sched_reader_def demo_reader_def demo_strategy_def demo_rule_def
        demo_metric_def EvaluateRule_def cmp_int64_def quantity_cmp_def less_quantity_def)
  from tas_filterNodes_answer [OF reader_ok_sched, of sched_pod "[plain_node ''n1'', plain_node ''n2'']"] v show ?thesis
    by (auto simp: sched_policy_read s keeps_def plain_node_def)
qed

subsection \<open>What a prioritize request answers\<close>

lemma filtered_data:
  "wf_map data \<Longrightarrow> wf_map (fold (\<lambda>node data. case map_of nodeData (node_name node) of
       Some v \<Rightarrow> AList.update (node_name node) v data | None \<Rightarrow> data) nodes data) \<and>
   map_of (fold (\<lambda>node data. case map_of nodeData (node_name node) of
       Some v \<Rightarrow> AList.update (node_name node) v data | None \<Rightarrow> data) nodes data) n =
     (if n \<in> node_name ` set nodes \<and> map_of nodeData n \<noteq> None then map_of nodeData n else map_of data n)"
proof (induction nodes arbitrary: data)
  case (Cons node nodes)
  then show ?case by (cases "map_of nodeData (node_name node)") (auto simp: update_conv')
qed simp

lemma ranked_nodes:
  assumes "range_order ord" "wf_map data"
    and "ordered = OrderedList ord data operator"
  shows "distinct (map NodeName ordered)" "set ordered = {\<lparr>NodeName = n, MetricValue = metric_Value m\<rparr> | n m. map_of data n = Some m}"
proof -
  have perm: "mset ordered = mset (map (\<lambda>(name, info). \<lparr>NodeName = name, MetricValue = metric_Value info\<rparr>) data)"
    unfolding assms(3) using assms(1) by (intro OrderedList_mset) (simp add: range_order_def)
  have "image_mset NodeName (mset ordered) = mset (map fst data)"
    unfolding perm by (simp add: image_mset.compositionality comp_def split_beta)
  then have "mset (map NodeName ordered) = mset (map fst data)" by simp
  then show "distinct (map NodeName ordered)" using assms(2) by (metis mset_eq_imp_distinct_iff wf_map_def)
  have "set ordered = set (map (\<lambda>(name, info). \<lparr>NodeName = name, MetricValue = metric_Value info\<rparr>) data)"
    by (rule mset_eq_setD [OF perm])
  then show "set ordered = {\<lparr>NodeName = n, MetricValue = metric_Value m\<rparr> | n m. map_of data n = Some m}"
    using assms(2) by (auto simp: wf_map_def image_iff split: prod.splits)
qed

text \<open>The value that a metric has for a node.\<close>

definition value_of :: "node_metrics \<Rightarrow> string \<Rightarrow> quantity" where
  "value_of nodeData n = (case map_of nodeData n of None \<Rightarrow> Quantity 0 | Some m \<Rightarrow> metric_Value m)"

text \<open>A list of priorities ranks the nodes by an operator: the scores fall from 10 by one from each node to the next.\<close>

definition ranks :: "node_metrics \<Rightarrow> string \<Rightarrow> host_priority list \<Rightarrow> bool" where
  "ranks nodeData operator ps \<longleftrightarrow>
     map Score ps = map (\<lambda>i. word_of_int (10 - int i)) [0..<length ps] \<and>
     sorted_wrt (\<lambda>a b. (operator = ''GreaterThan'' \<longrightarrow> value_of nodeData b \<le> value_of nodeData a) \<and>
       (operator = ''LessThan'' \<longrightarrow> value_of nodeData a \<le> value_of nodeData b)) (map Host ps)"

lemma prioritized:
  assumes "range_order ord" "ReadMetric cache (Metricname rule) = Inr nodeData"
  shows "\<exists>ps. prioritizeNodesForRule ord cache rule nodes = Inr ps \<and> distinct (map Host ps) \<and>
    set (map Host ps) = {n \<in> node_name ` set nodes. map_of nodeData n \<noteq> None} \<and> ranks nodeData (Operator rule) ps"
proof -
  define data where "data = fold (\<lambda>node data. case map_of nodeData (node_name node) of
       Some v \<Rightarrow> AList.update (node_name node) v data | None \<Rightarrow> data) nodes []"
  have wf: "wf_map data" unfolding data_def by (rule filtered_data [THEN conjunct1]) (simp add: wf_map_def)
  have data: "map_of data n = (if n \<in> node_name ` set nodes then map_of nodeData n else None)" for n
    unfolding data_def by (subst filtered_data [THEN conjunct2]) (auto simp: wf_map_def)
  define ordered where "ordered = OrderedList ord data (Operator rule)"
  define ps where "ps = map (\<lambda>(i, node). \<lparr>Host = NodeName node, Score = word_of_int (maxScore - i)\<rparr>)
    (zip (map int [0..<length ordered]) ordered)"
  have hosts: "map Host ps = map NodeName ordered"
    unfolding ps_def by (intro nth_equalityI) (auto simp: split_beta)
  have scores: "map Score ps = map (\<lambda>i. word_of_int (10 - int i)) [0..<length ps]"
    unfolding ps_def by (intro nth_equalityI) (auto simp: split_beta maxScore_def)
  note ranked = ranked_nodes [OF assms(1) wf ordered_def]
  have metric: "MetricValue a = value_of nodeData (NodeName a)" if "a \<in> set ordered" for a
    using that data unfolding ranked(2) by (auto simp: value_of_def split: if_splits)
  have "sorted_wrt (\<lambda>a b. (Operator rule = ''GreaterThan'' \<longrightarrow> value_of nodeData (NodeName b) \<le> value_of nodeData (NodeName a)) \<and>
      (Operator rule = ''LessThan'' \<longrightarrow> value_of nodeData (NodeName a) \<le> value_of nodeData (NodeName b))) ordered"
    by (rule sorted_wrt_mono_rel [OF _ OrderedList_sorted [of "Operator rule" ord data, folded ordered_def]]) (simp add: metric)
  then have "ranks nodeData (Operator rule) ps" by (simp add: ranks_def scores hosts sorted_wrt_map)
  moreover have "set (map Host ps) = {n \<in> node_name ` set nodes. map_of nodeData n \<noteq> None}"
    unfolding hosts set_map ranked(2) by (force simp: data)
  moreover have "prioritizeNodesForRule ord cache rule nodes = Inr ps"
    by (simp add: prioritizeNodesForRule_def assms(2) Let_def data_def ordered_def ps_def)
  ultimately show ?thesis using hosts ranked(1) by metis
qed

text \<open>C15: the answer to a prioritize request. If the pod's policy has a scheduling rule and its metric is
  known, every node of the request that has a value is listed exactly once, and no other; the nodes are in the order of
  the rule's operator, and their scores fall by one from 10, whatever their distance. Otherwise the list is empty.\<close>

theorem prioritizeNodes_ranks:
  assumes "range_order ord"
  shows "\<exists>ps. prioritizeNodes ord cache pod nodes = Some ps \<and>
    (case getPolicyFromPod cache pod of
       Inl err \<Rightarrow> ps = []
     | Inr policy \<Rightarrow>
         (case getSchedulingRule policy of
            Inl err \<Rightarrow> ps = []
          | Inr rule \<Rightarrow>
              (case ReadMetric cache (Metricname rule) of
                 Inl err \<Rightarrow> ps = []
               | Inr nodeData \<Rightarrow> distinct (map Host ps) \<and>
                   set (map Host ps) = {n \<in> node_name ` set nodes. map_of nodeData n \<noteq> None} \<and>
                   ranks nodeData (Operator rule) ps)))"
  using prioritized [OF assms, of cache _ _ nodes]
  by (cases "getPolicyFromPod cache pod"; cases "getSchedulingRule (projr (getPolicyFromPod cache pod))";
      cases "ReadMetric cache (Metricname (projr (getSchedulingRule (projr (getPolicyFromPod cache pod)))))")
    (force simp: prioritizeNodes_def prioritizeNodesForRule_def)+

lemma prioritizeNodes_ranks_witness:
  "\<exists>ps. prioritizeNodes id sched_reader sched_pod [plain_node ''n1'', plain_node ''n2'', plain_node ''n3''] = Some ps \<and>
     set (map Host ps) = {''n1'', ''n2''} \<and> ranks [(''n1'', demo_metric 80), (''n2'', demo_metric 20)] ''LessThan'' ps"
proof -
  have r: "getSchedulingRule sched_policy = Inr (demo_rule ''LessThan'' 0 [])"
    by (simp add: getSchedulingRule_def sched_policy_def demo_strategy_def demo_rule_def scheduleonmetric_StrategyType_def
        dontschedule_StrategyType_def)
  have m: "ReadMetric sched_reader (Metricname (demo_rule ''LessThan'' 0 [])) = Inr [(''n1'', demo_metric 80), (''n2'', demo_metric 20)]"
    "Operator (demo_rule ''LessThan'' 0 []) = ''LessThan''"
    by (simp_all add: sched_reader_def demo_reader_def demo_rule_def)
  obtain ps where "prioritizeNodes id sched_reader sched_pod [plain_node ''n1'', plain_node ''n2'', plain_node ''n3''] = Some ps"
    "set (map Host ps) = {n \<in> node_name ` set [plain_node ''n1'', plain_node ''n2'', plain_node ''n3''].
       map_of [(''n1'', demo_metric 80), (''n2'', demo_metric 20)] n \<noteq> None}"
    "ranks [(''n1'', demo_metric 80), (''n2'', demo_metric 20)] ''LessThan'' ps"
    using prioritizeNodes_ranks [OF range_order_id, of sched_reader sched_pod "[plain_node ''n1'', plain_node ''n2'', plain_node ''n3'']"]
    unfolding sched_policy_read sum.case r m by blast
  moreover have "{n \<in> node_name ` set [plain_node ''n1'', plain_node ''n2'', plain_node ''n3''].
      map_of [(''n1'', demo_metric 80), (''n2'', demo_metric 20)] n \<noteq> None} = {''n1'', ''n2''}" by (auto simp: plain_node_def)
  ultimately show ?thesis by auto
qed

subsection \<open>The responses\<close>

text \<open>C26: the response to a prioritize request, for every body. A request that cannot be decoded or names no
  node gets no answer at all, which the client sees as status 200 with an empty body. A pod without the policy label gets
  status 400, and nevertheless a body: the empty list. Status 404 is never given, and 400 otherwise only if the result cannot
  be encoded.\<close>

theorem tas_Prioritize_response:
  assumes "tas_Prioritize ord cache decode encode close_error body new_writer = Some w"
  shows "case DecodeExtenderRequest decode close_error body of
      Inl err \<Rightarrow> w = new_writer
    | Inr args \<Rightarrow>
        (if tas_Nodes args = Some [] then w = new_writer
         else \<exists>pod nodes ps. tas_Pod args = Some pod \<and> tas_Nodes args = Some nodes \<and>
           prioritizeNodes ord cache pod nodes = Some ps \<and>
           (nil_get (tp_labels pod) tasPolicy = None \<longrightarrow> ps = []) \<and>
           answered w = (if nil_get (tp_labels pod) tasPolicy = None \<or> encode (Some ps) = None then 400 else 200) \<and>
           w_body w = (case encode (Some ps) of Some text \<Rightarrow> text | None \<Rightarrow> ''Encode error '' @ [char_of (10 :: nat)]))"
proof (cases "DecodeExtenderRequest decode close_error body")
  case (Inr args)
  have some: "\<exists>ps. prioritizeNodes ord cache pod nodes = Some ps" for pod nodes
    by (simp add: prioritizeNodes_def split: sum.splits)
  have none: "ps = []" if "nil_get (tp_labels pod) tasPolicy = None" "prioritizeNodes ord cache pod nodes = Some ps" for pod nodes ps
    using that by (simp add: prioritizeNodes_def getPolicyFromPod_def tasPolicy_def)
  from Inr assms obtain nodes where nodes: "tas_Nodes args = Some nodes"
    by (auto simp: tas_Prioritize_def split: bind_splits)
  show ?thesis
  proof (cases "nodes = []")
    case True
    then show ?thesis using Inr assms nodes by (simp add: tas_Prioritize_def)
  next
    case False
    with Inr assms nodes obtain pod where pod: "tas_Pod args = Some pod"
      by (auto simp: tas_Prioritize_def split: bind_splits)
    from some obtain ps where ps: "prioritizeNodes ord cache pod nodes = Some ps" by blast
    have "w = WritePrioritizeResponse encode (Some ps)
        (if nil_get (tp_labels pod) tasPolicy = None then write_header 400 new_writer else new_writer)"
      using assms Inr nodes False pod ps by (simp add: tas_Prioritize_def Let_def)
    then have "answered w = (if nil_get (tp_labels pod) tasPolicy = None \<or> encode (Some ps) = None then 400 else 200)"
      "w_body w = (case encode (Some ps) of Some text \<Rightarrow> text | None \<Rightarrow> ''Encode error '' @ [char_of (10 :: nat)])"
      by (simp_all add: WritePrioritizeResponse_def split: option.splits)
    with Inr False nodes pod ps none [OF _ ps] show ?thesis by simp
  qed
qed (use assms in \<open>simp add: tas_Prioritize_def\<close>)

lemma tas_Prioritize_response_witness:
  "\<exists>w. tas_Prioritize id sched_reader (\<lambda>text. Some \<lparr>tas_Pod = Some (sched_pod\<lparr>tp_labels := None\<rparr>), tas_Nodes = Some [plain_node ''n1'']\<rparr>)
       (\<lambda>r. Some ''[]'') None (Some ''{}'') new_writer = Some w \<and> answered w = 400 \<and> w_body w = ''[]''"
proof -
  let ?decode = "\<lambda>text. Some \<lparr>tas_Pod = Some (sched_pod\<lparr>tp_labels := None\<rparr>), tas_Nodes = Some [plain_node ''n1'']\<rparr>"
  obtain w where w: "tas_Prioritize id sched_reader ?decode (\<lambda>r. Some ''[]'') None (Some ''{}'') new_writer = Some w"
    by (simp add: tas_Prioritize_def DecodeExtenderRequest_def Let_def)
  from tas_Prioritize_response [OF w] show ?thesis
    by (simp add: w DecodeExtenderRequest_def nil_get_def)
qed

text \<open>The response to a filter request that can be decoded.\<close>

lemma tas_Filter_response:
  assumes "DecodeExtenderRequest decode close_error body = Inr args" "tas_Pod args = Some pod" "tas_Nodes args = Some nodes"
  shows "tas_Filter cache decode encode close_error body w =
    Some (WriteFilterResponse encode (tas_filterNodes cache pod nodes)
      (if tas_filterNodes cache pod nodes = None then write_header 404 w else w))"
  using assms by (simp add: tas_Filter_def Let_def)

end
