(* ===== verification/Tas_Server.thy ===== *)
theory Tas_Server
  imports Tas_Controller Tas_Scheduler Http_Server
begin

text \<open>
  TAS as it runs (\<^verbatim>\<open>cmd/main.go\<close>): the extender's three handlers behind the HTTP server, reading the cache
  that the policy controller and the periodic update write. A request sees the cache of one moment.
\<close>

text \<open>What the JSON library does and the order that a ranged map of metrics is taken in.\<close>

record tas_json =
  tj_decode :: "string \<Rightarrow> tas_args option"
  tj_encode_filter :: "tas_filter_result option \<Rightarrow> string option"
  tj_encode_priorities :: "host_priority list option \<Rightarrow> string option"
  tj_order :: "node_sortable_metric list \<Rightarrow> node_sortable_metric list"

definition MetricsExtender :: "tas_json \<Rightarrow> ('s \<Rightarrow> tas_reader) \<Rightarrow> 's scheduler" where
  "MetricsExtender json cache =
     \<lparr>sched_Bind = (\<lambda>r (w, s). Some (tas_Bind w, s)),
      sched_Prioritize = (\<lambda>r (w, s). map_option (\<lambda>w. (w, s))
        (tas_Prioritize (tj_order json) (cache s) (tj_decode json) (tj_encode_priorities json) (Body_close_error r) (Body r) w)),
      sched_Filter = (\<lambda>r (w, s). map_option (\<lambda>w. (w, s))
        (tas_Filter (cache s) (tj_decode json) (tj_encode_filter json) (Body_close_error r) (Body r) w))\<rparr>"

lemma tas_Prioritize_codes: "tas_Prioritize ord cache decode encode close_error body new_writer = Some w \<Longrightarrow> answered w \<in> {200, 400, 404}"
  by (auto simp: tas_Prioritize_def WritePrioritizeResponse_def Let_def split: sum.splits bind_splits option.splits if_splits)

lemma tas_Filter_codes: "tas_Filter cache decode encode close_error body new_writer = Some w \<Longrightarrow> answered w \<in> {200, 400, 404}"
  by (auto simp: tas_Filter_def WriteFilterResponse_def Let_def split: sum.splits bind_splits option.splits if_splits)

interpretation tas_server: scheduler_service "MetricsExtender json cache" "\<lambda>s. s = s0"
proof
  fix h r s w s'
  assume h: "h \<in> handlers_of (MetricsExtender json cache)" "h r (new_writer, s) = Some (w, s')"
  then show "answered w \<in> {200, 400, 404}"
    by (auto simp: handlers_of_def MetricsExtender_def tas_Bind_def dest: tas_Prioritize_codes tas_Filter_codes)
  assume "s = s0"
  with h show "s' = s0" by (auto simp: handlers_of_def MetricsExtender_def)
qed

text \<open>The extender only reads. No sequence of HTTP requests, whatever they hold, changes the state of TAS, and
  each is answered with one of six status codes.\<close>

theorem tas_server_reads_only:
  assumes "serve_requests (MetricsExtender json cache) rs s = Some (ws, s')"
  shows "s' = s \<and> length ws = length rs \<and> (\<forall>w \<in> set ws. answered w \<in> {200, 301, 400, 404, 405, 500})"
  using tas_server.requests_keep [OF refl assms] by blast

subsection \<open>From the policies to the scheduler\<close>

text \<open>A filter request for a pod whose label names a live policy of the pod's namespace with dontschedule rules.\<close>

definition asks_to_filter :: "tas_json \<Rightarrow> tas_policy \<Rightarrow> node list \<Rightarrow> http_request \<Rightarrow> bool" where
  "asks_to_filter json pol nodes r \<longleftrightarrow> acceptable r \<and> URL_Path r = ''/scheduler/filter'' \<and>
     (\<exists>args pod. DecodeExtenderRequest (tj_decode json) (Body_close_error r) (Body r) = Inr args \<and>
        tas_Pod args = Some pod \<and> tas_Nodes args = Some nodes \<and> nodes \<noteq> [] \<and>
        tp_namespace pod = tas_namespace pol \<and> nil_get (tp_labels pod) ''telemetry-policy'' = Some (tas_name pol))"

lemma filter_live_policy:
  assumes "reader_ok (cache s)" "ReadPolicy (cache s) (tas_namespace pol) (tas_name pol) = Inr pol"
    and "getDontScheduleStrategy pol = Inr strt" "asks_to_filter json pol nodes r"
    and "\<forall>result. tj_encode_filter json (Some result) \<noteq> None"
  shows "\<exists>w result. ServeHTTP (MetricsExtender json cache) r (new_writer, s) = Some (w, s) \<and> answered w = 200 \<and>
    tj_encode_filter json (Some result) = Some (w_body w) \<and>
    fr_Nodes result = Some (keeps (cache s) strt nodes) \<and>
    (\<forall>n. map_of (fr_FailedNodes result) n \<noteq> None \<longleftrightarrow> n \<in> node_name ` set nodes \<and> violates (cache s) n strt)"
proof -
  from assms(4) obtain args pod where r: "acceptable r" "URL_Path r = ''/scheduler/filter''"
    "DecodeExtenderRequest (tj_decode json) (Body_close_error r) (Body r) = Inr args" "tas_Pod args = Some pod"
    "tas_Nodes args = Some nodes" "nodes \<noteq> []" "tp_namespace pod = tas_namespace pol"
    "nil_get (tp_labels pod) ''telemetry-policy'' = Some (tas_name pol)" by (auto simp: asks_to_filter_def)
  have "getPolicyFromPod (cache s) pod = Inr pol" using r(7,8) assms(2) by (simp add: getPolicyFromPod_def)
  from tas_filter_strategy [OF assms(1) this assms(3) r(6)] obtain names failed where f: "tas_filterNodes (cache s) pod nodes =
      Some \<lparr>fr_Nodes = Some (keeps (cache s) strt nodes), fr_NodeNames = Some names, fr_FailedNodes = failed, fr_Error = []\<rparr>"
    "map_of failed = (\<lambda>n. if n \<in> node_name ` set nodes \<and> violates (cache s) n strt then Some ''Node violates'' else None)"
    by blast
  define result where "result = \<lparr>fr_Nodes = Some (keeps (cache s) strt nodes), fr_NodeNames = Some names,
    fr_FailedNodes = failed, fr_Error = []\<rparr>"
  obtain out where out: "tj_encode_filter json (Some result) = Some out" using assms(5) by auto
  have "ServeHTTP (MetricsExtender json cache) r (new_writer, s) = Some (write_body out new_writer, s)"
    by (simp add: ServeHTTP_endpoints(1) [OF r(1,2)] MetricsExtender_def tas_Filter_response [OF r(3-5)] f(1) [folded result_def]
        WriteFilterResponse_def out)
  moreover have "map_of (fr_FailedNodes result) n \<noteq> None \<longleftrightarrow> n \<in> node_name ` set nodes \<and> violates (cache s) n strt" for n
    using f(2) by (simp add: result_def)
  ultimately show ?thesis using out by (intro exI [of _ "write_body out new_writer"] exI [of _ result]) (simp add: result_def)
qed

text \<open>From the policies to the scheduler, through the controller, the cache, the HTTP server and the
  extender. In every state that the policy controller reaches, a filter request for a pod labelled with a live policy that
  has dontschedule rules is answered with status 200 and a result that keeps exactly the nodes of the request that do not
  violate the policy's strategy by the cached metrics, and fails the others.\<close>

theorem live_policy_filters:
  assumes "controller_reachable kube live st" "pol \<in> set live" "getDontScheduleStrategy pol = Inr strt"
    and "asks_to_filter json pol nodes r" "\<forall>result. tj_encode_filter json (Some result) \<noteq> None"
  shows "\<exists>w result. ServeHTTP (MetricsExtender json (\<lambda>st. cache_reader (tas_Cache st))) r (new_writer, st) = Some (w, st) \<and>
    answered w = 200 \<and> tj_encode_filter json (Some result) = Some (w_body w) \<and>
    fr_Nodes result = Some (keeps (cache_reader (tas_Cache st)) strt nodes) \<and>
    (\<forall>n. map_of (fr_FailedNodes result) n \<noteq> None \<longleftrightarrow>
       n \<in> node_name ` set nodes \<and> violates (cache_reader (tas_Cache st)) n strt)"
proof -
  note inv = controller_inv_reachable [OF assms(1)]
  have "reader_ok (cache_reader (tas_Cache st))" using inv by (simp add: controller_inv_def state_ok_def cache_ok_def)
  moreover have "ReadPolicy (cache_reader (tas_Cache st)) (tas_namespace pol) (tas_name pol) = Inr pol"
    using inv assms(2) by (auto simp: controller_inv_def)
  ultimately show ?thesis
    by (rule filter_live_policy [where cache = "\<lambda>st. cache_reader (tas_Cache st)", OF _ _ assms(3-5)])
qed

definition demo_pod :: tas_pod where
  "demo_pod = \<lparr>tp_name = ''pod'', tp_namespace = ''default'', tp_labels = Some [(''telemetry-policy'', ''p'')]\<rparr>"

definition demo_json :: tas_json where
  "demo_json = \<lparr>tj_decode = (\<lambda>text. Some \<lparr>tas_Pod = Some demo_pod, tas_Nodes = Some [demo_node ''n1'' []]\<rparr>),
     tj_encode_filter = (\<lambda>r. Some ''{}''), tj_encode_priorities = (\<lambda>r. Some ''[]''), tj_order = id\<rparr>"

definition demo_request :: http_request where
  "demo_request = \<lparr>Method = ''POST'', URL_Path = ''/scheduler/filter'', ContentLength = 2,
     Header = [(''Content-Type'', [''application/json''])], Body = Some ''{}'', Body_close_error = None\<rparr>"

lemma tas_server_reads_only_witness:
  "\<exists>ws. serve_requests (MetricsExtender demo_json (\<lambda>st. sched_reader)) [demo_request] () = Some (ws, ()) \<and> length ws = 1"
proof -
  have "serve_requests (MetricsExtender demo_json (\<lambda>st. sched_reader)) [demo_request] () \<noteq> None" by code_simp
  then obtain ws s where "serve_requests (MetricsExtender demo_json (\<lambda>st. sched_reader)) [demo_request] () = Some (ws, s)" by auto
  from this tas_server_reads_only [OF this] show ?thesis by auto
qed

lemma live_policy_filters_witness:
  "\<exists>st w. controller_reachable demo_kube [demo_policy] st \<and>
     ServeHTTP (MetricsExtender demo_json (\<lambda>st. cache_reader (tas_Cache st))) demo_request (new_writer, st) = Some (w, st) \<and>
     answered w = 200"
proof -
  obtain st where st: "controller_reachable demo_kube [demo_policy] st" using reachable_demo by blast
  have s: "getDontScheduleStrategy demo_policy = Inr (demo_strategy '''' [demo_rule ''GreaterThan'' 40 []])"
    by (simp add: getDontScheduleStrategy_def demo_policy_def gm_getd_def demo_strategy_def deschedule_StrategyType_def
        dontschedule_StrategyType_def)
  have r: "asks_to_filter demo_json demo_policy [demo_node ''n1'' []] demo_request"
    by (simp add: asks_to_filter_def demo_request_def demo_json_def acceptable_def Header_Get_def DecodeExtenderRequest_def
        demo_pod_def demo_policy_def nil_get_def)
  from live_policy_filters [OF st _ s r] st show ?thesis by (fastforce simp: demo_json_def)
qed

end
