(* ===== verification/Tas_Client.thy ===== *)
theory Tas_Client
  imports Tas_Policy Kube_Client
begin

text \<open>
  The client of the policy resource (\<^verbatim>\<open>telemetrypolicy/client/v1alpha1/\<close>): the configuration of a REST client for
  it and the requests that its operations send. The REST client, the scheme and the codecs of client-go are parameters; a
  chain of the builder's methods is the record of what they set, which \<^verbatim>\<open>Do\<close> sends.
\<close>

subsection \<open>The scheme and the REST client\<close>

definition Plural :: string where "Plural = ''taspolicies''"
definition Group :: string where "Group = ''telemetry.intel.com''"
definition Version :: string where "Version = ''v1alpha1''"

record ('o, 'sch, 'ser, 'cl, 'pc) scheme_lib =
  NewScheme :: 'sch
  AddKnownTypes :: "group_version \<Rightarrow> string list \<Rightarrow> 'sch \<Rightarrow> 'sch"
  AddToGroupVersion :: "group_version \<Rightarrow> 'sch \<Rightarrow> 'sch"
  SchemeBuilder_AddToScheme :: "('sch \<Rightarrow> string + 'sch) list \<Rightarrow> 'sch \<Rightarrow> string + 'sch"
  CodecFactory_WithoutConversion :: "'sch \<Rightarrow> 'ser"
  RESTClientFor :: "('o, 'ser) rest_config \<Rightarrow> string + 'cl"
  NewParameterCodec :: "'sch \<Rightarrow> 'pc"

definition groupVersion :: group_version where
  "groupVersion = \<lparr>gv_Group = Group, gv_Version = Version\<rparr>"

text \<open>Types are added by their names.\<close>

definition addTypesToSchema :: "('o, 'sch, 'ser, 'cl, 'pc) scheme_lib \<Rightarrow> 'sch \<Rightarrow> string + 'sch" where
  "addTypesToSchema lib scheme =
     (let SchemeGroupVersion = groupVersion;
          scheme = AddKnownTypes lib SchemeGroupVersion [''TASPolicy'', ''TASPolicyList''] scheme;
          scheme = AddToGroupVersion lib SchemeGroupVersion scheme
      in Inr scheme)"

record 'sch schemeInfo =
  SchemeGroupVersion :: group_version
  SchemeBuilder :: "('sch \<Rightarrow> string + 'sch) list"
  AddToScheme :: "'sch \<Rightarrow> string + 'sch"

definition crdScheme :: "('o, 'sch, 'ser, 'cl, 'pc) scheme_lib \<Rightarrow> 'sch schemeInfo" where
  "crdScheme lib =
     \<lparr>SchemeGroupVersion = groupVersion, SchemeBuilder = [addTypesToSchema lib],
      AddToScheme = SchemeBuilder_AddToScheme lib [addTypesToSchema lib]\<rparr>"

datatype policy_client_error =
    SchemeFailed string | RestClientFailed string | RegisterFailed string | UpdateFailed string | GetFailed string
  | DeleteFailed string | ListFailed string

definition NewRest ::
  "('o, 'sch, 'ser, 'cl, 'pc) scheme_lib \<Rightarrow> ('o, 'ser) rest_config \<Rightarrow> policy_client_error + 'cl \<times> 'sch" where
  "NewRest lib config =
     (let scheme = NewScheme lib;
          schemeInfo = crdScheme lib
      in case AddToScheme schemeInfo scheme of
           Inl err \<Rightarrow> Inl (SchemeFailed err)
         | Inr scheme \<Rightarrow>
             (let config = config\<lparr>GroupVersion := Some (SchemeGroupVersion schemeInfo), APIPath := ''/apis'',
                    ContentType := ''application/json'',
                    NegotiatedSerializer := Some (CodecFactory_WithoutConversion lib scheme)\<rparr>
              in case RESTClientFor lib config of
                   Inl err \<Rightarrow> Inl (RestClientFailed err)
                 | Inr client \<Rightarrow> Inr (client, scheme)))"

record ('cl, 'pc) policy_client =
  parameterCodec :: 'pc
  rest_handle :: 'cl
  client_namespace :: string
  plural :: string

definition policy_client_New ::
  "('o, 'sch, 'ser, 'cl, 'pc) scheme_lib \<Rightarrow> ('o, 'ser) rest_config \<Rightarrow> string \<Rightarrow>
   policy_client_error + ('cl, 'pc) policy_client" where
  "policy_client_New lib config namespace =
     (case NewRest lib config of
        Inl err \<Rightarrow> Inl err
      | Inr (cl, scheme) \<Rightarrow>
          Inr \<lparr>parameterCodec = NewParameterCodec lib scheme, rest_handle = cl, client_namespace = namespace, plural = Plural\<rparr>)"

subsection \<open>Requests\<close>

datatype verb = VerbGet | VerbPost | VerbPut | VerbDelete

datatype 'd rest_body = PolicyBody tas_policy | OptionsBody 'd

record ('d, 'lo, 'pc) rest_request =
  req_verb :: verb
  req_Namespace :: string
  req_Resource :: string
  req_Name :: "string option"
  req_Body :: "'d rest_body option"
  req_Params :: "('lo \<times> 'pc) option"

text \<open>
  Sending a request may change the state of the API server. \<^verbatim>\<open>Into\<close> decodes the result, or its error, over a
  value that the caller gives.
\<close>

record ('cl, 'd, 'lo, 'pc, 'r, 'w) rest_lib =
  Do :: "'cl \<Rightarrow> ('d, 'lo, 'pc) rest_request \<Rightarrow> 'w \<Rightarrow> (string + 'r) \<times> 'w"
  Into_policy :: "string + 'r \<Rightarrow> tas_policy \<Rightarrow> tas_policy \<times> string option"
  Into_list :: "string + 'r \<Rightarrow> tas_policy list \<Rightarrow> tas_policy list \<times> string option"

definition zero_policy :: tas_policy where
  "zero_policy = \<lparr>tas_name = [], tas_namespace = [], Strategies = []\<rparr>"

definition new_request :: "verb \<Rightarrow> string \<Rightarrow> string \<Rightarrow> ('d, 'lo, 'pc) rest_request" where
  "new_request verb namespace resource =
     \<lparr>req_verb = verb, req_Namespace = namespace, req_Resource = resource, req_Name = None, req_Body = None,
      req_Params = None\<rparr>"

text \<open>The pointers to policies and options are not nil. An error comes together with what was decoded so far.\<close>

definition policy_Create ::
  "('cl, 'd, 'lo, 'pc, 'r, 'w) rest_lib \<Rightarrow> ('cl, 'pc) policy_client \<Rightarrow> tas_policy \<Rightarrow> 'w \<Rightarrow>
   (tas_policy \<times> policy_client_error option) \<times> 'w" where
  "policy_Create lib client obj w =
     (let req = (new_request VerbPost (tas_namespace obj) (plural client))\<lparr>req_Body := Some (PolicyBody obj)\<rparr>;
          (response, w) = Do lib (rest_handle client) req w;
          (result, err) = Into_policy lib response zero_policy
      in ((result, map_option RegisterFailed err), w))"

definition policy_Update ::
  "('cl, 'd, 'lo, 'pc, 'r, 'w) rest_lib \<Rightarrow> ('cl, 'pc) policy_client \<Rightarrow> tas_policy \<Rightarrow> 'w \<Rightarrow>
   (tas_policy \<times> policy_client_error option) \<times> 'w" where
  "policy_Update lib client obj w =
     (let req = (new_request VerbPut (tas_namespace obj) (plural client))
                  \<lparr>req_Body := Some (PolicyBody obj), req_Name := Some (tas_name obj)\<rparr>;
          (response, w) = Do lib (rest_handle client) req w;
          (result, err) = Into_policy lib response zero_policy
      in ((result, map_option UpdateFailed err), w))"

definition policy_Get ::
  "('cl, 'd, 'lo, 'pc, 'r, 'w) rest_lib \<Rightarrow> ('cl, 'pc) policy_client \<Rightarrow> string \<Rightarrow> string \<Rightarrow> 'w \<Rightarrow>
   (tas_policy \<times> policy_client_error option) \<times> 'w" where
  "policy_Get lib client name namespace w =
     (let req = (new_request VerbGet namespace (plural client))\<lparr>req_Name := Some name\<rparr>;
          (response, w) = Do lib (rest_handle client) req w;
          (result, err) = Into_policy lib response zero_policy
      in ((result, map_option GetFailed err), w))"

definition policy_Delete ::
  "('cl, 'd, 'lo, 'pc, 'r, 'w) rest_lib \<Rightarrow> ('cl, 'pc) policy_client \<Rightarrow> string \<Rightarrow> 'd \<Rightarrow> 'w \<Rightarrow>
   policy_client_error option \<times> 'w" where
  "policy_Delete lib client name options w =
     (let req = (new_request VerbDelete (client_namespace client) (plural client))
                  \<lparr>req_Name := Some name, req_Body := Some (OptionsBody options)\<rparr>;
          (response, w) = Do lib (rest_handle client) req w
      in (case response of Inl err \<Rightarrow> Some (DeleteFailed err) | Inr r \<Rightarrow> None, w))"

definition policy_List ::
  "('cl, 'd, 'lo, 'pc, 'r, 'w) rest_lib \<Rightarrow> ('cl, 'pc) policy_client \<Rightarrow> 'lo \<Rightarrow> 'w \<Rightarrow>
   (tas_policy list \<times> policy_client_error option) \<times> 'w" where
  "policy_List lib client options w =
     (let req = (new_request VerbGet (client_namespace client) (plural client))
                  \<lparr>req_Params := Some (options, parameterCodec client)\<rparr>;
          (response, w) = Do lib (rest_handle client) req w;
          (result, err) = Into_list lib response []
      in ((result, map_option ListFailed err), w))"

text \<open>The list and watch that an informer runs on: the REST client, the resource and the namespace.\<close>

definition NewListWatch ::
  "('cl \<Rightarrow> string \<Rightarrow> string \<Rightarrow> 'lw) \<Rightarrow> ('cl, 'pc) policy_client \<Rightarrow> 'lw" where
  "NewListWatch newListWatchFromClient client = newListWatchFromClient (rest_handle client) (plural client) (client_namespace client)"

subsection \<open>What the operations do to the stored policies\<close>

text \<open>
  What an API server documents of a request that succeeds, with \<open>stored w\<close> the policies by namespace and name: POST
  creates an object that did not exist, PUT replaces one that did, GET reads one, or lists those of a namespace or of all,
  DELETE removes one (policies have no finalizers). The object is given back. Of a request that fails nothing is said. An
  error is decoded to itself and leaves the value as it was.
\<close>

definition post_law ::
  "('cl, 'd, 'lo, 'pc, 'r, 'w) rest_lib \<Rightarrow> 'cl \<Rightarrow> string \<Rightarrow> ('w \<Rightarrow> string \<times> string \<Rightarrow> tas_policy option) \<Rightarrow> bool" where
  "post_law lib cl resource stored \<longleftrightarrow>
     (\<forall>ns p w r w'. Do lib cl ((new_request VerbPost ns resource)\<lparr>req_Body := Some (PolicyBody p)\<rparr>) w = (Inr r, w') \<longrightarrow>
        tas_namespace p = ns \<and> stored w (ns, tas_name p) = None \<and> stored w' = (stored w)((ns, tas_name p) \<mapsto> p) \<and>
        (\<forall>z. Into_policy lib (Inr r) z = (p, None)))"

definition put_law ::
  "('cl, 'd, 'lo, 'pc, 'r, 'w) rest_lib \<Rightarrow> 'cl \<Rightarrow> string \<Rightarrow> ('w \<Rightarrow> string \<times> string \<Rightarrow> tas_policy option) \<Rightarrow> bool" where
  "put_law lib cl resource stored \<longleftrightarrow>
     (\<forall>ns n p w r w'. Do lib cl ((new_request VerbPut ns resource)\<lparr>req_Body := Some (PolicyBody p), req_Name := Some n\<rparr>) w =
          (Inr r, w') \<longrightarrow>
        tas_namespace p = ns \<and> tas_name p = n \<and> stored w (ns, n) \<noteq> None \<and> stored w' = (stored w)((ns, n) \<mapsto> p) \<and>
        (\<forall>z. Into_policy lib (Inr r) z = (p, None)))"

definition get_law ::
  "('cl, 'd, 'lo, 'pc, 'r, 'w) rest_lib \<Rightarrow> 'cl \<Rightarrow> string \<Rightarrow> ('w \<Rightarrow> string \<times> string \<Rightarrow> tas_policy option) \<Rightarrow> bool" where
  "get_law lib cl resource stored \<longleftrightarrow>
     (\<forall>ns n w r w'. Do lib cl ((new_request VerbGet ns resource)\<lparr>req_Name := Some n\<rparr>) w = (Inr r, w') \<longrightarrow>
        (\<exists>p. stored w (ns, n) = Some p \<and> (\<forall>z. Into_policy lib (Inr r) z = (p, None))))"

definition delete_law ::
  "('cl, 'd, 'lo, 'pc, 'r, 'w) rest_lib \<Rightarrow> 'cl \<Rightarrow> string \<Rightarrow> ('w \<Rightarrow> string \<times> string \<Rightarrow> tas_policy option) \<Rightarrow> bool" where
  "delete_law lib cl resource stored \<longleftrightarrow>
     (\<forall>ns n opts w r w'.
        Do lib cl ((new_request VerbDelete ns resource)\<lparr>req_Name := Some n, req_Body := Some (OptionsBody opts)\<rparr>) w = (Inr r, w') \<longrightarrow>
        stored w (ns, n) \<noteq> None \<and> stored w' = (stored w)((ns, n) := None))"

definition list_law ::
  "('cl, 'd, 'lo, 'pc, 'r, 'w) rest_lib \<Rightarrow> 'cl \<Rightarrow> string \<Rightarrow> ('w \<Rightarrow> string \<times> string \<Rightarrow> tas_policy option) \<Rightarrow> bool" where
  "list_law lib cl resource stored \<longleftrightarrow>
     (\<forall>ns params w r w'. Do lib cl ((new_request VerbGet ns resource)\<lparr>req_Params := Some params\<rparr>) w = (Inr r, w') \<longrightarrow>
        (\<exists>ps. set ps = {p. \<exists>ns' n. stored w (ns', n) = Some p \<and> (ns = [] \<or> ns' = ns)} \<and>
           (\<forall>zs. Into_list lib (Inr r) zs = (ps, None))))"

definition policy_server ::
  "('cl, 'd, 'lo, 'pc, 'r, 'w) rest_lib \<Rightarrow> 'cl \<Rightarrow> string \<Rightarrow> ('w \<Rightarrow> string \<times> string \<Rightarrow> tas_policy option) \<Rightarrow> bool" where
  "policy_server lib cl resource stored \<longleftrightarrow>
     (\<forall>e z zs. Into_policy lib (Inl e) z = (z, Some e) \<and> Into_list lib (Inl e) zs = (zs, Some e)) \<and>
     (\<forall>w ns n p. stored w (ns, n) = Some p \<longrightarrow> tas_namespace p = ns \<and> tas_name p = n) \<and>
     post_law lib cl resource stored \<and> put_law lib cl resource stored \<and> get_law lib cl resource stored \<and>
     delete_law lib cl resource stored \<and> list_law lib cl resource stored"

text \<open>The operations that succeed, read through the server's laws.\<close>

lemma decoded:
  assumes "policy_server lib cl resource stored"
  shows "Into_policy lib x z = (p, None) \<Longrightarrow> \<exists>r. x = Inr r" "Into_list lib x zs = (ps, None) \<Longrightarrow> \<exists>r. x = Inr r"
  using assms by (cases x; simp add: policy_server_def)+

lemma stored_own_key:
  "policy_server lib cl resource stored \<Longrightarrow> stored w (ns, n) = Some p \<Longrightarrow> tas_namespace p = ns \<and> tas_name p = n"
  by (simp add: policy_server_def)

lemma server_rules:
  assumes "policy_server lib cl resource stored"
  shows "Do lib cl ((new_request VerbPost ns resource)\<lparr>req_Body := Some (PolicyBody p)\<rparr>) w = (Inr r, w') \<Longrightarrow>
      stored w (ns, tas_name p) = None \<and> stored w' = (stored w)((ns, tas_name p) \<mapsto> p) \<and> Into_policy lib (Inr r) z = (p, None)"
    and "Do lib cl ((new_request VerbPut ns resource)\<lparr>req_Body := Some (PolicyBody p), req_Name := Some n\<rparr>) w = (Inr r, w') \<Longrightarrow>
      stored w (ns, n) \<noteq> None \<and> stored w' = (stored w)((ns, n) \<mapsto> p) \<and> Into_policy lib (Inr r) z = (p, None)"
    and "Do lib cl ((new_request VerbGet ns resource)\<lparr>req_Name := Some n\<rparr>) w = (Inr r, w') \<Longrightarrow>
      \<exists>p. stored w (ns, n) = Some p \<and> Into_policy lib (Inr r) z = (p, None)"
    and "Do lib cl ((new_request VerbDelete ns resource)\<lparr>req_Name := Some n, req_Body := Some (OptionsBody opts)\<rparr>) w = (Inr r, w') \<Longrightarrow>
      stored w (ns, n) \<noteq> None \<and> stored w' = (stored w)((ns, n) := None)"
    and "Do lib cl ((new_request VerbGet ns resource)\<lparr>req_Params := Some params\<rparr>) w = (Inr r, w') \<Longrightarrow>
      \<exists>ps. set ps = {p. \<exists>ns' n. stored w (ns', n) = Some p \<and> (ns = [] \<or> ns' = ns)} \<and> Into_list lib (Inr r) zs = (ps, None)"
  subgoal using assms unfolding policy_server_def post_law_def by blast
  subgoal using assms unfolding policy_server_def put_law_def by blast
  subgoal using assms unfolding policy_server_def get_law_def by blast
  subgoal using assms unfolding policy_server_def delete_law_def by blast
  subgoal using assms unfolding policy_server_def list_law_def by blast
  done

lemma policy_Create_stores:
  assumes "policy_server lib (rest_handle client) (plural client) stored" "policy_Create lib client obj w = ((result, None), w')"
  shows "result = obj \<and> stored w' = (stored w)((tas_namespace obj, tas_name obj) \<mapsto> obj) \<and>
    stored w (tas_namespace obj, tas_name obj) = None"
proof -
  from assms(2) obtain x where x: "Into_policy lib x zero_policy = (result, None)"
    "Do lib (rest_handle client) ((new_request VerbPost (tas_namespace obj) (plural client))\<lparr>req_Body := Some (PolicyBody obj)\<rparr>) w = (x, w')"
    by (auto simp: policy_Create_def split: prod.splits)
  with decoded(1) [OF assms(1) x(1)] obtain r where r: "x = Inr r" by blast
  from server_rules(1) [OF assms(1) x(2) [unfolded r], of zero_policy] x(1) show ?thesis by (simp add: r)
qed

lemma policy_Update_stores:
  assumes "policy_server lib (rest_handle client) (plural client) stored" "policy_Update lib client obj w = ((result, None), w')"
  shows "result = obj \<and> stored w' = (stored w)((tas_namespace obj, tas_name obj) \<mapsto> obj) \<and>
    stored w (tas_namespace obj, tas_name obj) \<noteq> None"
proof -
  from assms(2) obtain x where x: "Into_policy lib x zero_policy = (result, None)"
    "Do lib (rest_handle client) ((new_request VerbPut (tas_namespace obj) (plural client))
       \<lparr>req_Body := Some (PolicyBody obj), req_Name := Some (tas_name obj)\<rparr>) w = (x, w')"
    by (auto simp: policy_Update_def split: prod.splits)
  with decoded(1) [OF assms(1) x(1)] obtain r where r: "x = Inr r" by blast
  from server_rules(2) [OF assms(1) x(2) [unfolded r], of zero_policy] x(1) show ?thesis by (simp add: r)
qed

lemma policy_Get_reads:
  assumes "policy_server lib (rest_handle client) (plural client) stored" "policy_Get lib client name ns w = ((result, None), w')"
  shows "stored w (ns, name) = Some result"
proof -
  from assms(2) obtain x where x: "Into_policy lib x zero_policy = (result, None)"
    "Do lib (rest_handle client) ((new_request VerbGet ns (plural client))\<lparr>req_Name := Some name\<rparr>) w = (x, w')"
    by (auto simp: policy_Get_def split: prod.splits)
  with decoded(1) [OF assms(1) x(1)] obtain r where r: "x = Inr r" by blast
  from server_rules(3) [OF assms(1) x(2) [unfolded r], of zero_policy] x(1) show ?thesis by (auto simp: r)
qed

lemma policy_Delete_removes:
  assumes "policy_server lib (rest_handle client) (plural client) stored" "policy_Delete lib client name opts w = (None, w')"
  shows "stored w (client_namespace client, name) \<noteq> None \<and> stored w' = (stored w)((client_namespace client, name) := None)"
proof -
  from assms(2) obtain r where "Do lib (rest_handle client) ((new_request VerbDelete (client_namespace client) (plural client))
      \<lparr>req_Name := Some name, req_Body := Some (OptionsBody opts)\<rparr>) w = (Inr r, w')"
    by (auto simp: policy_Delete_def split: prod.splits sum.splits)
  from server_rules(4) [OF assms(1) this] show ?thesis .
qed

lemma policy_List_lists:
  assumes "policy_server lib (rest_handle client) (plural client) stored" "policy_List lib client opts w = ((result, None), w')"
  shows "set result = {p. \<exists>ns n. stored w (ns, n) = Some p \<and> (client_namespace client = [] \<or> ns = client_namespace client)}"
proof -
  from assms(2) obtain x where x: "Into_list lib x [] = (result, None)"
    "Do lib (rest_handle client) ((new_request VerbGet (client_namespace client) (plural client))
       \<lparr>req_Params := Some (opts, parameterCodec client)\<rparr>) w = (x, w')"
    by (auto simp: policy_List_def split: prod.splits)
  with decoded(2) [OF assms(1) x(1)] obtain r where r: "x = Inr r" by blast
  from server_rules(5) [OF assms(1) x(2) [unfolded r], of "[]"] x(1) show ?thesis by (auto simp: r)
qed


subsection \<open>A server of policies\<close>

text \<open>Policies in a list, where the first one of a name counts; the response of a request is the policies it is about.\<close>

definition demo_stored :: "tas_policy list \<Rightarrow> string \<times> string \<Rightarrow> tas_policy option" where
  "demo_stored w key = find (\<lambda>p. (tas_namespace p, tas_name p) = key) w"

definition demo_Do ::
  "unit \<Rightarrow> (unit, unit, unit) rest_request \<Rightarrow> tas_policy list \<Rightarrow> (string + tas_policy list) \<times> tas_policy list" where
  "demo_Do cl req w =
     (let key = (\<lambda>p. (tas_namespace p, tas_name p)); without = (\<lambda>k. filter (\<lambda>p. key p \<noteq> k) w) in
      case (req_verb req, req_Body req, req_Name req) of
        (VerbPost, Some (PolicyBody p), None) \<Rightarrow>
          if tas_namespace p = req_Namespace req \<and> demo_stored w (key p) = None then (Inr [p], p # w) else (Inl ''conflict'', w)
      | (VerbPut, Some (PolicyBody p), Some n) \<Rightarrow>
          if key p = (req_Namespace req, n) \<and> demo_stored w (key p) \<noteq> None then (Inr [p], p # w) else (Inl ''not found'', w)
      | (VerbGet, None, Some n) \<Rightarrow>
          (case demo_stored w (req_Namespace req, n) of None \<Rightarrow> (Inl ''not found'', w) | Some p \<Rightarrow> (Inr [p], w))
      | (VerbDelete, Some (OptionsBody d), Some n) \<Rightarrow>
          if demo_stored w (req_Namespace req, n) = None then (Inl ''not found'', w)
          else (Inr [], without (req_Namespace req, n))
      | (VerbGet, None, None) \<Rightarrow>
          (Inr (filter (\<lambda>p. demo_stored w (key p) = Some p \<and> (req_Namespace req = [] \<or> tas_namespace p = req_Namespace req)) w), w)
      | _ \<Rightarrow> (Inl ''bad request'', w))"

definition demo_rest :: "(unit, unit, unit, unit, tas_policy list, tas_policy list) rest_lib" where
  "demo_rest = \<lparr>Do = demo_Do,
     Into_policy = (\<lambda>x z. case x of Inl e \<Rightarrow> (z, Some e) | Inr ps \<Rightarrow> (case ps of p # _ \<Rightarrow> (p, None) | [] \<Rightarrow> (z, Some ''empty''))),
     Into_list = (\<lambda>x zs. case x of Inl e \<Rightarrow> (zs, Some e) | Inr ps \<Rightarrow> (ps, None))\<rparr>"

lemma demo_stored_simps [simp]:
  "demo_stored (p # w) = (demo_stored w)((tas_namespace p, tas_name p) \<mapsto> p)"
  "demo_stored [] = Map.empty"
  "demo_stored (filter (\<lambda>p. tas_namespace p = ns \<longrightarrow> tas_name p \<noteq> n) w) = (demo_stored w)((ns, n) := None)"
proof -
  show "demo_stored (filter (\<lambda>p. tas_namespace p = ns \<longrightarrow> tas_name p \<noteq> n) w) = (demo_stored w)((ns, n) := None)"
    by (induction w) (auto simp: demo_stored_def fun_eq_iff)
qed (auto simp: demo_stored_def fun_eq_iff)

lemma demo_stored_SomeD: "demo_stored w (ns, n) = Some p \<Longrightarrow> tas_namespace p = ns \<and> tas_name p = n \<and> p \<in> set w"
  by (auto simp: demo_stored_def find_Some_iff)

lemma demo_server: "policy_server demo_rest () Plural demo_stored"
  unfolding policy_server_def
proof (intro conjI)
  show "post_law demo_rest () Plural demo_stored"
    by (auto simp: post_law_def demo_rest_def demo_Do_def new_request_def split: if_splits)
  show "put_law demo_rest () Plural demo_stored"
    by (auto simp: put_law_def demo_rest_def demo_Do_def new_request_def split: if_splits)
  show "get_law demo_rest () Plural demo_stored"
    by (auto simp: get_law_def demo_rest_def demo_Do_def new_request_def split: option.splits)
  show "delete_law demo_rest () Plural demo_stored"
    by (auto simp: delete_law_def demo_rest_def demo_Do_def new_request_def split: if_splits)
  show "list_law demo_rest () Plural demo_stored"
    by (auto simp: list_law_def demo_rest_def demo_Do_def new_request_def dest: demo_stored_SomeD)
qed (auto simp: demo_rest_def dest: demo_stored_SomeD)

definition sample_policy :: tas_policy where
  "sample_policy = \<lparr>tas_name = ''p'', tas_namespace = ''prod'', Strategies = []\<rparr>"

definition sample_client :: "(unit, unit) policy_client" where
  "sample_client = \<lparr>parameterCodec = (), rest_handle = (), client_namespace = ''default'', plural = Plural\<rparr>"


end
