(* ===== verification/Go_Time.thy ===== *)
theory Go_Time
  imports Go_Strings
begin

text \<open>
  \<^verbatim>\<open>time.ParseDuration\<close>, which the command of TAS reads its period with: numbers with units, summed in an
  unsigned 64-bit number of nanoseconds. The fraction of a number, a \<^verbatim>\<open>float64\<close> in Go, is taken as exact and
  rounded down.
\<close>

definition duration_units :: "(string \<times> nat) list" where
  "duration_units =
     [(''ns'', 1), (''us'', 1000), ([CHR 0xC2, CHR 0xB5, CHR ''s''], 1000),
      ([CHR 0xCE, CHR 0xBC, CHR ''s''], 1000), (''ms'', 1000000), (''s'', 1000000000),
      (''m'', 60 * 1000000000), (''h'', 3600 * 1000000000)]"

text \<open>One number with its unit, and the text after it.\<close>

definition duration_part :: "string \<Rightarrow> (nat \<times> string) option" where
  "duration_part s =
     (let ds = takeWhile is_digit s;
          s = dropWhile is_digit s;
          (fs, s) = (if s \<noteq> [] \<and> hd s = CHR ''.'' then (takeWhile is_digit (tl s), dropWhile is_digit (tl s)) else ([], s));
          u = takeWhile (\<lambda>c. c \<noteq> CHR ''.'' \<and> \<not> is_digit c) s
      in if ds = [] \<and> fs = [] then None
         else if 2 ^ 63 < parse_digits ds then None
         else case map_of duration_units u of
                None \<Rightarrow> None
              | Some unit \<Rightarrow>
                  (let v = parse_digits ds * unit + parse_digits fs * unit div 10 ^ length fs
                   in if 2 ^ 63 < v then None else Some (v, drop (length u) s)))"

lemma duration_unit_nonempty: "map_of duration_units u = Some n \<Longrightarrow> u \<noteq> []"
  by (auto simp: duration_units_def split: if_splits)

lemma duration_part_shorter:
  assumes "duration_part s = Some (v, rest)"
  shows "length rest < length s"
proof -
  let ?s = "dropWhile is_digit s"
  let ?t = "if ?s \<noteq> [] \<and> hd ?s = CHR ''.'' then dropWhile is_digit (tl ?s) else ?s"
  let ?u = "takeWhile (\<lambda>c. c \<noteq> CHR ''.'' \<and> \<not> is_digit c) ?t"
  have "length ?t \<le> length ?s" using length_dropWhile_le [of is_digit "tl ?s"] by auto
  with length_dropWhile_le [of is_digit s] have t: "length ?t \<le> length s" by linarith
  from assms obtain n where u: "map_of duration_units ?u = Some n" "rest = drop (length ?u) ?t"
    by (auto simp: duration_part_def Let_def split: if_splits option.splits)
  from duration_unit_nonempty [OF u(1)] have "0 < length ?u" by simp
  with length_takeWhile_le [of "\<lambda>c. c \<noteq> CHR ''.'' \<and> \<not> is_digit c" ?t] t u(2) show ?thesis
    by (simp only: length_drop)
qed

function duration_parts :: "string \<Rightarrow> nat \<Rightarrow> nat option" where
  "duration_parts s d =
     (if s = [] then Some d
      else case duration_part s of
             None \<Rightarrow> None
           | Some (v, rest) \<Rightarrow>
               (let d = (d + v) mod 2 ^ 64 in if 2 ^ 63 < d then None else duration_parts rest d))"
  by pat_completeness auto
termination by (relation "measure (\<lambda>(s, d). length s)") (auto dest: duration_part_shorter)

declare duration_parts.simps [simp del]

definition ParseDuration :: "string \<Rightarrow> int64 option" where
  "ParseDuration s =
     (let neg = (s \<noteq> [] \<and> hd s = CHR ''-'');
          s = (if s \<noteq> [] \<and> (hd s = CHR ''-'' \<or> hd s = CHR ''+'') then tl s else s)
      in if s = ''0'' then Some 0
         else if s = [] then None
         else case duration_parts s 0 of
                None \<Rightarrow> None
              | Some d \<Rightarrow>
                  if neg then Some (- of_nat d) else if 2 ^ 63 - 1 < d then None else Some (of_nat d))"

text \<open>A whole number of seconds is read back.\<close>

lemma second_unit: "map_of duration_units ''s'' = Some 1000000000" "\<not> is_digit (CHR ''s'')"
  by (simp_all add: duration_units_def is_digit_def)

lemma itoa_nat_nonempty [simp]: "itoa_nat n \<noteq> []"
  by (subst itoa_nat.simps) simp

lemma duration_part_seconds:
  assumes "n * 1000000000 \<le> 2 ^ 63"
  shows "duration_part (itoa_nat n @ ''s'') = Some (n * 1000000000, [])"
proof -
  have ds: "takeWhile is_digit (itoa_nat n @ ''s'') = itoa_nat n" "dropWhile is_digit (itoa_nat n @ ''s'') = ''s''"
    using itoa_nat_digits [of n] by (auto simp: list_all_iff takeWhile_append dropWhile_append second_unit)
  have u: "takeWhile (\<lambda>c. c \<noteq> CHR ''.'' \<and> \<not> is_digit c) ''s'' = ''s''" by (simp add: second_unit)
  have "\<not> 2 ^ 63 < n" "\<not> 2 ^ 63 < n * 1000000000" using assms by linarith+
  moreover have "parse_digits [] * 1000000000 div 10 ^ length ([] :: string) = 0" by (simp add: parse_digits_def)
  moreover have "(if ''s'' \<noteq> [] \<and> hd ''s'' = CHR ''.'' then A else B) = B" for A B :: "string \<times> string" by simp
  ultimately show ?thesis
    unfolding duration_part_def Let_def ds prod.case
    by (simp only: if_False prod.case u second_unit option.case parse_digits_itoa_nat itoa_nat_nonempty simp_thms add_0_right
        length_Cons list.size drop_Suc_Cons drop_0 add_0 plus_nat.add_Suc)
qed

lemma ParseDuration_seconds:
  assumes "n * 1000000000 < 2 ^ 63"
  shows "ParseDuration (itoa_nat n @ ''s'') = Some (of_nat (n * 1000000000))"
proof -
  let ?s = "itoa_nat n @ ''s''"
  have "is_digit (hd ?s)" using hd_itoa_nat [of n] by simp
  then have sign: "hd ?s \<noteq> CHR ''-''" "hd ?s \<noteq> CHR ''+''" using digit_not_sign by blast+
  have zero: "?s \<noteq> ''0''" using arg_cong [of ?s "''0''" last] by auto
  have "duration_part ?s = Some (n * 1000000000, [])" using assms by (intro duration_part_seconds) simp
  then have "duration_parts ?s 0 = (let d = (n * 1000000000) mod 2 ^ 64 in if 2 ^ 63 < d then None else Some d)"
    by (simp add: Let_def duration_parts.simps [of ?s] duration_parts.simps [of "[]"] del: power_numeral)
  also have "n * 1000000000 mod 2 ^ 64 = n * 1000000000" using assms by (intro mod_less) simp
  finally have parts: "duration_parts ?s 0 = Some (n * 1000000000)" using assms by (simp add: Let_def)
  have "\<not> 2 ^ 63 - 1 < n * 1000000000" using assms by simp
  with sign zero parts show ?thesis unfolding ParseDuration_def by (simp del: power_numeral)
qed

end
