(* ===== verification/Tas_Main.thy ===== *)
theory Tas_Main
  imports Tas_Server Tas_Client Http_Start Go_Time
begin

text \<open>
  The command of TAS (\<^verbatim>\<open>cmd/main.go\<close>): its flags, the clients and tickers that \<^verbatim>\<open>tasController\<close> makes or
  fails to make, the watch on policies that the controller runs on (\<^verbatim>\<open>controller/controller.go\<close>), and what the
  process serves.
\<close>

subsection \<open>Clients\<close>

text \<open>The clients of the custom metrics API are parameters; \<open>None\<close> is the panic of \<^verbatim>\<open>OrDie\<close>.\<close>

record ('c, 'd, 'm, 'v, 'cm) metrics_lib =
  NewDiscoveryClientForConfigOrDie :: "'c \<Rightarrow> 'd option"
  NewMemCacheClient :: "'d \<Rightarrow> 'd"
  NewDeferredDiscoveryRESTMapper :: "'d \<Rightarrow> 'm"
  mapper_Reset :: "'m \<Rightarrow> 'm"
  NewAvailableAPIsGetter :: "'d \<Rightarrow> 'v"
  custom_NewForConfig :: "'c \<Rightarrow> 'm \<Rightarrow> 'v \<Rightarrow> 'cm"

definition metrics_NewClient :: "('c, 'd, 'm, 'v, 'cm) metrics_lib \<Rightarrow> 'c \<Rightarrow> 'cm option" where
  "metrics_NewClient lib config = do {
     discoveryClient \<leftarrow> NewDiscoveryClientForConfigOrDie lib config;
     let cachedDiscoveryClient = NewMemCacheClient lib discoveryClient;
     let restMapper = mapper_Reset lib (NewDeferredDiscoveryRESTMapper lib cachedDiscoveryClient);
     let apiVersionsGetter = NewAvailableAPIsGetter lib discoveryClient;
     Some (custom_NewForConfig lib config restMapper apiVersionsGetter)
   }"

text \<open>\<^verbatim>\<open>time.NewTicker\<close> panics unless its period is positive.\<close>

definition NewTicker :: "int64 \<Rightarrow> int64 option" where
  "NewTicker d = (if 0 < sint d then Some d else None)"

subsection \<open>The watch on policies\<close>

text \<open>
  What \<^verbatim>\<open>watch\<close> asks of the informer: the resource, all namespaces, no resynchronisation, and the three
  handlers. The informer runs in a goroutine of its own, which the recovery of \<^verbatim>\<open>Run\<close> does not cover: a handler that
  panics ends the process.
\<close>

record ('cl, 'k) policy_watch =
  pw_client :: 'cl
  pw_resource :: string
  pw_namespace :: string
  pw_resync :: int64
  pw_AddFunc :: "tas_policy option \<Rightarrow> 'k tas_state \<Rightarrow> 'k tas_state option"
  pw_UpdateFunc :: "tas_policy option \<Rightarrow> tas_policy option \<Rightarrow> 'k tas_state \<Rightarrow> 'k tas_state option"
  pw_DeleteFunc :: "tas_policy option \<Rightarrow> 'k tas_state \<Rightarrow> 'k tas_state option"

definition NamespaceAll :: string where "NamespaceAll = []"

definition watch ::
  "go_orders \<Rightarrow> ((string \<times> tas_strategy) list \<Rightarrow> (string \<times> tas_strategy) list) \<Rightarrow> 'k kube_client \<Rightarrow> 'cl \<Rightarrow>
   ('cl, 'k) policy_watch" where
  "watch ords ord kube controller =
     \<lparr>pw_client = controller, pw_resource = Plural, pw_namespace = NamespaceAll, pw_resync = 0,
      pw_AddFunc = onAdd ords ord, pw_UpdateFunc = onUpdate ords ord kube, pw_DeleteFunc = onDelete ords ord kube\<rparr>"

subsection \<open>The command\<close>

record tas_flags =
  tf_kubeConfig :: string
  tf_port :: string
  tf_certFile :: string
  tf_keyFile :: string
  tf_caFile :: string
  tf_syncPeriod :: string

text \<open>The values of the flags that the command line does not set; the path below the home directory is a parameter.\<close>

definition tas_default_flags :: "string \<Rightarrow> tas_flags" where
  "tas_default_flags kubeConfig =
     \<lparr>tf_kubeConfig = kubeConfig, tf_port = ''9001'', tf_certFile = ''/etc/kubernetes/pki/ca.crt'',
      tf_keyFile = ''/etc/kubernetes/pki/ca.key'', tf_caFile = ''/etc/kubernetes/pki/ca.crt'', tf_syncPeriod = ''5s''\<rparr>"

record ('o, 'ser, 'k, 'sch, 'cl, 'pc, 'd, 'm, 'v, 'cm, 'cert) tas_main_env =
  tm_config :: "('o, 'ser, 'k kube_client) config_lib"
  tm_schemes :: "('o, 'sch, 'ser, 'cl, 'pc) scheme_lib"
  tm_metrics :: "(('o, 'ser) rest_config, 'd, 'm, 'v, 'cm) metrics_lib"
  tm_certs :: "'cert cert_env"
  tm_json :: tas_json

text \<open>The goroutines that a controller with its clients has started: its tickers, its watch and its state.\<close>

record ('k, 'cl, 'cm) tas_running =
  tr_kube :: "'k kube_client"
  tr_metrics :: 'cm
  tr_metricTicker :: int64
  tr_enforcerTicker :: int64
  tr_watch :: "go_orders \<Rightarrow> ((string \<times> tas_strategy) list \<Rightarrow> (string \<times> tas_strategy) list) \<Rightarrow> ('cl, 'k) policy_watch"
  tr_start :: "'k tas_state"

text \<open>
  \<^verbatim>\<open>klog.Exit\<close> ends the process with status 1. A panic is recovered, so that \<^verbatim>\<open>tasController\<close> returns, and
  with it the command.
\<close>

definition recovered :: "(process_end + 'r) option \<Rightarrow> process_end + 'r" where
  "recovered result = (case result of None \<Rightarrow> Inl Returns | Some r \<Rightarrow> r)"

definition tasController ::
  "('o, 'ser, 'k, 'sch, 'cl, 'pc, 'd, 'm, 'v, 'cm, 'cert) tas_main_env \<Rightarrow> 'k \<Rightarrow> string \<Rightarrow> string \<Rightarrow>
   process_end + ('k, 'cl, 'cm) tas_running" where
  "tasController env k kubeConfig syncPeriod =
     recovered
       (case GetKubeClient (tm_config env) kubeConfig of
          Inl err \<Rightarrow> Some (Inl (Exits 1))
        | Inr (kubeClient, clientConfig) \<Rightarrow>
            (case ParseDuration syncPeriod of
               None \<Rightarrow> Some (Inl (Exits 1))
             | Some syncDuration \<Rightarrow> do {
                 metricsClient \<leftarrow> metrics_NewClient (tm_metrics env) clientConfig;
                 case NewRest (tm_schemes env) clientConfig of
                   Inl err \<Rightarrow> Some (Inl (Exits 1))
                 | Inr (telpolicyClient, _) \<Rightarrow> do {
                     metricTicker \<leftarrow> NewTicker syncDuration;
                     enforcerTicker \<leftarrow> NewTicker syncDuration;
                     Some (Inr \<lparr>tr_kube = kubeClient, tr_metrics = metricsClient, tr_metricTicker = metricTicker,
                       tr_enforcerTicker = enforcerTicker,
                       tr_watch = (\<lambda>ords ord. watch ords ord kubeClient telpolicyClient),
                       tr_start = tas_start k\<rparr>)
                   }
               }))"

text \<open>
  The server is started in a goroutine before the controller. Together: what is listening, and how the command ended or
  what runs until SIGINT or SIGTERM.
\<close>

definition tas_main ::
  "('o, 'ser, 'k, 'sch, 'cl, 'pc, 'd, 'm, 'v, 'cm, 'cert) tas_main_env \<Rightarrow> 'k \<Rightarrow> tas_flags \<Rightarrow>
   ('k tas_state, 'cert) listening \<times> (process_end + ('k, 'cl, 'cm) tas_running)" where
  "tas_main env k flags =
     (let sch = MetricsExtender (tm_json env) (\<lambda>st. cache_reader (tas_Cache st));
          (l, after) = StartServer (tm_certs env) sch (tf_port flags) (tf_certFile flags) (tf_keyFile flags) (tf_caFile flags) False
      in (l, tasController env k (tf_kubeConfig flags) (tf_syncPeriod flags)))"

subsection \<open>Starting and failing to start\<close>

lemma tasController_runs:
  assumes "tasController env k kubeConfig syncPeriod = Inr run"
  shows "\<exists>cl d. tr_watch run = (\<lambda>ords ord. watch ords ord (tr_kube run) cl) \<and> tr_start run = tas_start k \<and>
    ParseDuration syncPeriod = Some d \<and> 0 < sint d \<and> tr_metricTicker run = d \<and> tr_enforcerTicker run = d"
  using assms
  by (auto simp: tasController_def recovered_def NewTicker_def split: sum.splits option.splits bind_splits if_splits)
    (rule exI, rule refl)

text \<open>C30: the period. If the clients can be made, the command runs with the period of n seconds that the flag gives,
  for every positive n up to the largest duration; with a period of 0 seconds it ends with status 0, as if nothing had gone
  wrong: the panic of the ticker is recovered and the command returns.\<close>

theorem tas_command_period:
  assumes "GetKubeClient (tm_config env) (tf_kubeConfig flags) = Inr (kube, config)"
    and "metrics_NewClient (tm_metrics env) config = Some metrics" "NewRest (tm_schemes env) config = Inr (cl, scheme)"
    and "tf_syncPeriod flags = itoa_nat n @ ''s''" "n * 1000000000 < 2 ^ 63"
  shows "if n = 0 then snd (tas_main env k flags) = Inl Returns
    else \<exists>run. snd (tas_main env k flags) = Inr run \<and> sint (tr_metricTicker run) = int n * 1000000000 \<and>
      tr_enforcerTicker run = tr_metricTicker run \<and> tr_start run = tas_start k"
proof -
  have d: "sint (of_nat (n * 1000000000) :: int64) = int n * 1000000000"
    using sint_of_int64 [of "int (n * 1000000000)"] assms(5) by (simp add: max_int64_def)
  show ?thesis
    using assms(1-4) ParseDuration_seconds [OF assms(5)] d
    by (auto simp: tas_main_def tasController_def recovered_def NewTicker_def split: prod.splits)
qed

subsection \<open>The process\<close>

text \<open>
  The live policies and the state of a command that runs: events of the watch that it has started, for policies with
  distinct names where an update keeps the strategy types, rounds of the metrics' ticker and of the enforcer's.
\<close>

inductive tas_reachable :: "('k, 'cl, 'cm) tas_running \<Rightarrow> tas_policy list \<Rightarrow> 'k tas_state \<Rightarrow> bool"
  for run :: "('k, 'cl, 'cm) tas_running" where
  started: "tas_reachable run [] (tr_start run)"
| added: "tas_reachable run live st \<Longrightarrow> valid_policy pol \<Longrightarrow> tas_name pol \<notin> tas_name ` set live \<Longrightarrow>
    range_order ord \<Longrightarrow> range_order (by_strategy ords) \<Longrightarrow>
    pw_AddFunc (tr_watch run ords ord) (Some pol) st = Some st' \<Longrightarrow> tas_reachable run (pol # live) st'"
| updated: "tas_reachable run live st \<Longrightarrow> old \<in> set live \<Longrightarrow> valid_policy pol \<Longrightarrow>
    tas_name old = tas_name pol \<Longrightarrow> tas_namespace old = tas_namespace pol \<Longrightarrow>
    fst ` set (Strategies old) = fst ` set (Strategies pol) \<Longrightarrow>
    range_order ord \<Longrightarrow> range_order (by_strategy ords) \<Longrightarrow>
    pw_UpdateFunc (tr_watch run ords ord) (Some old) (Some pol) st = Some st' \<Longrightarrow>
    tas_reachable run (pol # remove1 old live) st'"
| deleted: "tas_reachable run live st \<Longrightarrow> pol \<in> set live \<Longrightarrow>
    range_order ord \<Longrightarrow> range_order (by_strategy ords) \<Longrightarrow>
    pw_DeleteFunc (tr_watch run ords ord) (Some pol) st = Some st' \<Longrightarrow> tas_reachable run (remove1 pol live) st'"
| metric_tick: "tas_reachable run live st \<Longrightarrow> range_order ord \<Longrightarrow>
    updateAllMetrics ord (GetNodeMetric api) (tas_Cache st) = Some c \<Longrightarrow> tas_reachable run live (st\<lparr>tas_Cache := c\<rparr>)"
| enforcer_tick: "tas_reachable run live st \<Longrightarrow>
    EnforceRegisteredStrategies ords (tr_kube run) (cache_reader (tas_Cache st)) (tas_Enforcer st, tas_World st) = (e, k) \<Longrightarrow>
    tas_reachable run live (st\<lparr>tas_Enforcer := e, tas_World := k\<rparr>)"

lemma tas_reachable_controller:
  assumes "tasController env k kubeConfig syncPeriod = Inr run" "tas_reachable run live st"
  shows "controller_reachable (tr_kube run) live st"
proof -
  from tasController_runs [OF assms(1)] obtain cl where
    run: "tr_watch run = (\<lambda>ords ord. watch ords ord (tr_kube run) cl)" "tr_start run = tas_start k" by blast
  from assms(2) show ?thesis
    by induction (auto simp: run watch_def intro: controller_reachable.intros)
qed

text \<open>C9: the process of TAS, from its command line on. In every state that its events lead to, a connection changes
  nothing, whatever it asks, and is answered only for a client whose certificate verifies against the CA file of the
  command line; and a client that completes the handshake and asks to filter nodes for a pod labelled with a live policy gets
  exactly the nodes that do not violate the dontschedule strategy of the policy by the cached metrics, with the others
  failed.\<close>

theorem tas_process_answers:
  assumes "tas_main env k flags = (l, Inr run)" "tas_reachable run live st"
  shows "(\<forall>cl r w st'. serve_connection (tm_certs env) l (cl, r) st = Some (w, st') \<longrightarrow>
      st' = st \<and> (w \<noteq> None \<longrightarrow> trusted_client (tm_certs env) (tf_caFile flags) cl)) \<and>
    (\<forall>cl r pol strt nodes. handshake (tm_certs env) (secure_config (tm_certs env) (tf_caFile flags)) cl \<longrightarrow>
      pol \<in> set live \<longrightarrow> getDontScheduleStrategy pol = Inr strt \<longrightarrow> asks_to_filter (tm_json env) pol nodes r \<longrightarrow>
      (\<forall>result. tj_encode_filter (tm_json env) (Some result) \<noteq> None) \<longrightarrow>
      (\<exists>w result. serve_connection (tm_certs env) l (cl, r) st = Some (Some w, st) \<and> answered w = 200 \<and>
         tj_encode_filter (tm_json env) (Some result) = Some (w_body w) \<and>
         fr_Nodes result = Some (keeps (cache_reader (tas_Cache st)) strt nodes) \<and>
         (\<forall>n. map_of (fr_FailedNodes result) n \<noteq> None \<longleftrightarrow>
            n \<in> node_name ` set nodes \<and> violates (cache_reader (tas_Cache st)) n strt)))"
proof (intro conjI allI impI)
  let ?sch = "MetricsExtender (tm_json env) (\<lambda>st. cache_reader (tas_Cache st))"
  from assms(1) have l: "l = fst (StartServer (tm_certs env) ?sch (tf_port flags) (tf_certFile flags) (tf_keyFile flags)
      (tf_caFile flags) False)" and run: "tasController env k (tf_kubeConfig flags) (tf_syncPeriod flags) = Inr run"
    by (auto simp: tas_main_def Let_def split: prod.splits)
  {
    fix cl r w st' assume "serve_connection (tm_certs env) l (cl, r) st = Some (w, st')"
    then show "st' = st" "w \<noteq> None \<Longrightarrow> trusted_client (tm_certs env) (tf_caFile flags) cl"
      using tas_server.serve_keeps [OF refl] handshake_trusted
      by (fastforce simp: l serve_connection_secure split: if_splits)+
  }
  fix cl r pol strt nodes
  assume h: "handshake (tm_certs env) (secure_config (tm_certs env) (tf_caFile flags)) cl" and pol: "pol \<in> set live"
    and strt: "getDontScheduleStrategy pol = Inr strt" and r: "asks_to_filter (tm_json env) pol nodes r"
    and enc: "\<forall>result. tj_encode_filter (tm_json env) (Some result) \<noteq> None"
  note inv = controller_inv_reachable [OF tas_reachable_controller [OF run assms(2)]]
  have "reader_ok (cache_reader (tas_Cache st))" using inv by (simp add: controller_inv_def state_ok_def cache_ok_def)
  moreover have "ReadPolicy (cache_reader (tas_Cache st)) (tas_namespace pol) (tas_name pol) = Inr pol"
    using inv pol by (auto simp: controller_inv_def)
  ultimately obtain w result where "ServeHTTP ?sch r (new_writer, st) = Some (w, st)" "answered w = 200"
    "tj_encode_filter (tm_json env) (Some result) = Some (w_body w)"
    "fr_Nodes result = Some (keeps (cache_reader (tas_Cache st)) strt nodes) \<and>
     (\<forall>n. map_of (fr_FailedNodes result) n \<noteq> None \<longleftrightarrow>
        n \<in> node_name ` set nodes \<and> violates (cache_reader (tas_Cache st)) n strt)"
    using filter_live_policy [where cache = "\<lambda>st. cache_reader (tas_Cache st)", OF _ _ strt r enc] by blast
  with h show "\<exists>w result. serve_connection (tm_certs env) l (cl, r) st = Some (Some w, st) \<and> answered w = 200 \<and>
      tj_encode_filter (tm_json env) (Some result) = Some (w_body w) \<and>
      fr_Nodes result = Some (keeps (cache_reader (tas_Cache st)) strt nodes) \<and>
      (\<forall>n. map_of (fr_FailedNodes result) n \<noteq> None \<longleftrightarrow>
         n \<in> node_name ` set nodes \<and> violates (cache_reader (tas_Cache st)) n strt)"
    by (intro exI [of _ w] exI [of _ result]) (simp add: l serve_connection_secure)
qed

subsection \<open>A run\<close>

definition demo_tas_env ::
  "(unit, unit, cluster, unit, unit, unit, unit, unit, unit, unit, string) tas_main_env" where
  "demo_tas_env =
     \<lparr>tm_config = \<lparr>InClusterConfig = Inr \<lparr>Burst = 0, QPS = 0, GroupVersion = None, APIPath = [], ContentType = [],
          NegotiatedSerializer = None, config_others = ()\<rparr>,
        BuildConfigFromFlags = (\<lambda>url path. Inl ''no file''), NewForConfig = (\<lambda>config. Inr demo_kube)\<rparr>,
      tm_schemes = \<lparr>NewScheme = (), AddKnownTypes = (\<lambda>gv types s. s), AddToGroupVersion = (\<lambda>gv s. s),
        SchemeBuilder_AddToScheme = (\<lambda>fs s. fold (\<lambda>f r. case r of Inl e \<Rightarrow> Inl e | Inr s \<Rightarrow> f s) fs (Inr s)),
        CodecFactory_WithoutConversion = (\<lambda>s. ()), RESTClientFor = (\<lambda>config. Inr ()), NewParameterCodec = (\<lambda>s. ())\<rparr>,
      tm_metrics = \<lparr>NewDiscoveryClientForConfigOrDie = (\<lambda>config. Some ()), NewMemCacheClient = id,
        NewDeferredDiscoveryRESTMapper = id, mapper_Reset = id, NewAvailableAPIsGetter = id,
        custom_NewForConfig = (\<lambda>config m v. ())\<rparr>,
      tm_certs = demo_certs, tm_json = demo_json\<rparr>"

definition demo_tas_flags :: "nat \<Rightarrow> tas_flags" where
  "demo_tas_flags n = (tas_default_flags ''config'')\<lparr>tf_caFile := ''ca.crt'', tf_syncPeriod := itoa_nat n @ ''s''\<rparr>"

lemma demo_tas_clients:
  obtains config where "GetKubeClient (tm_config demo_tas_env) path = Inr (demo_kube, config)"
    "metrics_NewClient (tm_metrics demo_tas_env) config = Some ()" "NewRest (tm_schemes demo_tas_env) config = Inr ((), ())"
  by (simp add: demo_tas_env_def GetKubeClient_def GetKubeClientExt_def metrics_NewClient_def NewRest_def crdScheme_def
      addTypesToSchema_def Let_def)

lemma tas_command_period_witness:
  "snd (tas_main demo_tas_env demo_cluster (demo_tas_flags 0)) = Inl Returns \<and>
   (\<exists>run. snd (tas_main demo_tas_env demo_cluster (demo_tas_flags 5)) = Inr run \<and> sint (tr_metricTicker run) = 5000000000)"
proof -
  obtain config where c: "GetKubeClient (tm_config demo_tas_env) (tf_kubeConfig (demo_tas_flags n)) = Inr (demo_kube, config)"
    "metrics_NewClient (tm_metrics demo_tas_env) config = Some ()" "NewRest (tm_schemes demo_tas_env) config = Inr ((), ())" for n
    by (rule demo_tas_clients [of "tf_kubeConfig (demo_tas_flags 0)"]) (simp add: demo_tas_flags_def)
  have f: "tf_syncPeriod (demo_tas_flags n) = itoa_nat n @ ''s''" for n by (simp add: demo_tas_flags_def)
  from tas_command_period [OF c f, of 0 demo_cluster] tas_command_period [OF c f, of 5 demo_cluster] show ?thesis by auto
qed

lemma tas_process_answers_witness:
  "\<exists>l run st w. tas_main demo_tas_env demo_cluster (demo_tas_flags 5) = (l, Inr run) \<and> tas_reachable run [demo_policy] st \<and>
     serve_connection demo_certs l (demo_client (Some ''ca''), demo_request) st = Some (Some w, st) \<and> answered w = 200"
proof -
  obtain config where c: "GetKubeClient (tm_config demo_tas_env) (tf_kubeConfig (demo_tas_flags 5)) = Inr (demo_kube, config)"
    "metrics_NewClient (tm_metrics demo_tas_env) config = Some ()" "NewRest (tm_schemes demo_tas_env) config = Inr ((), ())"
    by (rule demo_tas_clients)
  have "ParseDuration (tf_syncPeriod (demo_tas_flags 5)) = Some 5000000000"
    using ParseDuration_seconds [of 5] by (simp add: demo_tas_flags_def)
  then obtain l run where main: "tas_main demo_tas_env demo_cluster (demo_tas_flags 5) = (l, Inr run)" and
    run: "tr_start run = tas_start demo_cluster" "\<And>ords ord. pw_AddFunc (tr_watch run ords ord) = onAdd ords ord"
    using c by (auto simp: tas_main_def tasController_def recovered_def NewTicker_def watch_def split_beta)
  obtain st where "onAdd demo_orders id (Some demo_policy) (tas_start demo_cluster) = Some st"
    using onAdd_demo_world by auto
  moreover have "range_order (by_strategy demo_orders)" by (simp add: demo_orders_def)
  ultimately have st: "tas_reachable run [demo_policy] st"
    using tas_reachable.added [OF tas_reachable.started [of run] valid_demo_policy _ range_order_id, of demo_orders st]
    by (simp add: run)
  have s: "getDontScheduleStrategy demo_policy = Inr (demo_strategy '''' [demo_rule ''GreaterThan'' 40 []])"
    by (simp add: getDontScheduleStrategy_def demo_policy_def gm_getd_def demo_strategy_def deschedule_StrategyType_def
        dontschedule_StrategyType_def)
  have r: "asks_to_filter (tm_json demo_tas_env) demo_policy [demo_node ''n1'' []] demo_request"
    by (simp add: asks_to_filter_def demo_request_def demo_json_def acceptable_def Header_Get_def DecodeExtenderRequest_def
        demo_pod_def demo_policy_def nil_get_def demo_tas_env_def)
  have "handshake demo_certs (secure_config demo_certs ''ca.crt'') (demo_client (Some ''ca''))" by code_simp
  then have h: "handshake (tm_certs demo_tas_env) (secure_config (tm_certs demo_tas_env) (tf_caFile (demo_tas_flags 5)))
      (demo_client (Some ''ca''))" by (simp add: demo_tas_env_def demo_tas_flags_def)
  have "\<forall>result. tj_encode_filter (tm_json demo_tas_env) (Some result) \<noteq> None" by (simp add: demo_tas_env_def demo_json_def)
  with tas_process_answers [OF main st] h s r main st show ?thesis by (fastforce simp: demo_tas_env_def)
qed

end
