(* ===== verification/Tas_DeepCopy.thy ===== *)
theory Tas_DeepCopy
  imports Tas_Policy
begin

text \<open>
  Copying policies (\<^verbatim>\<open>telemetrypolicy/api/v1alpha1/zz_generated_deepcopy.go\<close>), over a store that shows what
  is shared: a policy holds the address of its map of strategies, a list the address of its array of items. What the
  controller gets from these functions it only reads, so that elsewhere a policy is its value.
\<close>

subsection \<open>The store\<close>

text \<open>
  \<^verbatim>\<open>ObjectMeta\<close> and its store belong to apimachinery, with its \<^verbatim>\<open>DeepCopyInto\<close> as a parameter; \<open>None\<close>
  among the addresses is nil. The status of a policy has no fields.
\<close>

record 'm policy_struct =
  ps_TypeMeta :: "string \<times> string"
  ps_ObjectMeta :: 'm
  ps_Spec :: "nat option"
  ps_Status :: unit

record 'l list_struct =
  ls_TypeMeta :: "string \<times> string"
  ls_ListMeta :: 'l
  ls_Items :: "nat option"

record ('m, 'l, 'w) go_store =
  fresh_address :: nat
  at_policy :: "nat \<rightharpoonup> 'm policy_struct"
  at_list :: "nat \<rightharpoonup> 'l list_struct"
  at_spec :: "nat \<rightharpoonup> nat option"
  at_status :: "nat \<rightharpoonup> unit"
  at_items :: "nat \<rightharpoonup> 'm policy_struct list"
  at_strategies :: "nat \<rightharpoonup> (string, tas_strategy) gomap"
  meta_store :: 'w

type_synonym ('m, 'w) meta_copy = "'m \<Rightarrow> 'w \<Rightarrow> 'm \<times> 'w"

datatype runtime_object = PolicyObject nat | PolicyListObject nat

subsection \<open>The copies\<close>

text \<open>
  \<^verbatim>\<open>DeepCopyInto\<close> overwrites all of the value that it is given an address of: here the value it writes. The
  spec is copied as it is, with the address of its map.
\<close>

definition TASPolicySpec_DeepCopyInto :: "nat option \<Rightarrow> nat option" where
  "TASPolicySpec_DeepCopyInto spec = spec"

definition TASPolicyStatus_DeepCopyInto :: "unit \<Rightarrow> unit" where
  "TASPolicyStatus_DeepCopyInto status = status"

definition TASPolicy_DeepCopyInto ::
  "('m, 'w) meta_copy \<Rightarrow> 'm policy_struct \<Rightarrow> 'w \<Rightarrow> 'm policy_struct \<times> 'w" where
  "TASPolicy_DeepCopyInto copy_meta p w =
     (let out = p;
          out = out\<lparr>ps_TypeMeta := ps_TypeMeta p\<rparr>;
          (meta, w) = copy_meta (ps_ObjectMeta p) w;
          out = out\<lparr>ps_ObjectMeta := meta\<rparr>;
          out = out\<lparr>ps_Spec := ps_Spec p\<rparr>;
          out = out\<lparr>ps_Status := ps_Status p\<rparr>
      in (out, w))"

fun copy_items :: "('m, 'w) meta_copy \<Rightarrow> 'm policy_struct list \<Rightarrow> 'w \<Rightarrow> 'm policy_struct list \<times> 'w" where
  "copy_items copy_meta [] w = ([], w)"
| "copy_items copy_meta (p # ps) w =
     (let (out, w) = TASPolicy_DeepCopyInto copy_meta p w;
          (outs, w) = copy_items copy_meta ps w
      in (out # outs, w))"

definition TASPolicyList_DeepCopyInto ::
  "('m, 'w) meta_copy \<Rightarrow> 'l list_struct \<Rightarrow> ('m, 'l, 'w) go_store \<Rightarrow> ('l list_struct \<times> ('m, 'l, 'w) go_store) option" where
  "TASPolicyList_DeepCopyInto copy_meta l h =
     (let out = l;
          out = out\<lparr>ls_TypeMeta := ls_TypeMeta l\<rparr>;
          out = out\<lparr>ls_ListMeta := ls_ListMeta l\<rparr>
      in case ls_Items l of
           None \<Rightarrow> Some (out, h)
         | Some a \<Rightarrow> do {
             items \<leftarrow> at_items h a;
             let (copies, w) = copy_items copy_meta items (meta_store h);
             let new = fresh_address h;
             Some (out\<lparr>ls_Items := Some new\<rparr>,
               h\<lparr>fresh_address := new + 1, at_items := (at_items h)(new \<mapsto> copies), meta_store := w\<rparr>)
           })"

text \<open>The copies with an address of their own; \<open>None\<close> of the option is an address that nothing is stored at.\<close>

definition TASPolicy_DeepCopy ::
  "('m, 'w) meta_copy \<Rightarrow> nat option \<Rightarrow> ('m, 'l, 'w) go_store \<Rightarrow> (nat option \<times> ('m, 'l, 'w) go_store) option" where
  "TASPolicy_DeepCopy copy_meta ptr h =
     (case ptr of
        None \<Rightarrow> Some (None, h)
      | Some a \<Rightarrow> do {
          p \<leftarrow> at_policy h a;
          let (copy, w) = TASPolicy_DeepCopyInto copy_meta p (meta_store h);
          let new = fresh_address h;
          Some (Some new, h\<lparr>fresh_address := new + 1, at_policy := (at_policy h)(new \<mapsto> copy), meta_store := w\<rparr>)
        })"

definition TASPolicyList_DeepCopy ::
  "('m, 'w) meta_copy \<Rightarrow> nat option \<Rightarrow> ('m, 'l, 'w) go_store \<Rightarrow> (nat option \<times> ('m, 'l, 'w) go_store) option" where
  "TASPolicyList_DeepCopy copy_meta ptr h =
     (case ptr of
        None \<Rightarrow> Some (None, h)
      | Some a \<Rightarrow> do {
          l \<leftarrow> at_list h a;
          (copy, h) \<leftarrow> TASPolicyList_DeepCopyInto copy_meta l h;
          let new = fresh_address h;
          Some (Some new, h\<lparr>fresh_address := new + 1, at_list := (at_list h)(new \<mapsto> copy)\<rparr>)
        })"

definition TASPolicySpec_DeepCopy ::
  "nat option \<Rightarrow> ('m, 'l, 'w) go_store \<Rightarrow> (nat option \<times> ('m, 'l, 'w) go_store) option" where
  "TASPolicySpec_DeepCopy ptr h =
     (case ptr of
        None \<Rightarrow> Some (None, h)
      | Some a \<Rightarrow> do {
          spec \<leftarrow> at_spec h a;
          let new = fresh_address h;
          Some (Some new, h\<lparr>fresh_address := new + 1, at_spec := (at_spec h)(new \<mapsto> TASPolicySpec_DeepCopyInto spec)\<rparr>)
        })"

definition TASPolicyStatus_DeepCopy ::
  "nat option \<Rightarrow> ('m, 'l, 'w) go_store \<Rightarrow> (nat option \<times> ('m, 'l, 'w) go_store) option" where
  "TASPolicyStatus_DeepCopy ptr h =
     (case ptr of
        None \<Rightarrow> Some (None, h)
      | Some a \<Rightarrow> do {
          status \<leftarrow> at_status h a;
          let new = fresh_address h;
          Some (Some new, h\<lparr>fresh_address := new + 1, at_status := (at_status h)(new \<mapsto> TASPolicyStatus_DeepCopyInto status)\<rparr>)
        })"

text \<open>A copy of nil is the nil interface.\<close>

definition TASPolicy_DeepCopyObject ::
  "('m, 'w) meta_copy \<Rightarrow> nat option \<Rightarrow> ('m, 'l, 'w) go_store \<Rightarrow> (runtime_object option \<times> ('m, 'l, 'w) go_store) option" where
  "TASPolicy_DeepCopyObject copy_meta ptr h = do {
     (c, h) \<leftarrow> TASPolicy_DeepCopy copy_meta ptr h;
     Some (map_option PolicyObject c, h)
   }"

definition TASPolicyList_DeepCopyObject ::
  "('m, 'w) meta_copy \<Rightarrow> nat option \<Rightarrow> ('m, 'l, 'w) go_store \<Rightarrow> (runtime_object option \<times> ('m, 'l, 'w) go_store) option" where
  "TASPolicyList_DeepCopyObject copy_meta ptr h = do {
     (c, h) \<leftarrow> TASPolicyList_DeepCopy copy_meta ptr h;
     Some (map_option PolicyListObject c, h)
   }"

subsection \<open>What a copy shares\<close>

text \<open>What is read at an address: the strategies of a policy, and those of the items of a list.\<close>

definition strategies_at :: "('m, 'l, 'w) go_store \<Rightarrow> nat option \<Rightarrow> (string, tas_strategy) gomap" where
  "strategies_at h spec = (case spec of None \<Rightarrow> [] | Some a \<Rightarrow> (case at_strategies h a of None \<Rightarrow> [] | Some m \<Rightarrow> m))"

definition policy_strategies :: "('m, 'l, 'w) go_store \<Rightarrow> nat \<Rightarrow> (string, tas_strategy) gomap" where
  "policy_strategies h p = (case at_policy h p of None \<Rightarrow> [] | Some v \<Rightarrow> strategies_at h (ps_Spec v))"

text \<open>The Go assignment \<^verbatim>\<open>p.Spec.Strategies[name] = s\<close>; to a nil map it panics.\<close>

definition assign_strategy ::
  "nat \<Rightarrow> string \<Rightarrow> tas_strategy \<Rightarrow> ('m, 'l, 'w) go_store \<Rightarrow> ('m, 'l, 'w) go_store option" where
  "assign_strategy p name s h = do {
     v \<leftarrow> at_policy h p;
     a \<leftarrow> ps_Spec v;
     m \<leftarrow> at_strategies h a;
     Some (h\<lparr>at_strategies := (at_strategies h)(a \<mapsto> AList.update name s m)\<rparr>)
   }"

text \<open>The addresses in use are below the next one.\<close>

definition store_ok :: "('m, 'l, 'w) go_store \<Rightarrow> bool" where
  "store_ok h \<longleftrightarrow> (\<forall>a \<ge> fresh_address h. at_policy h a = None \<and> at_list h a = None \<and> at_items h a = None)"

lemma TASPolicy_DeepCopyInto_shape:
  "TASPolicy_DeepCopyInto copy_meta p w = (p\<lparr>ps_ObjectMeta := fst (copy_meta (ps_ObjectMeta p) w)\<rparr>, snd (copy_meta (ps_ObjectMeta p) w))"
  by (cases p) (simp add: TASPolicy_DeepCopyInto_def Let_def split_beta)

lemma TASPolicy_DeepCopy_cases:
  assumes "TASPolicy_DeepCopy copy_meta (Some a) h = Some (c, h')"
  obtains p where "at_policy h a = Some p" "c = Some (fresh_address h)"
    "h' = h\<lparr>fresh_address := fresh_address h + 1,
       at_policy := (at_policy h)(fresh_address h \<mapsto> p\<lparr>ps_ObjectMeta := fst (copy_meta (ps_ObjectMeta p) (meta_store h))\<rparr>),
       meta_store := snd (copy_meta (ps_ObjectMeta p) (meta_store h))\<rparr>"
  using assms by (auto simp: TASPolicy_DeepCopy_def TASPolicy_DeepCopyInto_shape Let_def split: bind_splits)

text \<open>C31: the copy of a policy is not deep. It has a new address and the same strategies, and the policy copied is
  as it was; but both have one map of strategies: a strategy assigned through either is read through both.\<close>

theorem policy_copy_shares_strategies:
  assumes "store_ok h" "TASPolicy_DeepCopy copy_meta (Some a) h = Some (Some c, h')"
  shows "at_policy h c = None \<and> at_policy h' a = at_policy h a \<and> at_strategies h' = at_strategies h \<and>
    policy_strategies h' c = policy_strategies h a \<and> store_ok h' \<and>
    (\<forall>p q name s h2. {p, q} = {a, c} \<longrightarrow> assign_strategy p name s h' = Some h2 \<longrightarrow>
       map_of (policy_strategies h2 q) name = Some s \<and> policy_strategies h2 q = policy_strategies h2 p)"
proof -
  from TASPolicy_DeepCopy_cases [OF assms(2)] obtain p where p: "at_policy h a = Some p" and c: "c = fresh_address h"
    and h': "h' = h\<lparr>fresh_address := fresh_address h + 1,
       at_policy := (at_policy h)(fresh_address h \<mapsto> p\<lparr>ps_ObjectMeta := fst (copy_meta (ps_ObjectMeta p) (meta_store h))\<rparr>),
       meta_store := snd (copy_meta (ps_ObjectMeta p) (meta_store h))\<rparr>" by blast
  from assms(1) have fresh: "at_policy h c = None" by (simp add: store_ok_def c)
  with p have ac: "a \<noteq> c" by auto
  have specs: "map_option ps_Spec (at_policy h' x) = Some (ps_Spec p)" if "x \<in> {a, c}" for x
    using that p ac by (auto simp: h' c)
  have shared: "map_of (policy_strategies h2 y) name = Some s \<and> policy_strategies h2 y = policy_strategies h2 x"
    if "{x, y} = {a, c}" "assign_strategy x name s h' = Some h2" for x y name s h2
  proof -
    have "x \<in> {a, c}" "y \<in> {a, c}" using that(1) by auto
    with specs that(2) show ?thesis
      by (fastforce simp: assign_strategy_def policy_strategies_def strategies_at_def split: bind_splits)
  qed
  have "store_ok h'" using assms(1) by (auto simp: store_ok_def h')
  moreover have "policy_strategies h' c = policy_strategies h a"
    by (simp add: policy_strategies_def strategies_at_def p h' c split: option.split)
  moreover have "at_policy h' a = at_policy h a" "at_strategies h' = at_strategies h"
    using p ac by (simp_all add: h' c)
  ultimately show ?thesis using fresh
    by (intro conjI allI impI) (erule (1) shared [THEN conjunct1] shared [THEN conjunct2] | assumption | simp)+
qed

text \<open>The copy of a list has an array of its own, whose items share their maps with the items copied.\<close>

lemma copy_items_specs: "map ps_Spec (fst (copy_items copy_meta ps w)) = map ps_Spec ps"
  by (induction ps arbitrary: w) (auto simp: TASPolicy_DeepCopyInto_shape split_beta Let_def)

lemma list_copy_shares_strategies:
  assumes "TASPolicyList_DeepCopyInto copy_meta l h = Some (l', h')" "store_ok h" "ls_Items l = Some a"
  shows "\<exists>a' items copies. ls_Items l' = Some a' \<and> at_items h a' = None \<and> at_items h a = Some items \<and>
    at_items h' a' = Some copies \<and> map ps_Spec copies = map ps_Spec items \<and> at_strategies h' = at_strategies h"
proof -
  from assms(1,3) obtain items where items: "at_items h a = Some items"
    and h': "h' = h\<lparr>fresh_address := fresh_address h + 1,
      at_items := (at_items h)(fresh_address h \<mapsto> fst (copy_items copy_meta items (meta_store h))),
      meta_store := snd (copy_items copy_meta items (meta_store h))\<rparr>" "ls_Items l' = Some (fresh_address h)"
    by (auto simp: TASPolicyList_DeepCopyInto_def Let_def split_beta split: bind_splits)
  moreover have "at_items h (fresh_address h) = None" using assms(2) by (simp add: store_ok_def)
  ultimately show ?thesis by (simp add: copy_items_specs)
qed

text \<open>A store with one policy, whose map has no entry.\<close>

definition demo_store :: "(string, unit, nat) go_store" where
  "demo_store = \<lparr>fresh_address = 1,
     at_policy = [0 \<mapsto> \<lparr>ps_TypeMeta = ([], []), ps_ObjectMeta = ''p'', ps_Spec = Some 0, ps_Status = ()\<rparr>],
     at_list = Map.empty, at_spec = Map.empty, at_status = Map.empty, at_items = Map.empty,
     at_strategies = [0 \<mapsto> []], meta_store = 0\<rparr>"

definition demo_spec :: tas_strategy where
  "demo_spec = \<lparr>PolicyName = ''p'', LogicalOperator = [], Rules = []\<rparr>"

lemma policy_copy_shares_strategies_witness:
  "\<exists>h' h2. TASPolicy_DeepCopy (\<lambda>m w. (m, w + 1)) (Some 0) demo_store = Some (Some 1, h') \<and>
     assign_strategy 1 ''dontschedule'' demo_spec h' = Some h2 \<and>
     policy_strategies demo_store 0 = [] \<and> map_of (policy_strategies h2 0) ''dontschedule'' = Some demo_spec"
proof -
  let ?copy = "TASPolicy_DeepCopy (\<lambda>m w. (m, w + 1)) (Some 0) demo_store"
  have "map_option fst ?copy = Some (Some 1)"
    "?copy \<bind> (\<lambda>(c, h'). assign_strategy 1 ''dontschedule'' demo_spec h') \<noteq> None"
    by (simp_all add: TASPolicy_DeepCopy_def TASPolicy_DeepCopyInto_def demo_store_def assign_strategy_def Let_def)
  then obtain h' h2 where c: "?copy = Some (Some 1, h')" "assign_strategy 1 ''dontschedule'' demo_spec h' = Some h2"
    by (cases ?copy) auto
  have ok: "store_ok demo_store" and e: "policy_strategies demo_store 0 = []"
    by (simp_all add: store_ok_def demo_store_def policy_strategies_def strategies_at_def)
  have "{1, 0} = {0 :: nat, 1}" by auto
  with policy_copy_shares_strategies [OF ok c(1)] c(2) have "map_of (policy_strategies h2 0) ''dontschedule'' = Some demo_spec"
    by blast
  with c e show ?thesis by blast
qed

end
