(* ===== verification/Tas_Cleanup.thy ===== *)
theory Tas_Cleanup
  imports Tas_Controller
begin

text \<open>
  What the deletion of a policy leaves on the nodes: the effect of \<^verbatim>\<open>Cleanup\<close> of the deschedule and the labeling
  strategy (\<^verbatim>\<open>strategies/*/enforce.go\<close>), and of the controller's delete handler that calls it through the enforcer.
\<close>

subsection \<open>An API server with label selectors\<close>

text \<open>
  The documented behaviour of the API server that cleaning up relies on, in its states \<open>ok\<close>: patches as in
  \<open>patches_nodes\<close>, and a list of nodes has every node whose labels have the selected values once, with its labels.
\<close>

definition serves_nodes ::
  "'k kube_client \<Rightarrow> ('k \<Rightarrow> string \<Rightarrow> (string, string) gomap option) \<Rightarrow> ('k \<Rightarrow> bool) \<Rightarrow> bool" where
  "serves_nodes kube labels ok \<longleftrightarrow> patches_nodes kube labels \<and>
     (\<forall>k n payload. ok k \<longrightarrow> ok (snd (patch_node kube n payload k))) \<and>
     (\<forall>k n lbls. ok k \<longrightarrow> labels k n = Some lbls \<longrightarrow> wf_map lbls) \<and>
     (\<forall>k selector. ok k \<longrightarrow> (\<exists>nodes. list_nodes kube selector k = Inr nodes \<and> distinct (map node_name nodes) \<and>
        (\<forall>node \<in> set nodes. labels k (node_name node) = Some (labels_of node)) \<and>
        (\<forall>n lbls. labels k n = Some lbls \<longrightarrow>
           (n \<in> node_name ` set nodes \<longleftrightarrow> (\<forall>(l, v) \<in> set selector. map_of lbls l = Some v)))))"

lemma serves_nodesD:
  assumes "serves_nodes kube labels ok"
  shows "patches_nodes kube labels" "ok k \<Longrightarrow> ok (snd (patch_node kube n payload k))"
    "ok k \<Longrightarrow> labels k n = Some lbls \<Longrightarrow> wf_map lbls"
  using assms unfolding serves_nodes_def by blast+

lemma serves_list:
  assumes "serves_nodes kube labels ok" "ok k"
  obtains nodes where "list_nodes kube selector k = Inr nodes" "distinct (map node_name nodes)"
    "\<And>node. node \<in> set nodes \<Longrightarrow> labels k (node_name node) = Some (labels_of node) \<and> wf_map (labels_of node)"
    "\<And>n lbls. labels k n = Some lbls \<Longrightarrow>
       n \<in> node_name ` set nodes \<longleftrightarrow> (\<forall>(l, v) \<in> set selector. map_of lbls l = Some v)"
proof -
  from assms obtain nodes where *: "list_nodes kube selector k = Inr nodes" "distinct (map node_name nodes)"
    "\<forall>node \<in> set nodes. labels k (node_name node) = Some (labels_of node)"
    "\<forall>n lbls. labels k n = Some lbls \<longrightarrow>
       (n \<in> node_name ` set nodes \<longleftrightarrow> (\<forall>(l, v) \<in> set selector. map_of lbls l = Some v))"
    unfolding serves_nodes_def by blast
  show thesis by (rule that [OF *(1,2)]) (use * serves_nodesD(3) [OF assms] in blast)+
qed

text \<open>Label names have no tilde: the API server admits none.\<close>

definition plain_labels :: "('k \<Rightarrow> string \<Rightarrow> (string, string) gomap option) \<Rightarrow> 'k \<Rightarrow> bool" where
  "plain_labels labels k \<longleftrightarrow> (\<forall>n lbls l. labels k n = Some lbls \<longrightarrow> l \<in> fst ` set lbls \<longrightarrow> CHR ''~'' \<notin> set l)"

lemma patchNode_ok:
  assumes "serves_nodes kube labels ok" "ok k"
  shows "ok (snd (patchNode kube n payload k))"
  using serves_nodesD(2) [OF assms, of n payload]
  by (cases "patch_node kube n payload k") (auto simp: patchNode_def split: option.split)

text \<open>Several patches of one node are one patch.\<close>

lemma patches_in_turn:
  assumes "serves_nodes kube labels ok" "ok k" "labels k n = Some lbls" "apply_patch (concat payloads) lbls = Some lbls'"
  shows "ok (fold (\<lambda>payload k. snd (patchNode kube n payload k)) payloads k) \<and>
    labels (fold (\<lambda>payload k. snd (patchNode kube n payload k)) payloads k) = (labels k)(n \<mapsto> lbls')"
  using assms(2-4)
proof (induction payloads arbitrary: k lbls)
  case Nil
  then show ?case by (simp add: apply_patch_def fun_upd_idem)
next
  case (Cons payload payloads)
  from Cons.prems(3) obtain mid where mid: "apply_patch payload lbls = Some mid" "apply_patch (concat payloads) mid = Some lbls'"
    by (auto simp: apply_patch_def split: bind_splits)
  obtain k1 where k1: "patchNode kube n payload k = (None, k1)" "labels k1 = (labels k)(n \<mapsto> mid)"
    using patchNode_accepted [OF serves_nodesD(1) [OF assms(1)] Cons.prems(2) mid(1)] by blast
  have "ok k1" using patchNode_ok [OF assms(1) Cons.prems(1), of n payload] k1(1) by simp
  then show ?case using Cons.IH [of k1 mid] mid(2) k1 by (auto simp: fun_eq_iff)
qed

subsection \<open>Cleaning up after a policy\<close>

text \<open>What becomes of the labels of a node, by the types of the strategies that are cleaned up.\<close>

definition cleaned :: "string set \<Rightarrow> string \<Rightarrow> (string \<Rightarrow> string option) \<Rightarrow> string \<Rightarrow> string option" where
  "cleaned types policyName lbls l =
     (if deschedule_StrategyType \<in> types \<and> l = policyName \<and> lbls l = Some defaultPolicyValue \<or>
         labeling_StrategyType \<in> types \<and> prefix (getPrefix policyName) l
      then None else lbls l)"

definition cleans ::
  "('k \<Rightarrow> string \<Rightarrow> (string, string) gomap option) \<Rightarrow> string set \<Rightarrow> string \<Rightarrow> 'k \<Rightarrow> 'k \<Rightarrow> bool" where
  "cleans labels types policyName k k' \<longleftrightarrow>
     (\<forall>n. map_option map_of (labels k' n) = map_option (\<lambda>lbls. cleaned types policyName (map_of lbls)) (labels k n))"

lemma cleaned_twice: "cleaned types p (cleaned types' p lbls) = cleaned (types \<union> types') p lbls"
  by (auto simp: fun_eq_iff cleaned_def)

lemma cleaned_none [simp]: "cleaned {} p lbls = lbls"
  by (simp add: fun_eq_iff cleaned_def)

lemma cleans_trans: "cleans labels types p k k1 \<Longrightarrow> cleans labels types' p k1 k2 \<Longrightarrow> cleans labels (types' \<union> types) p k k2"
proof -
  assume 1: "cleans labels types p k k1" "cleans labels types' p k1 k2"
  have "map_option map_of (labels k2 n) = map_option (\<lambda>lbls. cleaned (types' \<union> types) p (map_of lbls)) (labels k n)" for n
  proof -
    have "map_option map_of (labels k2 n) = map_option (cleaned types' p) (map_option map_of (labels k1 n))"
      using 1(2) by (simp add: cleans_def option.map_comp comp_def)
    also have "\<dots> = map_option (cleaned types' p) (map_option (\<lambda>lbls. cleaned types p (map_of lbls)) (labels k n))"
      using 1(1) by (simp only: cleans_def)
    finally show ?thesis by (simp add: option.map_comp comp_def cleaned_twice)
  qed
  then show ?thesis by (simp add: cleans_def)
qed

lemma cleans_plain:
  assumes "cleans labels types p k k'" "plain_labels labels k"
  shows "plain_labels labels k'"
proof -
  have "CHR ''~'' \<notin> set l" if l: "labels k' n = Some lbls" "l \<in> fst ` set lbls" for n lbls l
  proof -
    have *: "map_option map_of (labels k' n) = map_option (\<lambda>lbls. cleaned types p (map_of lbls)) (labels k n)"
      using assms(1) by (simp add: cleans_def)
    obtain old where old: "labels k n = Some old" using * l(1) by (cases "labels k n") simp_all
    have "map_of lbls l = cleaned types p (map_of old) l" using * l(1) old by simp
    moreover have "map_of lbls l \<noteq> None" using l(2) by (simp add: map_of_None_keys)
    ultimately have "map_of old l \<noteq> None" by (auto simp: cleaned_def split: if_splits)
    then show ?thesis using assms(2) old unfolding plain_labels_def map_of_None_keys by blast
  qed
  then show ?thesis unfolding plain_labels_def by blast
qed

text \<open>A loop over the listed nodes that cleans each of them cleans the cluster.\<close>

lemma cleans_listed:
  assumes "\<And>node. node \<in> set nodes \<Longrightarrow> labels k (node_name node) = Some (labels_of node) \<and>
      labels k' (node_name node) = Some (result node) \<and>
      map_of (result node) = cleaned types p (map_of (labels_of node))"
    and "\<And>n. n \<notin> node_name ` set nodes \<Longrightarrow> labels k' n = labels k n"
    and "\<And>n lbls. labels k n = Some lbls \<Longrightarrow> n \<notin> node_name ` set nodes \<Longrightarrow> cleaned types p (map_of lbls) = map_of lbls"
  shows "cleans labels types p k k'"
proof -
  have "map_option map_of (labels k' n) = map_option (\<lambda>lbls. cleaned types p (map_of lbls)) (labels k n)" for n
  proof (cases "n \<in> node_name ` set nodes")
    case True
    then show ?thesis using assms(1) by auto
  next
    case False
    then show ?thesis using assms(2) [OF False] assms(3) [of n] by (cases "labels k n") simp_all
  qed
  then show ?thesis by (simp add: cleans_def)
qed

lemma deschedule_Cleanup_cleans:
  assumes "serves_nodes kube labels ok" "ok k" "CHR ''~'' \<notin> set p"
  shows "\<exists>k'. deschedule_Cleanup kube p k = (None, k') \<and> ok k' \<and> cleans labels {deschedule_StrategyType} p k k'"
proof -
  obtain nodes where nodes: "list_nodes kube [(p, ''violating'')] k = Inr nodes" "distinct (map node_name nodes)"
    "\<And>node. node \<in> set nodes \<Longrightarrow> labels k (node_name node) = Some (labels_of node) \<and> wf_map (labels_of node)"
    "\<And>n lbls. labels k n = Some lbls \<Longrightarrow> n \<in> node_name ` set nodes \<longleftrightarrow> map_of lbls p = Some ''violating''"
    using serves_list [OF assms(1,2), of "[(p, ''violating'')]"] by auto
  let ?P = "\<lambda>node. if map_of (labels_of node) p \<noteq> None then [createLabelPatchValue ''remove'' p []] else []"
  let ?F = "\<lambda>node k. snd (patchNode kube (node_name node) (?P node) k)"
  let ?k = "fold ?F nodes k"
  have marked: "map_of (labels_of node) p = Some ''violating''" if "node \<in> set nodes" for node
    using nodes(3) [OF that] nodes(4) that by blast
  have patch: "apply_patch (?P node) (labels_of node) = Some (AList.delete p (labels_of node))" if "node \<in> set nodes" for node
    using marked [OF that] by (simp add: apply_patch_def apply_op_def unescape_plain [OF assms(3)])
  have loop: "ok ?k \<and> (\<forall>node \<in> set nodes. labels ?k (node_name node) = Some (AList.delete p (labels_of node))) \<and>
      (\<forall>n. n \<notin> node_name ` set nodes \<longrightarrow> labels ?k n = labels k n)"
  proof (rule patch_loop [where I = ok and K = "\<lambda>k. k" and P = ?P])
    fix node s lbls
    assume "ok s" "labels s (node_name node) = Some (labels_of node)" "apply_patch (?P node) (labels_of node) = Some lbls"
    with patches_in_turn [OF assms(1), of s "node_name node" "labels_of node" "[?P node]" lbls]
    show "ok (?F node s) \<and> labels (?F node s) = (labels s)(node_name node \<mapsto> lbls)" by simp
  qed (use nodes patch assms(2) in auto)
  have labeling: "labeling_StrategyType \<noteq> deschedule_StrategyType"
    by (simp add: labeling_StrategyType_def deschedule_StrategyType_def)
  have "cleans labels {deschedule_StrategyType} p k ?k"
  proof (rule cleans_listed [where nodes = nodes and result = "\<lambda>node. AList.delete p (labels_of node)"])
    fix node assume "node \<in> set nodes"
    with marked [OF this] nodes(3) loop show "labels k (node_name node) = Some (labels_of node) \<and>
        labels ?k (node_name node) = Some (AList.delete p (labels_of node)) \<and>
        map_of (AList.delete p (labels_of node)) = cleaned {deschedule_StrategyType} p (map_of (labels_of node))"
      by (auto simp: fun_eq_iff cleaned_def delete_conv' defaultPolicyValue_def labeling)
  qed (use loop nodes(4) in \<open>auto simp: fun_eq_iff cleaned_def defaultPolicyValue_def labeling\<close>)
  then show ?thesis using loop by (simp add: deschedule_Cleanup_def nodes(1) Let_def)
qed

lemma removal_patches:
  "concat (map (\<lambda>(labelName, v). if Q labelName then [createLabelPatchValue ''remove'' (escape labelName) []] else []) es) =
     map (\<lambda>(l, v). createLabelPatchValue ''remove'' (escape l) []) (filter (\<lambda>(l, v). Q l) es)"
  by (induction es) auto

lemma labeling_Cleanup_cleans:
  assumes "serves_nodes kube labels ok" "ok k" "plain_labels labels k" "range_order ord"
  shows "\<exists>k'. labeling_Cleanup ord kube p k = (None, k') \<and> ok k' \<and> cleans labels {labeling_StrategyType} p k k'"
proof -
  obtain nodes where nodes: "list_nodes kube [] k = Inr nodes" "distinct (map node_name nodes)"
    "\<And>node. node \<in> set nodes \<Longrightarrow> labels k (node_name node) = Some (labels_of node) \<and> wf_map (labels_of node)"
    "\<And>n lbls. labels k n = Some lbls \<Longrightarrow> n \<in> node_name ` set nodes"
    using serves_list [OF assms(1,2), of "[]"] by auto
  let ?payloads = "\<lambda>node. map (\<lambda>(labelName, v). if prefix (getPrefix p) labelName
      then [createLabelPatchValue ''remove'' (escape labelName) []] else []) (ord (labels_of node))"
  let ?F = "\<lambda>node k. fold (\<lambda>payload k. snd (patchNode kube (node_name node) payload k)) (?payloads node) k"
  have clean: "cleaned {labeling_StrategyType} p m = (\<lambda>l. if prefix (getPrefix p) l then None else m l)" for m
    by (simp add: fun_eq_iff cleaned_def labeling_StrategyType_def deschedule_StrategyType_def)
  have "\<forall>node \<in> set nodes. \<exists>lbls. apply_patch (concat (?payloads node)) (labels_of node) = Some lbls \<and>
      map_of lbls = cleaned {labeling_StrategyType} p (map_of (labels_of node))"
  proof
    fix node assume node: "node \<in> set nodes"
    have plain: "\<And>l. l \<in> fst ` set (labels_of node) \<Longrightarrow> CHR ''~'' \<notin> set l"
      using assms(3) nodes(3) [OF node] unfolding plain_labels_def by blast
    have wf: "wf_map (labels_of node)" using nodes(3) [OF node] by blast
    from label_removals [OF assms(4) wf plain wf, of "\<lambda>l v. prefix (getPrefix p) l"] obtain lbls where
      "apply_patch (concat (?payloads node)) (labels_of node) = Some lbls"
      "\<And>l. map_of lbls l = (if \<exists>v. map_of (labels_of node) l = Some v \<and> prefix (getPrefix p) l then None
         else map_of (labels_of node) l)"
      unfolding removal_patches by auto
    then show "\<exists>lbls. apply_patch (concat (?payloads node)) (labels_of node) = Some lbls \<and>
        map_of lbls = cleaned {labeling_StrategyType} p (map_of (labels_of node))"
      unfolding clean fun_eq_iff by auto
  qed
  from bchoice [OF this] obtain result where result: "\<And>node. node \<in> set nodes \<Longrightarrow>
      apply_patch (concat (?payloads node)) (labels_of node) = Some (result node) \<and>
      map_of (result node) = cleaned {labeling_StrategyType} p (map_of (labels_of node))" by blast
  let ?k = "fold ?F nodes k"
  have loop: "ok ?k \<and> (\<forall>node \<in> set nodes. labels ?k (node_name node) = Some (result node)) \<and>
      (\<forall>n. n \<notin> node_name ` set nodes \<longrightarrow> labels ?k n = labels k n)"
  proof (rule patch_loop [where I = ok and K = "\<lambda>k. k" and P = "\<lambda>node. concat (?payloads node)"])
    fix node s lbls
    assume "ok s" "labels s (node_name node) = Some (labels_of node)" "apply_patch (concat (?payloads node)) (labels_of node) = Some lbls"
    then show "ok (?F node s) \<and> labels (?F node s) = (labels s)(node_name node \<mapsto> lbls)"
      by (rule patches_in_turn [OF assms(1)])
  qed (use nodes(2,3) result assms(2) in auto)
  have "cleans labels {labeling_StrategyType} p k ?k"
    by (rule cleans_listed [where nodes = nodes and result = result]) (use nodes(3,4) result loop in auto)
  moreover have "labeling_Cleanup ord kube p k = (None, ?k)"
    by (simp add: labeling_Cleanup_def nodes(1) fold_map comp_def case_prod_unfold Let_def)
  ultimately show ?thesis using loop by simp
qed

text \<open>The enforcer's dispatch: the strategies that are not enforced have nothing to clean up.\<close>

lemma Cleanup_cleans:
  assumes "serves_nodes kube labels ok" "ok k" "plain_labels labels k" "range_order (by_label ords)" "CHR ''~'' \<notin> set p"
  shows "\<exists>k'. (if Enforceable s then Cleanup ords kube s p k else (None, k)) = (None, k') \<and> ok k' \<and>
    cleans labels {StrategyType s} p k k'"
proof (cases s)
  case (Deschedule d)
  then show ?thesis using deschedule_Cleanup_cleans [OF assms(1,2,5)] by (simp add: Cleanup_def)
next
  case (Labeling d)
  then show ?thesis using labeling_Cleanup_cleans [OF assms(1-4)] by (simp add: Cleanup_def)
qed (use assms(2) in \<open>simp_all add: cleans_def cleaned_def [abs_def] dontschedule_StrategyType_def scheduleonmetric_StrategyType_def
  deschedule_StrategyType_def labeling_StrategyType_def\<close>)

subsection \<open>Deleting a policy\<close>

lemma unregister_cleans:
  assumes "unregister_strategy ords kube p strt strategies st = Some st'"
    and "serves_nodes kube labels ok" "ok (tas_World st)" "plain_labels labels (tas_World st)" "range_order (by_label ords)"
    and "CHR ''~'' \<notin> set p"
  shows "ok (tas_World st') \<and> cleans labels {StrategyType strt} p (tas_World st) (tas_World st')"
proof -
  obtain e k where e: "RemoveStrategy ords kube (SetPolicyName p strt) (StrategyType strt) (tas_Enforcer st, tas_World st) = Some (e, k)"
    and k: "tas_World st' = k"
    using assms(1) by (auto simp: unregister_strategy_def Let_def split: bind_splits)
  have "k = snd (if Enforceable (SetPolicyName p strt) then Cleanup ords kube (SetPolicyName p strt) p (tas_World st)
      else (None, tas_World st))"
    using e by (auto simp: RemoveStrategy_def Let_def split: bind_splits if_splits prod.splits)
  then show ?thesis using Cleanup_cleans [OF assms(2-6), of "SetPolicyName p strt"] k by auto
qed

lemma onDelete_cleans:
  assumes "onDelete ords ord kube (Some pol) st = Some st'" "valid_policy pol"
    and "serves_nodes kube labels ok" "ok (tas_World st)" "plain_labels labels (tas_World st)"
    and "range_order ord" "range_order (by_label ords)"
  shows "cleans labels (fst ` set (Strategies pol)) (tas_name pol) (tas_World st) (tas_World st')"
proof -
  let ?f = "\<lambda>(name, s) st. case castStrategy name s of Inl err \<Rightarrow> Some (Inl st)
      | Inr strt \<Rightarrow> map_option Inr (unregister_strategy ords kube (tas_name pol) strt (Strategies pol) st)"
  let ?I = "\<lambda>sofar s. ok (tas_World s) \<and> cleans labels (fst ` set sofar) (tas_name pol) (tas_World st) (tas_World s)"
  obtain r where r: "ranged ?f (ord (Strategies pol)) st = Some r" "tas_World st' = tas_World (case_sum id id r)"
    using assms(1) by (auto simp: onDelete_def split: bind_splits sum.splits)
  have "\<exists>s'. r = Inr s' \<and> ?I (ord (Strategies pol)) s'"
  proof (rule ranged_done [OF r(1)])
    show "?I [] st" using assms(4) by (simp add: cleans_def)
  next
    fix sofar e rest s r
    assume es: "ord (Strategies pol) = sofar @ e # rest" and I: "?I sofar s" and step: "?f e s = Some r"
    obtain name d where e: "e = (name, d)" by (cases e)
    have "(name, d) \<in> set (Strategies pol)" using range_order_set [OF assms(6), of "Strategies pol"] es e by (metis in_set_conv_decomp)
    then have "name \<in> strategy_types" using assms(2) by (force simp: valid_policy_def)
    then obtain strt where cast: "castStrategy name d = Inr strt" using castStrategy_valid by blast
    obtain s' where s': "unregister_strategy ords kube (tas_name pol) strt (Strategies pol) s = Some s'" "r = Inr s'"
      using step by (auto simp: e cast)
    have plain: "plain_labels labels (tas_World s)" "CHR ''~'' \<notin> set (tas_name pol)"
      using cleans_plain [OF _ assms(5)] I assms(2) by (auto simp: valid_policy_def)
    have "ok (tas_World s') \<and> cleans labels {StrategyType strt} (tas_name pol) (tas_World s) (tas_World s')"
      using I by (intro unregister_cleans [OF s'(1) assms(3) _ plain(1) assms(7) plain(2)]) simp
    then show "\<exists>s'. r = Inr s' \<and> ?I (sofar @ [e]) s'"
      using cleans_trans I s'(2) castStrategy_Inr [OF cast] by (fastforce simp: e)
  qed
  then show ?thesis using r(2) range_order_set [OF assms(6), of "Strategies pol"] by auto
qed


lemma serves_nodes_demo:
  "serves_nodes demo_kube map_of (\<lambda>k. wf_map k \<and> (\<forall>(n, lbls) \<in> set k. wf_map lbls))"
proof -
  let ?ok = "\<lambda>k :: cluster. wf_map k \<and> (\<forall>(n, lbls) \<in> set k. wf_map lbls)"
  have op: "wf_map lbls'" if "apply_op p lbls = Some lbls'" "wf_map lbls" for p lbls lbls'
    using that by (auto simp: apply_op_def Let_def split: if_splits)
  have patch: "wf_map lbls'" if "apply_patch ps lbls = Some lbls'" "wf_map lbls" for ps lbls lbls'
    using that by (induction ps arbitrary: lbls) (auto simp: apply_patch_def split: bind_splits intro: op)
  have ok: "?ok k \<longleftrightarrow> wf_map k \<and> (\<forall>n lbls. map_of k n = Some lbls \<longrightarrow> wf_map lbls)" for k
    using wf_map_lookup [of k] by (metis (no_types, lifting) case_prodD case_prodI2)
  have "?ok (snd (patch_node demo_kube n payload k))" if k: "?ok k" for k n payload
  proof (cases "map_of k n")
    case (Some lbls)
    have upd: "?ok (AList.update n lbls' k)" if "wf_map lbls'" for lbls'
      using k that unfolding ok by (simp add: update_conv')
    have "wf_map lbls" using k Some unfolding ok by blast
    then have "wf_map lbls'" if "apply_patch payload lbls = Some lbls'" for lbls' using patch that by blast
    with upd have "?ok (AList.update n lbls' k)" if "apply_patch payload lbls = Some lbls'" for lbls' using that by blast
    then show ?thesis using k Some by (simp add: demo_kube_def split: option.split)
  qed (use k in \<open>simp add: demo_kube_def\<close>)
  moreover have "wf_map lbls" if "?ok k" "map_of k n = Some lbls" for k :: cluster and n lbls
    using that unfolding ok by blast
  moreover have "\<exists>nodes. list_nodes demo_kube selector k = Inr nodes \<and> distinct (map node_name nodes) \<and>
      (\<forall>node \<in> set nodes. map_of k (node_name node) = Some (labels_of node)) \<and>
      (\<forall>n lbls. map_of k n = Some lbls \<longrightarrow>
         (n \<in> node_name ` set nodes \<longleftrightarrow> (\<forall>(l, v) \<in> set selector. map_of lbls l = Some v)))" if "?ok k" for k selector
  proof -
    let ?Q = "\<lambda>(n, lbls). list_all (\<lambda>(l, v). map_of lbls l = Some v) selector"
    let ?nodes = "map (\<lambda>(n, lbls). demo_node n lbls) (filter ?Q k)"
    have look: "(n, lbls) \<in> set k \<longleftrightarrow> map_of k n = Some lbls" for n lbls using that wf_map_lookup by metis
    have "map node_name ?nodes = map fst (filter ?Q k)" by (simp add: demo_node_def case_prod_unfold)
    moreover have "distinct (map fst (filter ?Q k))" using that by (simp add: wf_map_def distinct_map_filter)
    ultimately have "distinct (map node_name ?nodes)" by (simp only:)
    moreover have "\<forall>node \<in> set ?nodes. map_of k (node_name node) = Some (labels_of node)"
      by (auto simp: demo_node_def labels_of_def nil_entries_def look)
    moreover have "n \<in> node_name ` set ?nodes \<longleftrightarrow> (\<forall>(l, v) \<in> set selector. map_of lbls l = Some v)" if "map_of k n = Some lbls" for n lbls
    proof -
      have "n \<in> node_name ` set ?nodes \<longleftrightarrow> (\<exists>lbls. (n, lbls) \<in> set k \<and> ?Q (n, lbls))"
        by (force simp: demo_node_def)
      then show ?thesis using that by (simp add: look list_all_iff)
    qed
    ultimately show ?thesis by (intro exI [of _ ?nodes]) (simp add: demo_kube_def)
  qed
  ultimately show ?thesis using patches_nodes_demo unfolding serves_nodes_def by blast
qed


end
