(* ===== verification/Cfg_Manifest.thy ===== *)
theory Cfg_Manifest
  imports Go_Strings
begin

text \<open>
  The configurator (\<^verbatim>\<open>configurator/internal/cmd/main.go\<close>), first part: what it makes of the manifest of the
  kube-scheduler. The YAML library is a parameter; what it parses is a tree of the Go values below. A panic with an error
  is \<open>Inl\<close>.
\<close>

subsection \<open>YAML data\<close>

text \<open>
  The dynamic types that an \<^verbatim>\<open>interface{}\<close> of the manifest has. The slices of strings and of maps that the
  configurator stores itself are types of their own: an assertion to a slice of interfaces fails on them. A map is a partial
  function, so that equality does not depend on an order of its keys.
\<close>

datatype yaml =
    YNull | YBool bool | YInt int | YStr string | YOther string
  | YList "yaml list" | YMap "string \<Rightarrow> yaml option"
  | YStrings "string list" | YMaps "(string \<Rightarrow> yaml option) list"

type_synonym yaml_map = "string \<Rightarrow> yaml option"

datatype file_error =
    NoAccess string string | CannotCreate string string | RemovingFailed string | NoDirectory string string

datatype cfg_error =
    IndexingError | TypeAssertion | NotFound | NotSupported | BadVersion string | FileChecks "file_error list"
  | FileError string string | YamlError string

datatype path_elem = PInt int | PStr string

fun getPathData :: "yaml \<Rightarrow> path_elem list \<Rightarrow> cfg_error + yaml" where
  "getPathData data [] = Inr data"
| "getPathData data (PInt i # path) =
     (case data of
        YList anArray \<Rightarrow>
          if int (length anArray) \<le> i \<or> i < 0 then Inl IndexingError else getPathData (anArray ! nat i) path
      | _ \<Rightarrow> Inl IndexingError)"
| "getPathData data (PStr key # path) =
     (case data of
        YMap aMap \<Rightarrow>
          (case aMap key of
             None \<Rightarrow> Inl NotFound
           | Some YNull \<Rightarrow> Inl NotFound
           | Some data \<Rightarrow> getPathData data path)
      | _ \<Rightarrow> Inl TypeAssertion)"

text \<open>
  The field \<^verbatim>\<open>spec\<close> of the Go struct is the same map as the entry \<^verbatim>\<open>spec\<close> of the manifest: it is read
  from there and stored there. Likewise the first container is the map in the list.
\<close>

record configurator =
  manifestData :: yaml_map
  backupDestination :: string
  certCrtFile :: string
  certDir :: string
  certKeyFile :: string
  configDestination :: string
  configDestPath :: string
  configPath :: string
  deploymentPathGAS :: string
  deploymentPathTAS :: string
  manifestPath :: string
  origManifest :: string
  dryRun :: bool

definition spec :: "configurator \<Rightarrow> yaml_map" where
  "spec ec = (case manifestData ec ''spec'' of Some (YMap m) \<Rightarrow> m | _ \<Rightarrow> Map.empty)"

definition set_spec :: "yaml_map \<Rightarrow> configurator \<Rightarrow> configurator" where
  "set_spec m ec = ec\<lparr>manifestData := (manifestData ec)(''spec'' \<mapsto> YMap m)\<rparr>"

definition first_container :: "configurator \<Rightarrow> cfg_error + yaml_map" where
  "first_container ec =
     (case getPathData (YMap (spec ec)) [PStr ''containers'', PInt 0] of
        Inr (YMap container) \<Rightarrow> Inr container
      | _ \<Rightarrow> Inl NotFound)"

definition set_container :: "yaml_map \<Rightarrow> configurator \<Rightarrow> configurator" where
  "set_container container ec =
     (case spec ec ''containers'' of
        Some (YList cs) \<Rightarrow> set_spec ((spec ec)(''containers'' \<mapsto> YList (cs[0 := YMap container]))) ec
      | _ \<Rightarrow> ec)"

subsection \<open>The version of the scheduler\<close>

text \<open>
  The groups of the expression after \<^verbatim>\<open>:v\<close>, \<open>(\d+\.)?(\d+\.)?(\*|\d+)\<close>, in the order in which a
  backtracking match tries them; the rest of the text may be anything.
\<close>

definition number_dot :: "string \<Rightarrow> (string \<times> string) option" where
  "number_dot s = map_option (\<lambda>(ds, rest). (ds @ ''.'', rest)) (digits_then ''.'' s)"

definition star_or_number :: "string \<Rightarrow> bool" where
  "star_or_number s \<longleftrightarrow> s \<noteq> [] \<and> (hd s = CHR ''*'' \<or> is_digit (hd s))"

definition version_groups :: "string \<Rightarrow> (string \<times> string) option" where
  "version_groups s =
     (case number_dot s of
        None \<Rightarrow> if star_or_number s then Some ([], []) else None
      | Some (g1, s1) \<Rightarrow>
          (case number_dot s1 of
             Some (g2, s2) \<Rightarrow> if star_or_number s2 then Some (g1, g2) else Some (g1, [])
           | None \<Rightarrow> if star_or_number s1 then Some (g1, []) else Some ([], [])))"

text \<open>The expression starts with a greedy \<^verbatim>\<open>.*\<close>: the last \<^verbatim>\<open>:v\<close> that a version follows is the one that matches.\<close>

fun find_version :: "string \<Rightarrow> (string \<times> string) option" where
  "find_version [] = None"
| "find_version (c # s) =
     (case find_version s of
        Some groups \<Rightarrow> Some groups
      | None \<Rightarrow> if prefix '':v'' (c # s) then version_groups (drop 2 (c # s)) else None)"

definition image_version :: "string \<Rightarrow> (string \<times> string) option" where
  "image_version imageName =
     (if char_of (10 :: nat) \<in> set imageName then None else find_version imageName)"

definition trim_suffix :: "string \<Rightarrow> string \<Rightarrow> string" where
  "trim_suffix s suf = (if suffix suf s then take (length s - length suf) s else s)"

definition readSchedulerMinorVersion :: "configurator \<Rightarrow> cfg_error + int" where
  "readSchedulerMinorVersion ec =
     (case getPathData (YMap (manifestData ec)) [PStr ''spec'', PStr ''containers'', PInt 0, PStr ''image''] of
        Inr (YStr imageName) \<Rightarrow>
          (case image_version imageName of
             None \<Rightarrow> Inl NotFound
           | Some (g1, g2) \<Rightarrow>
               (case atoi (trim_suffix g2 ''.'') of
                  (ver, ok) \<Rightarrow> if ok then Inr ver else Inl (BadVersion g2)))
      | _ \<Rightarrow> Inl NotFound)"

definition getSchedulerAPIVersion :: "int \<Rightarrow> cfg_error + string" where
  "getSchedulerAPIVersion schedulerVer =
     (if schedulerVer < 19 then Inl NotSupported
      else if schedulerVer < 22 then Inr ''v1beta1''
      else if schedulerVer < 25 then Inr ''v1beta2''
      else Inr ''v1'')"

subsection \<open>The command\<close>

definition flag_names :: "string list" where
  "flag_names = concat (map (\<lambda>argToDrop. map (\<lambda>p. p @ argToDrop) [''-'', ''--''])
     [''config'', ''policy-configmap'', ''policy-configmap-namespace''])"

definition skipArg :: "string \<Rightarrow> bool \<times> bool" where
  "skipArg arg =
     (case find (\<lambda>flag. arg = flag \<or> prefix (flag @ ''='') arg) flag_names of
        None \<Rightarrow> (False, False)
      | Some flag \<Rightarrow> (True, arg = flag))"

fun drop_args :: "bool \<Rightarrow> yaml list \<Rightarrow> cfg_error + string list" where
  "drop_args skipNext [] = Inr []"
| "drop_args skipNext (cmdif # cmds) =
     (if skipNext then drop_args False cmds
      else case cmdif of
        YStr cmd \<Rightarrow>
          (case skipArg cmd of
             (skip, skipNext) \<Rightarrow>
               if skip then drop_args skipNext cmds
               else case drop_args skipNext cmds of
                 Inl err \<Rightarrow> Inl err
               | Inr newCommands \<Rightarrow> Inr (cmd # newCommands))
      | _ \<Rightarrow> Inl TypeAssertion)"

definition SetCommand :: "configurator \<Rightarrow> cfg_error + configurator" where
  "SetCommand ec =
     (case first_container ec of
        Inl err \<Rightarrow> Inl NotFound
      | Inr container \<Rightarrow>
          (case container ''command'' of
             None \<Rightarrow> Inl NotFound
           | Some (YList commands) \<Rightarrow>
               (case drop_args False commands of
                  Inl err \<Rightarrow> Inl err
                | Inr newCommands \<Rightarrow>
                    Inr (set_container (container(''command'' \<mapsto>
                      YStrings (newCommands @ [''--config='' @ configDestPath ec]))) ec))
           | Some _ \<Rightarrow> Inl TypeAssertion))"

subsection \<open>Volumes and volume mounts\<close>

definition schedulerConfigID :: string where "schedulerConfigID = ''schedulerconfig''"
definition certDirID :: string where "certDirID = ''certdir''"
definition certVolumePath :: string where "certVolumePath = ''/host/certs''"

text \<open>The loops over volumes and mounts: entries without a name and the configurator's own are dropped.\<close>

fun other_entries :: "yaml list \<Rightarrow> cfg_error + yaml_map list" where
  "other_entries [] = Inr []"
| "other_entries (aMapIf # rest) =
     (case aMapIf of
        YMap aMap \<Rightarrow>
          (case other_entries rest of
             Inl err \<Rightarrow> Inl err
           | Inr maps \<Rightarrow>
               (case aMap ''name'' of
                  Some (YStr name) \<Rightarrow>
                    if name \<noteq> certDirID \<and> name \<noteq> schedulerConfigID then Inr (aMap # maps) else Inr maps
                | _ \<Rightarrow> Inr maps))
      | _ \<Rightarrow> Inl TypeAssertion)"

definition own_volumes :: "configurator \<Rightarrow> yaml_map list" where
  "own_volumes ec =
     [[''name'' \<mapsto> YStr schedulerConfigID, ''hostPath'' \<mapsto> YMap [''path'' \<mapsto> YStr (configDestPath ec)]],
      [''name'' \<mapsto> YStr certDirID, ''hostPath'' \<mapsto> YMap [''path'' \<mapsto> YStr (certDir ec)]]]"

definition setVolumes :: "configurator \<Rightarrow> cfg_error + configurator" where
  "setVolumes ec =
     (let volumes = (case spec ec ''volumes'' of Some (YList volumes) \<Rightarrow> volumes | _ \<Rightarrow> [])
      in case other_entries volumes of
           Inl err \<Rightarrow> Inl err
         | Inr newVolumes \<Rightarrow>
             Inr (set_spec ((spec ec)(''volumes'' \<mapsto> YMaps (newVolumes @ own_volumes ec))) ec))"

definition own_mounts :: "configurator \<Rightarrow> yaml_map list" where
  "own_mounts ec =
     [[''name'' \<mapsto> YStr schedulerConfigID, ''mountPath'' \<mapsto> YStr (configDestPath ec), ''readOnly'' \<mapsto> YBool True],
      [''name'' \<mapsto> YStr certDirID, ''mountPath'' \<mapsto> YStr certVolumePath, ''readOnly'' \<mapsto> YBool True]]"

definition SetContainerVolumeMounts :: "configurator \<Rightarrow> cfg_error + configurator" where
  "SetContainerVolumeMounts ec =
     (case first_container ec of
        Inl err \<Rightarrow> Inl NotFound
      | Inr container \<Rightarrow>
          (case (case container ''volumeMounts'' of None \<Rightarrow> YList [] | Some volumeMounts \<Rightarrow> volumeMounts) of
             YList mountMaps \<Rightarrow>
               (case other_entries mountMaps of
                  Inl err \<Rightarrow> Inl err
                | Inr newVolumeMounts \<Rightarrow>
                    Inr (set_container (container(''volumeMounts'' \<mapsto> YMaps (newVolumeMounts @ own_mounts ec))) ec))
           | _ \<Rightarrow> Inl TypeAssertion))"

subsection \<open>The manifest as a whole\<close>

text \<open>The steps of \<^verbatim>\<open>run\<close> that change the manifest, in their order; the last follows after other files are written.\<close>

definition set_dnsPolicy :: "configurator \<Rightarrow> configurator" where
  "set_dnsPolicy ec = set_spec ((spec ec)(''dnsPolicy'' \<mapsto> YStr ''ClusterFirstWithHostNet'')) ec"

definition modify_spec :: "configurator \<Rightarrow> cfg_error + configurator" where
  "modify_spec ec =
     (case SetCommand ec of
        Inl err \<Rightarrow> Inl err
      | Inr ec \<Rightarrow>
          (case SetContainerVolumeMounts ec of
             Inl err \<Rightarrow> Inl err
           | Inr ec \<Rightarrow> setVolumes ec))"

definition modify_manifest :: "configurator \<Rightarrow> cfg_error + configurator" where
  "modify_manifest ec = (case modify_spec ec of Inl err \<Rightarrow> Inl err | Inr ec \<Rightarrow> Inr (set_dnsPolicy ec))"

subsection \<open>What becomes of the arguments\<close>

definition config_flag :: "string \<Rightarrow> bool" where
  "config_flag arg \<longleftrightarrow> (\<exists>flag \<in> set flag_names. arg = flag \<or> prefix (flag @ ''='') arg)"

lemma skipArg_fst [simp]: "fst (skipArg arg) \<longleftrightarrow> config_flag arg"
  by (auto simp: skipArg_def config_flag_def find_None_iff find_Some_iff split: option.split)

lemma skipArg_no_flag: "\<not> config_flag arg \<Longrightarrow> skipArg arg = (False, False)"
  by (auto simp: skipArg_def config_flag_def find_None_iff split: option.split)

lemma drop_args_result:
  "drop_args skipNext cmds = Inr kept \<Longrightarrow> subseq (map YStr kept) cmds \<and> list_all (\<lambda>c. \<not> config_flag c) kept"
proof (induction skipNext cmds arbitrary: kept rule: drop_args.induct)
  case (2 skipNext cmdif cmds)
  then show ?case
    by (cases cmdif; cases "skipArg (case cmdif of YStr c \<Rightarrow> c | _ \<Rightarrow> [])")
      (fastforce split: if_splits sum.splits simp: skipArg_fst [symmetric] simp del: skipArg_fst)+
qed simp

lemma drop_args_clean:
  "list_all (\<lambda>c. \<not> config_flag c) kept \<Longrightarrow> drop_args False (map YStr kept) = Inr kept"
  by (induction kept) (auto simp: skipArg_no_flag)

lemma config_flag_own [simp]: "skipArg (''--config='' @ path) = (True, False)"
  by (simp add: skipArg_def flag_names_def)

lemma drop_args_again:
  "list_all (\<lambda>c. \<not> config_flag c) kept \<Longrightarrow> drop_args False (map YStr (kept @ [''--config='' @ path])) = Inr kept"
  by (induction kept) (auto simp: skipArg_no_flag config_flag_own [simplified])

text \<open>The entries of the manifest that the configurator keeps.\<close>

definition foreign :: "yaml_map \<Rightarrow> bool" where
  "foreign m \<longleftrightarrow> (case m ''name'' of Some (YStr name) \<Rightarrow> name \<noteq> certDirID \<and> name \<noteq> schedulerConfigID | _ \<Rightarrow> False)"

lemma other_entries_step:
  "other_entries (YMap m # rest) =
     (case other_entries rest of Inl err \<Rightarrow> Inl err | Inr maps \<Rightarrow> Inr (if foreign m then m # maps else maps))"
  by (simp add: foreign_def split: sum.split option.split yaml.split)

lemma other_entries_maps: "other_entries (map YMap ms) = Inr (filter foreign ms)"
  by (induction ms) (simp_all add: other_entries_step del: other_entries.simps(2))

lemma other_entries_iff: "other_entries es = Inr maps \<longleftrightarrow> (\<exists>ms. es = map YMap ms \<and> maps = filter foreign ms)"
proof
  show "other_entries es = Inr maps \<Longrightarrow> \<exists>ms. es = map YMap ms \<and> maps = filter foreign ms"
  proof (induction es arbitrary: maps)
    case (Cons e es)
    then obtain m where e: "e = YMap m" by (cases e) simp_all
    with Cons.prems obtain maps' where maps': "other_entries es = Inr maps'"
      by (auto simp: other_entries_step simp del: other_entries.simps(2) split: sum.splits)
    from Cons.IH [OF this] obtain ms where "es = map YMap ms" "maps' = filter foreign ms" by blast
    with Cons.prems e maps' show ?case
      by (intro exI [of _ "m # ms"]) (simp add: other_entries_step del: other_entries.simps(2) split: if_splits)
  qed simp
qed (auto simp: other_entries_maps)

subsection \<open>The modified manifest\<close>

text \<open>The shape that the manifest must have, and what becomes of it.\<close>

definition mounts_of :: "yaml_map \<Rightarrow> yaml_map list \<Rightarrow> bool" where
  "mounts_of container mounts \<longleftrightarrow>
     (case container ''volumeMounts'' of None \<Rightarrow> mounts = [] | Some y \<Rightarrow> y = YList (map YMap mounts))"

definition volumes_of :: "yaml_map \<Rightarrow> yaml_map list \<Rightarrow> bool" where
  "volumes_of m vols \<longleftrightarrow> (case m ''volumes'' of Some (YList es) \<Rightarrow> es = map YMap vols | _ \<Rightarrow> vols = [])"

definition manifest_shape ::
  "configurator \<Rightarrow> yaml_map \<Rightarrow> yaml list \<Rightarrow> string list \<Rightarrow> yaml_map list \<Rightarrow> yaml_map list \<Rightarrow> bool" where
  "manifest_shape ec container cs kept mounts vols \<longleftrightarrow>
     spec ec ''containers'' = Some (YList (YMap container # cs)) \<and>
     (\<exists>commands. container ''command'' = Some (YList commands) \<and> drop_args False commands = Inr kept) \<and>
     mounts_of container mounts \<and> volumes_of (spec ec) vols"

definition new_container :: "configurator \<Rightarrow> yaml_map \<Rightarrow> string list \<Rightarrow> yaml_map list \<Rightarrow> yaml_map" where
  "new_container ec container kept mounts =
     container(''command'' \<mapsto> YStrings (kept @ [''--config='' @ configDestPath ec]),
       ''volumeMounts'' \<mapsto> YMaps (filter foreign mounts @ own_mounts ec))"

definition new_spec ::
  "configurator \<Rightarrow> yaml_map \<Rightarrow> yaml list \<Rightarrow> string list \<Rightarrow> yaml_map list \<Rightarrow> yaml_map list \<Rightarrow> yaml_map" where
  "new_spec ec container cs kept mounts vols =
     (spec ec)(''containers'' \<mapsto> YList (YMap (new_container ec container kept mounts) # cs),
       ''volumes'' \<mapsto> YMaps (filter foreign vols @ own_volumes ec), ''dnsPolicy'' \<mapsto> YStr ''ClusterFirstWithHostNet'')"

lemma spec_set_spec [simp]: "spec (set_spec m ec) = m"
  by (simp add: spec_def set_spec_def)

lemma set_spec_fields [simp]:
  "configDestPath (set_spec m ec) = configDestPath ec" "certDir (set_spec m ec) = certDir ec"
  "manifestData (set_spec m ec) = (manifestData ec)(''spec'' \<mapsto> YMap m)"
  "set_spec m' (set_spec m ec) = set_spec m' ec"
  by (simp_all add: set_spec_def)

lemma own_set_spec [simp]: "own_mounts (set_spec m ec) = own_mounts ec" "own_volumes (set_spec m ec) = own_volumes ec"
  by (simp_all add: own_mounts_def own_volumes_def)

lemma first_container_iff:
  "first_container ec = Inr container \<longleftrightarrow> (\<exists>cs. spec ec ''containers'' = Some (YList (YMap container # cs)))"
proof -
  have "getPathData (YMap (spec ec)) [PStr ''containers'', PInt 0] = Inr (YMap container) \<longleftrightarrow>
      (\<exists>cs. spec ec ''containers'' = Some (YList (YMap container # cs)))" for container
    by (auto split: option.splits yaml.splits if_splits simp: nth_Cons' neq_Nil_conv)
  then show ?thesis
    unfolding first_container_def
    by (cases "getPathData (YMap (spec ec)) [PStr ''containers'', PInt 0]") (auto split: yaml.splits)
qed

lemma set_container_spec:
  "spec ec ''containers'' = Some (YList (c # cs)) \<Longrightarrow>
     set_container container ec = set_spec ((spec ec)(''containers'' \<mapsto> YList (YMap container # cs))) ec"
  by (simp add: set_container_def)

lemma volumes_maps: "other_entries (case spec ec ''volumes'' of Some (YList volumes) \<Rightarrow> volumes | _ \<Rightarrow> []) = Inr maps \<longleftrightarrow>
    (\<exists>vols. volumes_of (spec ec) vols \<and> maps = filter foreign vols)"
  by (auto simp: other_entries_iff volumes_of_def split: option.splits yaml.splits)

lemma modify_manifest_shape:
  assumes "modify_manifest ec = Inr ec'"
  shows "\<exists>container cs kept mounts vols.
     manifest_shape ec container cs kept mounts vols \<and> ec' = set_spec (new_spec ec container cs kept mounts vols) ec"
proof -
  from assms obtain ec1 ec2 ec3 where c: "SetCommand ec = Inr ec1" and m: "SetContainerVolumeMounts ec1 = Inr ec2"
    and v: "setVolumes ec2 = Inr ec3" and ec': "ec' = set_dnsPolicy ec3"
    by (auto simp: modify_manifest_def modify_spec_def split: sum.splits)
  from c obtain container commands kept where f: "first_container ec = Inr container" "container ''command'' = Some (YList commands)"
    "drop_args False commands = Inr kept"
    "ec1 = set_container (container(''command'' \<mapsto> YStrings (kept @ [''--config='' @ configDestPath ec]))) ec"
    by (auto simp: SetCommand_def split: sum.splits option.splits yaml.splits)
  from f(1) obtain cs where cs: "spec ec ''containers'' = Some (YList (YMap container # cs))" unfolding first_container_iff by blast
  note ec1 = f(4) [unfolded set_container_spec [OF cs]]
  define container1 where "container1 = container(''command'' \<mapsto> YStrings (kept @ [''--config='' @ configDestPath ec]))"
  have s1: "spec ec1 ''containers'' = Some (YList (YMap container1 # cs))" by (simp add: ec1 container1_def)
  then have "first_container ec1 = Inr container1" unfolding first_container_iff by blast
  with m obtain maps where "other_entries (case container1 ''volumeMounts'' of None \<Rightarrow> [] | Some (YList es) \<Rightarrow> es | Some _ \<Rightarrow> []) = Inr maps"
    "\<forall>y. container ''volumeMounts'' = Some y \<longrightarrow> (\<exists>es. y = YList es)"
    "ec2 = set_container (container1(''volumeMounts'' \<mapsto> YMaps (maps @ own_mounts ec1))) ec1"
    by (auto simp: SetContainerVolumeMounts_def container1_def split: sum.splits option.splits yaml.splits)
  then obtain mounts where mounts: "mounts_of container mounts"
    "ec2 = set_spec ((spec ec)(''containers'' \<mapsto> YList (YMap (new_container ec container kept mounts) # cs))) ec"
    unfolding set_container_spec [OF s1]
    by (auto simp: mounts_of_def other_entries_iff container1_def new_container_def ec1 split: option.splits)
  have "volumes_of (spec ec2) = volumes_of (spec ec)" by (simp add: fun_eq_iff volumes_of_def mounts(2))
  then obtain vols where "volumes_of (spec ec) vols"
    "ec3 = set_spec ((spec ec2)(''volumes'' \<mapsto> YMaps (filter foreign vols @ own_volumes ec2))) ec2"
    using v by (auto simp: setVolumes_def Let_def volumes_maps split: sum.splits)
  then show ?thesis using cs f(2,3) mounts
    by (intro exI [of _ container] exI [of _ cs] exI [of _ kept] exI [of _ mounts] exI [of _ vols])
      (auto simp: manifest_shape_def new_spec_def ec' set_dnsPolicy_def)
qed

lemma shape_modify_manifest:
  assumes shape: "manifest_shape ec container cs kept mounts vols"
  shows "modify_manifest ec = Inr (set_spec (new_spec ec container cs kept mounts vols) ec)"
proof -
  obtain commands where cs: "spec ec ''containers'' = Some (YList (YMap container # cs))"
    and k: "container ''command'' = Some (YList commands)" "drop_args False commands = Inr kept"
    and mo: "mounts_of container mounts" and vo: "volumes_of (spec ec) vols" using shape by (auto simp: manifest_shape_def)
  define container1 where "container1 = container(''command'' \<mapsto> YStrings (kept @ [''--config='' @ configDestPath ec]))"
  define ec1 where "ec1 = set_spec ((spec ec)(''containers'' \<mapsto> YList (YMap container1 # cs))) ec"
  define ec2 where "ec2 = set_spec ((spec ec)(''containers'' \<mapsto> YList (YMap (new_container ec container kept mounts) # cs))) ec"
  have "first_container ec = Inr container" using cs unfolding first_container_iff by blast
  then have 1: "SetCommand ec = Inr ec1"
    using k set_container_spec [OF cs] by (simp add: SetCommand_def ec1_def container1_def)
  have s1: "spec ec1 ''containers'' = Some (YList (YMap container1 # cs))" by (simp add: ec1_def)
  then have "first_container ec1 = Inr container1" unfolding first_container_iff by blast
  moreover have "container1 ''volumeMounts'' = container ''volumeMounts''" by (simp add: container1_def)
  ultimately have 2: "SetContainerVolumeMounts ec1 = Inr ec2"
    using mo other_entries_maps [of mounts] set_container_spec [OF s1]
    by (auto simp: SetContainerVolumeMounts_def mounts_of_def ec2_def container1_def new_container_def ec1_def
        split: option.splits)
  have "volumes_of (spec ec2) vols" using vo by (simp add: volumes_of_def ec2_def)
  then have "other_entries (case spec ec2 ''volumes'' of Some (YList volumes) \<Rightarrow> volumes | _ \<Rightarrow> []) = Inr (filter foreign vols)"
    unfolding volumes_maps by blast
  then have 3: "setVolumes ec2 = Inr (set_spec ((spec ec2)(''volumes'' \<mapsto> YMaps (filter foreign vols @ own_volumes ec2))) ec2)"
    by (simp add: setVolumes_def Let_def)
  show ?thesis unfolding modify_manifest_def modify_spec_def 1 sum.case 2 3
    by (simp add: set_dnsPolicy_def new_spec_def ec2_def)
qed

lemma modify_manifest_iff:
  "modify_manifest ec = Inr ec' \<longleftrightarrow> (\<exists>container cs kept mounts vols.
     manifest_shape ec container cs kept mounts vols \<and> ec' = set_spec (new_spec ec container cs kept mounts vols) ec)"
  using modify_manifest_shape shape_modify_manifest by blast

subsection \<open>Writing and reading\<close>

text \<open>
  What the YAML library reads back of data that it has written: slices of strings and of maps come back as slices of
  interfaces.
\<close>

primrec reread :: "yaml \<Rightarrow> yaml" where
  "reread YNull = YNull"
| "reread (YBool b) = YBool b"
| "reread (YInt i) = YInt i"
| "reread (YStr s) = YStr s"
| "reread (YOther s) = YOther s"
| "reread (YList ys) = YList (map reread ys)"
| "reread (YMap m) = YMap (map_option reread \<circ> m)"
| "reread (YStrings ss) = YList (map YStr ss)"
| "reread (YMaps ms) = YList (map (\<lambda>m. YMap m) (map (\<lambda>m. map_option reread \<circ> m) ms))"

lemma reread_reread [simp]: "reread (reread y) = reread y"
proof (induction y)
  case (YMap m)
  have "map_option reread (map_option reread (m k)) = map_option reread (m k)" for k
    using YMap [of "m k"] by (cases "m k") (auto intro: rangeI dest: sym)
  then show ?case by (simp add: fun_eq_iff)
next
  case (YMaps ms)
  have "map_option reread (map_option reread (m k)) = map_option reread (m k)" if "m \<in> set ms" for m k
    using YMaps [OF that, of "m k"] by (cases "m k") (auto intro: rangeI dest: sym)
  then show ?case by (simp add: fun_eq_iff)
qed simp_all

definition reread_map :: "yaml_map \<Rightarrow> yaml_map" where
  "reread_map m = map_option reread \<circ> m"

lemma reread_map_app: "reread_map m k = map_option reread (m k)"
  by (simp add: reread_map_def)

lemma reread_map_simps [simp]:
  "reread_map (m(k \<mapsto> y)) = (reread_map m)(k \<mapsto> reread y)"
  "reread_map Map.empty = Map.empty" "reread_map (reread_map m) = reread_map m"
  by (simp_all add: reread_map_def fun_eq_iff option.map_comp comp_def)

lemma reread_maps: "reread (YMap m) = YMap (reread_map m)" "reread (YMaps ms) = YList (map YMap (map reread_map ms))"
  by (simp_all add: reread_map_def)

declare reread.simps(7,9) [simp del]
declare reread_maps [simp]

lemma reread_str [simp]: "reread y = YStr n \<longleftrightarrow> y = YStr n"
  by (cases y) simp_all

lemma foreign_reread [simp]: "foreign (reread_map m) = foreign m"
  by (cases "m ''name''"; cases "the (m ''name'')") (simp_all add: foreign_def reread_map_app)

lemma filter_foreign_reread: "filter foreign (map reread_map ms) = map reread_map (filter foreign ms)"
  by (induction ms) simp_all

lemma map_reread_twice:
  "map (YMap \<circ> (reread_map \<circ> reread_map)) ms = map (YMap \<circ> reread_map) ms" "map (reread \<circ> reread) ys = map reread ys"
  by simp_all

lemma own_entries:
  "filter foreign (own_volumes ec) = []" "filter foreign (own_mounts ec) = []"
  "map reread_map (own_volumes ec) = own_volumes ec" "map reread_map (own_mounts ec) = own_mounts ec"
  "map (YMap \<circ> reread_map) (own_volumes ec) = map YMap (own_volumes ec)"
  "map (YMap \<circ> reread_map) (own_mounts ec) = map YMap (own_mounts ec)"
  by (simp_all add: own_volumes_def own_mounts_def foreign_def)

lemma modify_twice:
  assumes "modify_manifest ec = Inr ec1" "manifestData ec2 = reread_map (manifestData ec1)"
    and "configDestPath ec2 = configDestPath ec" "certDir ec2 = certDir ec"
  shows "\<exists>m. modify_manifest ec2 = Inr (set_spec m ec2) \<and>
    reread_map (manifestData (set_spec m ec2)) = reread_map (manifestData ec1)"
proof -
  from assms obtain container cs kept mounts vols where shape: "manifest_shape ec container cs kept mounts vols"
    and ec1: "ec1 = set_spec (new_spec ec container cs kept mounts vols) ec" unfolding modify_manifest_iff by blast
  define container2 where "container2 = reread_map (new_container ec container kept mounts)"
  define mounts2 where "mounts2 = map reread_map (filter foreign mounts @ own_mounts ec)"
  define vols2 where "vols2 = map reread_map (filter foreign vols @ own_volumes ec)"
  have kept: "drop_args False (map YStr (kept @ [''--config='' @ configDestPath ec])) = Inr kept"
    by (rule drop_args_again) (use shape in \<open>auto simp: manifest_shape_def dest: drop_args_result\<close>)
  have fields: "configDestPath ec2 = configDestPath ec" "own_mounts ec2 = own_mounts ec" "own_volumes ec2 = own_volumes ec"
    using assms(3,4) by (simp_all add: own_mounts_def own_volumes_def)
  have s: "spec ec2 = reread_map (new_spec ec container cs kept mounts vols)"
    by (simp add: ec1 spec_def assms(2) reread_map_app)
  have "manifest_shape ec2 container2 (map reread cs) kept mounts2 vols2"
    using kept by (simp add: manifest_shape_def s reread_map_app new_spec_def container2_def new_container_def mounts_of_def
        volumes_of_def mounts2_def vols2_def)
  then have m: "modify_manifest ec2 = Inr (set_spec (new_spec ec2 container2 (map reread cs) kept mounts2 vols2) ec2)"
    unfolding modify_manifest_iff by blast
  have keep: "filter foreign mounts2 = map reread_map (filter foreign mounts)" "filter foreign vols2 = map reread_map (filter foreign vols)"
    by (simp_all add: mounts2_def vols2_def filter_foreign_reread own_entries)
  have c: "reread_map (new_container ec2 container2 kept mounts2) = reread_map (new_container ec container kept mounts)"
    by (simp add: new_container_def container2_def keep fields own_entries fun_upd_twist map_reread_twice)
  have "reread_map (new_spec ec2 container2 (map reread cs) kept mounts2 vols2) =
      reread_map (new_spec ec container cs kept mounts vols)"
    using c by (simp add: new_spec_def [of ec2] keep fields own_entries s map_reread_twice)
      (simp add: new_spec_def fun_upd_twist own_entries)
  then show ?thesis using m
    by (intro exI [of _ "new_spec ec2 container2 (map reread cs) kept mounts2 vols2"]) (simp add: assms(2) ec1)
qed

subsection \<open>Properties\<close>


definition demo_manifest :: "string list \<Rightarrow> yaml_map" where
  "demo_manifest command =
     [''spec'' \<mapsto> YMap [''containers'' \<mapsto> YList [YMap
        [''image'' \<mapsto> YStr ''k8s/kube-scheduler:v1.26.3'', ''command'' \<mapsto> YList (map YStr command)]]]]"

definition demo_ec :: "string list \<Rightarrow> configurator" where
  "demo_ec command =
     \<lparr>manifestData = demo_manifest command, backupDestination = ''/dev/null'', certCrtFile = ''/ca.crt'', certDir = ''/certs'',
      certKeyFile = ''/ca.key'', configDestination = ''/etc'', configDestPath = ''/etc/config.yaml'',
      configPath = ''/deploy/config.yaml'', deploymentPathGAS = [], deploymentPathTAS = [], manifestPath = ''/manifest.yaml'',
      origManifest = [], dryRun = False\<rparr>"


lemma version_groups_digits:
  assumes "a \<noteq> []" "list_all is_digit a" "b \<noteq> []" "list_all is_digit b"
  shows "c \<noteq> [] \<Longrightarrow> list_all is_digit c \<Longrightarrow> version_groups (a @ ''.'' @ b @ ''.'' @ c @ rest) = Some (a @ ''.'', b @ ''.'')"
    "version_groups (a @ ''.'' @ b) = Some (a @ ''.'', [])"
proof -
  have dot: "\<not> is_digit CHR ''.''" by code_simp
  have n: "number_dot (x @ ''.'' @ s) = Some (x @ ''.'', s)" if "x \<noteq> []" "list_all is_digit x" for x s
    using digits_then_app [OF that dot, of "[]" s] by (simp add: number_dot_def)
  have "dropWhile is_digit b = []" using assms(4) by (simp add: list_all_iff)
  then have none: "number_dot b = None" by (auto simp: number_dot_def digits_then_def Let_def simp del: dropWhile_eq_Nil_conv)
  have star: "star_or_number (x @ s)" if "x \<noteq> []" "list_all is_digit x" for x s
    using that by (cases x) (simp_all add: star_or_number_def)
  show "version_groups (a @ ''.'' @ b @ ''.'' @ c @ rest) = Some (a @ ''.'', b @ ''.'')" if "c \<noteq> []" "list_all is_digit c"
    using n [OF assms(1,2), of "b @ ''.'' @ c @ rest"] n [OF assms(3,4), of "c @ rest"] star [OF that]
    by (simp add: version_groups_def)
  show "version_groups (a @ ''.'' @ b) = Some (a @ ''.'', [])"
    using n [OF assms(1,2), of b] none star [OF assms(3,4), of "[]"] by (simp add: version_groups_def)
qed

lemma find_version_last:
  assumes "CHR '':'' \<notin> set t" "version_groups t = Some g"
  shows "find_version (repo @ '':v'' @ t) = Some g"
proof -
  have "find_version s = None" if "CHR '':'' \<notin> set s" for s
    using that by (induction s) auto
  from this [of "CHR ''v'' # t"] assms(1) have "find_version (CHR '':'' # CHR ''v'' # t) = Some g"
    by (simp add: assms(2) del: find_version.simps(2)) (simp add: assms(2))
  then show ?thesis by (induction repo) (simp_all del: find_version.simps(2), simp)
qed

lemma minor_version:
  assumes "getPathData (YMap (manifestData ec)) [PStr ''spec'', PStr ''containers'', PInt 0, PStr ''image''] =
      Inr (YStr (repo @ '':v'' @ itoa_nat major @ ''.'' @ itoa_nat minor @ tag))"
    and "char_of (10 :: nat) \<notin> set repo \<union> set tag" "CHR '':'' \<notin> set tag" "minor < 2 ^ 63"
    and "tag = [] \<or> (\<exists>patch rest. tag = ''.'' @ itoa_nat patch @ rest)"
  shows "readSchedulerMinorVersion ec = (if tag = [] then Inl (BadVersion []) else Inr (int minor))"
proof -
  have no: "c \<notin> set (itoa_nat n)" if "\<not> is_digit c" for c n
    using itoa_nat_digits [of n] that by (auto simp: list_all_iff)
  have chars: "\<not> is_digit CHR '':''" "\<not> is_digit (char_of (10 :: nat))" "char_of (10 :: nat) \<noteq> CHR '':''"
    "char_of (10 :: nat) \<noteq> CHR ''v''" "char_of (10 :: nat) \<noteq> CHR ''.''" by code_simp+
  define t where "t = itoa_nat major @ ''.'' @ itoa_nat minor @ tag"
  have t: "CHR '':'' \<notin> set t" using no [OF chars(1)] assms(3) by (simp add: t_def)
  have g: "version_groups t = Some (itoa_nat major @ ''.'', if tag = [] then [] else itoa_nat minor @ ''.'')"
    using assms(5) version_groups_digits [of "itoa_nat major" "itoa_nat minor"] itoa_nat_digits
    by (auto simp: t_def)
  have "image_version (repo @ '':v'' @ t) = Some (itoa_nat major @ ''.'', if tag = [] then [] else itoa_nat minor @ ''.'')"
    using find_version_last [OF t g, of repo] assms(2) no [OF chars(2)] chars(3-5) by (simp add: image_version_def t_def)
  moreover have "atoi (itoa_nat minor) = (int minor, True)"
    using atoi_itoa [of "int minor"] assms(4) itoa_nonneg [of "int minor"] by simp
  moreover have "trim_suffix (itoa_nat minor @ ''.'') ''.'' = itoa_nat minor" "trim_suffix [] ''.'' = []" "atoi [] = (0, False)"
    by (simp_all add: trim_suffix_def suffix_def atoi_def parse_int_def Let_def)
  ultimately show ?thesis using assms(1) by (simp add: readSchedulerMinorVersion_def t_def del: getPathData.simps)
qed

text \<open>C25: reading the version of the scheduler. From an image tag with a version of three numbers the second is
  read back, whatever stands before the tag and, without a colon or line break, after the version; a version of two numbers
  only makes the run fail.\<close>

theorem minor_version_read:
  assumes "getPathData (YMap (manifestData ec)) [PStr ''spec'', PStr ''containers'', PInt 0, PStr ''image''] =
      Inr (YStr (repo @ '':v'' @ itoa_nat major @ ''.'' @ itoa_nat minor @ tag))"
    and "char_of (10 :: nat) \<notin> set repo \<union> set tag" "CHR '':'' \<notin> set tag" "minor < 2 ^ 63"
    and "tag = [] \<or> (\<exists>patch rest. tag = ''.'' @ itoa_nat patch @ rest)"
  shows "readSchedulerMinorVersion ec = (if tag = [] then Inl (BadVersion []) else Inr (int minor))"
  by (rule minor_version [OF assms])

lemma minor_version_read_witness: "readSchedulerMinorVersion (demo_ec []) = Inr 26"
proof -
  have n: "itoa_nat 1 = ''1''" "itoa_nat 26 = ''26''" "itoa_nat 3 = ''3''" by code_simp+
  have nl: "char_of (10 :: nat) \<notin> set ''k8s/kube-scheduler'' \<union> set ''.3''" by code_simp
  have "getPathData (YMap (manifestData (demo_ec []))) [PStr ''spec'', PStr ''containers'', PInt 0, PStr ''image''] =
      Inr (YStr (''k8s/kube-scheduler'' @ '':v'' @ itoa_nat 1 @ ''.'' @ itoa_nat 26 @ ''.3''))"
    by (simp add: demo_ec_def demo_manifest_def n [unfolded One_nat_def])
  from minor_version_read [OF this nl] have "\<exists>patch rest. ''.3'' = ''.'' @ itoa_nat patch @ rest \<Longrightarrow>
      readSchedulerMinorVersion (demo_ec []) = Inr 26" by auto
  then show ?thesis by (simp add: exI [of _ 3] n(3))
qed

end
