(* ===== verification/Cfg_Run.thy ===== *)
theory Cfg_Run
  imports Cfg_Manifest
begin

text \<open>
  The configurator (\<^verbatim>\<open>configurator/internal/cmd/main.go\<close>), second part: the files it checks, copies and
  writes, and the run as a whole. The operating system is a record of functions on its state, the YAML and the diff library
  are a record of functions; a function that may panic returns the error and the state it leaves.
\<close>

subsection \<open>The operating system and the libraries\<close>

datatype open_flag = O_RDONLY | O_RDWR

text \<open>An error of opening a file: it does not exist, or another one.\<close>

datatype open_error = NotExist | OpenFailed string

definition notExist :: string where "notExist = ''file does not exist''"

record 'k os =
  ReadFile :: "string \<Rightarrow> 'k \<Rightarrow> string + string"
  WriteFile :: "string \<Rightarrow> string \<Rightarrow> nat \<Rightarrow> 'k \<Rightarrow> string option \<times> 'k"
  OpenFile :: "string \<Rightarrow> open_flag \<Rightarrow> nat \<Rightarrow> 'k \<Rightarrow> open_error option"
  CreateFile :: "string \<Rightarrow> 'k \<Rightarrow> string option \<times> 'k"
  RemoveFile :: "string \<Rightarrow> 'k \<Rightarrow> string option \<times> 'k"
  MkdirAll :: "string \<Rightarrow> nat \<Rightarrow> 'k \<Rightarrow> string option \<times> 'k"
  RemoveAll :: "string \<Rightarrow> 'k \<Rightarrow> 'k"
  MkdirTemp :: "string \<Rightarrow> string \<Rightarrow> 'k \<Rightarrow> (string + string) \<times> 'k"
  Stat :: "string \<Rightarrow> 'k \<Rightarrow> bool"
  Access :: "string \<Rightarrow> 'k \<Rightarrow> open_error option"
  Today :: string

record cfg_lib =
  Unmarshal :: "string \<Rightarrow> string + yaml_map"
  Marshal :: "yaml_map \<Rightarrow> string + string"
  DiffLevenshtein :: "string \<Rightarrow> string \<Rightarrow> int"

text \<open>File modes, in octal in the source.\<close>

definition perm0666 :: nat where "perm0666 = 6 * 64 + 6 * 8 + 6"
definition perm0644 :: nat where "perm0644 = 6 * 64 + 4 * 8 + 4"
definition perm0600 :: nat where "perm0600 = 6 * 64"
definition perm0755 :: nat where "perm0755 = 7 * 64 + 5 * 8 + 5"

subsection \<open>Paths and strings\<close>

text \<open>\<^verbatim>\<open>filepath.Clean\<close>, \<^verbatim>\<open>Join\<close> and \<^verbatim>\<open>Base\<close>.\<close>

definition clean_step :: "bool \<Rightarrow> string list \<Rightarrow> string \<Rightarrow> string list" where
  "clean_step rooted out seg =
     (if seg = [] \<or> seg = ''.'' then out
      else if seg = ''..'' then (if out \<noteq> [] \<and> last out \<noteq> ''..'' then butlast out
        else if rooted then out else out @ [seg])
      else out @ [seg])"

definition filepath_Clean :: "string \<Rightarrow> string" where
  "filepath_Clean p =
     (let rooted = (p \<noteq> [] \<and> hd p = CHR ''/'');
          s = (if rooted then ''/'' else []) @ join_with CHR ''/'' (foldl (clean_step rooted) [] (split_on CHR ''/'' p))
      in if s = [] then ''.'' else s)"

definition filepath_Join :: "string \<Rightarrow> string \<Rightarrow> string" where
  "filepath_Join dir name =
     (if dir = [] \<and> name = [] then []
      else if dir = [] then filepath_Clean name else filepath_Clean (dir @ ''/'' @ name))"

definition filepath_Base :: "string \<Rightarrow> string" where
  "filepath_Base p =
     (if p = [] then ''.''
      else let p = rev (dropWhile (\<lambda>c. c = CHR ''/'') (rev p));
               base = last (split_on CHR ''/'' p)
           in if base = [] then ''/'' else base)"

text \<open>\<^verbatim>\<open>strings.Replace\<close> of the first occurrence, and \<^verbatim>\<open>strings.ReplaceAll\<close>, of a text that is not empty.\<close>

fun replace_first :: "string \<Rightarrow> string \<Rightarrow> string \<Rightarrow> string" where
  "replace_first old new [] = []"
| "replace_first old new (c # s) =
     (if prefix old (c # s) then new @ drop (length old) (c # s) else c # replace_first old new s)"

function replace_all :: "string \<Rightarrow> string \<Rightarrow> string \<Rightarrow> string" where
  "replace_all old new s =
     (if s = [] then []
      else if old \<noteq> [] \<and> prefix old s then new @ replace_all old new (drop (length old) s)
      else hd s # replace_all old new (tl s))"
  by pat_completeness auto
termination
  by (relation "measure (\<lambda>(old, new, s). length s)") auto

declare replace_all.simps [simp del]

subsection \<open>Checks and copies\<close>

text \<open>Whatever fails after the first error, the message wraps the first error.\<close>

definition checkFileAccess ::
  "'k os \<Rightarrow> string \<Rightarrow> open_flag \<Rightarrow> nat \<Rightarrow> bool \<Rightarrow> 'k \<Rightarrow> file_error option \<times> 'k" where
  "checkFileAccess os path flag perm tryCreate k =
     (case OpenFile os path flag perm k of
        None \<Rightarrow> (None, k)
      | Some (OpenFailed err) \<Rightarrow> (Some (NoAccess path err), k)
      | Some NotExist \<Rightarrow>
          if \<not> tryCreate then (Some (NoAccess path notExist), k)
          else (case CreateFile os path k of
                  (Some err2, k) \<Rightarrow> (Some (CannotCreate path notExist), k)
                | (None, k) \<Rightarrow>
                    (case RemoveFile os path k of
                       (Some err2, k) \<Rightarrow> (Some (RemovingFailed notExist), k)
                     | (None, k) \<Rightarrow> (None, k))))"

definition destination :: "configurator \<Rightarrow> string" where
  "destination ec = filepath_Join (configDestination ec) (filepath_Base (configPath ec))"

definition checkedFiles :: "configurator \<Rightarrow> (string \<times> open_flag \<times> nat \<times> bool) list" where
  "checkedFiles ec =
     [(manifestPath ec, O_RDWR, perm0666, False), (configPath ec, O_RDONLY, perm0666, False),
      (destination ec, O_RDWR, perm0644, True), (certKeyFile ec, O_RDONLY, perm0600, False),
      (certCrtFile ec, O_RDONLY, perm0644, False)]"

definition check_files :: "'k os \<Rightarrow> (string \<times> open_flag \<times> nat \<times> bool) list \<Rightarrow> 'k \<Rightarrow> file_error list \<times> 'k" where
  "check_files os files k =
     fold (\<lambda>(path, flag, perm, tryCreate) (errLog, k).
         case checkFileAccess os path flag perm tryCreate k of
           (None, k) \<Rightarrow> (errLog, k)
         | (Some err, k) \<Rightarrow> (errLog @ [err], k)) files ([], k)"

text \<open>The probe of the certificate directory: it is created with its parents, and then only the directory is removed.\<close>

definition check_certDir :: "'k os \<Rightarrow> string \<Rightarrow> 'k \<Rightarrow> file_error list \<times> 'k" where
  "check_certDir os dir k =
     (case Access os dir k of
        None \<Rightarrow> ([], k)
      | Some (OpenFailed err) \<Rightarrow> ([NoDirectory dir err], k)
      | Some NotExist \<Rightarrow>
          (case MkdirAll os dir perm0755 k of
             (Some err, k) \<Rightarrow> ([NoDirectory dir err], k)
           | (None, k) \<Rightarrow> ([], RemoveAll os dir k)))"

definition checkFileAccesses :: "'k os \<Rightarrow> configurator \<Rightarrow> 'k \<Rightarrow> (cfg_error + configurator) \<times> 'k" where
  "checkFileAccesses os ec k =
     (case check_files os (checkedFiles ec) k of
        (errLog, k) \<Rightarrow>
          (case check_certDir os (certDir ec) k of
             (errs, k) \<Rightarrow>
               (if errLog @ errs \<noteq> [] then Inl (FileChecks (errLog @ errs))
                else Inr (ec\<lparr>configDestPath := destination ec\<rparr>), k)))"

fun copyFiles :: "'k os \<Rightarrow> (string \<times> string \<times> nat) list \<Rightarrow> 'k \<Rightarrow> cfg_error option \<times> 'k" where
  "copyFiles os [] k = (None, k)"
| "copyFiles os ((inputFilePath, outputFilePath, perm) # copies) k =
     (case ReadFile os inputFilePath k of
        Inl err \<Rightarrow> (Some (FileError inputFilePath err), k)
      | Inr input \<Rightarrow>
          (case WriteFile os outputFilePath input perm k of
             (Some err, k) \<Rightarrow> (Some (FileError outputFilePath err), k)
           | (None, k) \<Rightarrow> copyFiles os copies k))"

definition copyCerts :: "'k os \<Rightarrow> configurator \<Rightarrow> 'k \<Rightarrow> cfg_error option \<times> 'k" where
  "copyCerts os ec k =
     (case MkdirAll os (certDir ec) perm0755 k of
        (Some err, k) \<Rightarrow> (Some (FileError (certDir ec) err), k)
      | (None, k) \<Rightarrow>
          copyFiles os
            [(certKeyFile ec, filepath_Join (certDir ec) ''client.key'', perm0600),
             (certCrtFile ec, filepath_Join (certDir ec) ''client.crt'', perm0644)] k)"

definition createBackups :: "'k os \<Rightarrow> configurator \<Rightarrow> 'k \<Rightarrow> (cfg_error + string) \<times> 'k" where
  "createBackups os ec k =
     (if backupDestination ec = ''/dev/null'' then (Inr [], k)
      else case MkdirTemp os (backupDestination ec) (''backup_'' @ Today os @ ''_'') k of
        (Inl err, k) \<Rightarrow> (Inl (FileError (backupDestination ec) err), k)
      | (Inr backupFolder, k) \<Rightarrow>
          let copyInfos = [(manifestPath ec, filepath_Join backupFolder (filepath_Base (manifestPath ec)), perm0644)];
              copyInfos = (if Stat os (configDestPath ec) k
                then copyInfos @ [(configDestPath ec, filepath_Join backupFolder (filepath_Base (configDestPath ec)), perm0644)]
                else copyInfos)
          in case copyFiles os copyInfos k of
               (Some err, k) \<Rightarrow> (Inl err, k)
             | (None, k) \<Rightarrow> (Inr backupFolder, k))"

subsection \<open>Reading and writing the files\<close>

text \<open>The part of \<^verbatim>\<open>readManifest\<close> after the file is read.\<close>

definition parse_manifest :: "cfg_lib \<Rightarrow> configurator \<Rightarrow> string \<Rightarrow> cfg_error + configurator" where
  "parse_manifest lib ec schedYamlData =
     (case Unmarshal lib schedYamlData of
        Inl err \<Rightarrow> Inl (YamlError err)
      | Inr data \<Rightarrow>
          (case data ''spec'' of
             Some (YMap m) \<Rightarrow> Inr (ec\<lparr>origManifest := schedYamlData, manifestData := data\<rparr>)
           | _ \<Rightarrow> Inl NotFound))"

definition readManifest :: "'k os \<Rightarrow> cfg_lib \<Rightarrow> configurator \<Rightarrow> 'k \<Rightarrow> cfg_error + configurator" where
  "readManifest os lib ec k =
     (case ReadFile os (manifestPath ec) k of
        Inl err \<Rightarrow> Inl (FileError (manifestPath ec) err)
      | Inr schedYamlData \<Rightarrow> parse_manifest lib ec schedYamlData)"

definition createConfig ::
  "'k os \<Rightarrow> cfg_lib \<Rightarrow> configurator \<Rightarrow> int \<Rightarrow> int \<Rightarrow> 'k \<Rightarrow> (cfg_error + int) \<times> 'k" where
  "createConfig os lib ec minorVersion numChanges k =
     (case getSchedulerAPIVersion minorVersion of
        Inl err \<Rightarrow> (Inl err, k)
      | Inr apiVersion \<Rightarrow>
          (case ReadFile os (configPath ec) k of
             Inl err \<Rightarrow> (Inl (FileError (configPath ec) err), k)
           | Inr read \<Rightarrow>
               let modified = replace_first ''XVERSIONX'' apiVersion read;
                   origConfigData = (case ReadFile os (configDestPath ec) k of Inl err \<Rightarrow> [] | Inr data \<Rightarrow> data);
                   numNewChanges = DiffLevenshtein lib origConfigData modified
               in if dryRun ec then (Inr numChanges, k)
                  else if 0 < numNewChanges
                  then (case WriteFile os (configDestPath ec) modified perm0644 k of
                          (Some err, k) \<Rightarrow> (Inl (FileError (configDestPath ec) err), k)
                        | (None, k) \<Rightarrow> (Inr (numChanges + numNewChanges), k))
                  else (Inr (numChanges + numNewChanges), k)))"

fun modify_deployments :: "'k os \<Rightarrow> bool \<Rightarrow> string list \<Rightarrow> 'k \<Rightarrow> cfg_error option \<times> 'k" where
  "modify_deployments os dry [] k = (None, k)"
| "modify_deployments os dry (deployment # deployments) k =
     (if deployment = [] then modify_deployments os dry deployments k
      else case ReadFile os deployment k of
        Inl err \<Rightarrow> (Some (FileError deployment err), k)
      | Inr read \<Rightarrow>
          let modified = replace_all ''control-plane'' ''master'' read
          in if dry then modify_deployments os dry deployments k
             else case WriteFile os deployment modified perm0644 k of
               (Some err, k) \<Rightarrow> (Some (FileError deployment err), k)
             | (None, k) \<Rightarrow> modify_deployments os dry deployments k)"

definition modifyDeployments :: "'k os \<Rightarrow> configurator \<Rightarrow> int \<Rightarrow> 'k \<Rightarrow> cfg_error option \<times> 'k" where
  "modifyDeployments os ec minorVersion k =
     (if 24 \<le> minorVersion then (None, k)
      else modify_deployments os (dryRun ec) [deploymentPathTAS ec, deploymentPathGAS ec] k)"

definition writeManifest ::
  "'k os \<Rightarrow> cfg_lib \<Rightarrow> configurator \<Rightarrow> int \<Rightarrow> 'k \<Rightarrow> (cfg_error + int) \<times> 'k" where
  "writeManifest os lib ec numChanges k =
     (case Marshal lib (manifestData ec) of
        Inl err \<Rightarrow> (Inl (YamlError err), k)
      | Inr bytes \<Rightarrow>
          let numNewChanges = DiffLevenshtein lib (origManifest ec) bytes
          in if dryRun ec then (Inr numChanges, k)
             else if 0 < numNewChanges
             then (case WriteFile os (manifestPath ec) bytes perm0644 k of
                     (Some err, k) \<Rightarrow> (Inl (FileError (manifestPath ec) err), k)
                   | (None, k) \<Rightarrow> (Inr (numChanges + numNewChanges), k))
             else (Inr (numChanges + numNewChanges), k))"

subsection \<open>The run\<close>

definition prepare :: "'k os \<Rightarrow> configurator \<Rightarrow> 'k \<Rightarrow> (cfg_error + string) \<times> 'k" where
  "prepare os ec k =
     (if dryRun ec then (Inr [], k)
      else case createBackups os ec k of
        (Inl err, k) \<Rightarrow> (Inl err, k)
      | (Inr backupFolder, k) \<Rightarrow>
          (case copyCerts os ec k of
             (Some err, k) \<Rightarrow> (Inl err, k)
           | (None, k) \<Rightarrow> (Inr backupFolder, k)))"

text \<open>The last steps of \<^verbatim>\<open>run\<close>, which write the files.\<close>

definition write_files ::
  "'k os \<Rightarrow> cfg_lib \<Rightarrow> configurator \<Rightarrow> int \<Rightarrow> string \<Rightarrow> 'k \<Rightarrow> cfg_error option \<times> 'k" where
  "write_files os lib ec minorVer backupFolder k =
     (case createConfig os lib ec minorVer 0 k of
        (Inl err, k) \<Rightarrow> (Some err, k)
      | (Inr numChanges, k) \<Rightarrow>
     (case modifyDeployments os ec minorVer k of
        (Some err, k) \<Rightarrow> (Some err, k)
      | (None, k) \<Rightarrow>
     (case writeManifest os lib (set_dnsPolicy ec) numChanges k of
        (Inl err, k) \<Rightarrow> (Some err, k)
      | (Inr numChanges, k) \<Rightarrow>
          (None, if \<not> dryRun ec \<and> numChanges = 0 \<and> backupFolder \<noteq> [] then RemoveAll os backupFolder k else k))))"

text \<open>The state is the one after the flags are parsed; a panic ends the run with its error.\<close>

definition run :: "'k os \<Rightarrow> cfg_lib \<Rightarrow> configurator \<Rightarrow> 'k \<Rightarrow> cfg_error option \<times> 'k" where
  "run os lib ec k =
     (case checkFileAccesses os ec k of
        (Inl err, k) \<Rightarrow> (Some err, k)
      | (Inr ec, k) \<Rightarrow>
     (case readManifest os lib ec k of
        Inl err \<Rightarrow> (Some err, k)
      | Inr ec \<Rightarrow>
     (case readSchedulerMinorVersion ec of
        Inl err \<Rightarrow> (Some err, k)
      | Inr minorVer \<Rightarrow>
     (case prepare os ec k of
        (Inl err, k) \<Rightarrow> (Some err, k)
      | (Inr backupFolder, k) \<Rightarrow>
     (case modify_spec ec of
        Inl err \<Rightarrow> (Some err, k)
      | Inr ec \<Rightarrow> write_files os lib ec minorVer backupFolder k)))))"

subsection \<open>The command\<close>

definition createExtenderConfigurator :: configurator where
  "createExtenderConfigurator =
     \<lparr>manifestData = Map.empty, backupDestination = [], certCrtFile = [], certDir = certDirID, certKeyFile = [],
      configDestination = [], configDestPath = [], configPath = [], deploymentPathGAS = [], deploymentPathTAS = [],
      manifestPath = [], origManifest = [], dryRun = False\<rparr>"

text \<open>
  The flags that the command line sets, by their names, with their last values; a Boolean flag without a value has the
  value \<open>true\<close>. A value that is no Boolean ends the process with status 2 (\<open>None\<close>). How the command line is
  split into flags is left to the library.
\<close>

definition ParseBool :: "string \<Rightarrow> bool option" where
  "ParseBool s =
     (if s \<in> set [''1'', ''t'', ''T'', ''true'', ''TRUE'', ''True''] then Some True
      else if s \<in> set [''0'', ''f'', ''F'', ''false'', ''FALSE'', ''False''] then Some False
      else None)"

definition flag_value :: "(string \<Rightarrow> string option) \<Rightarrow> string \<Rightarrow> string \<Rightarrow> string" where
  "flag_value given name value = (case given name of Some v \<Rightarrow> v | None \<Rightarrow> value)"

definition defineFlags :: "(string \<Rightarrow> string option) \<Rightarrow> configurator \<Rightarrow> configurator option" where
  "defineFlags given ec =
     map_option (\<lambda>dry. ec\<lparr>
        backupDestination := flag_value given ''b'' ''/etc/kubernetes'',
        certCrtFile := flag_value given ''cert'' ''/etc/kubernetes/pki/ca.crt'',
        certDir := flag_value given ''cert-dir'' ''/etc/certs/'',
        configDestination := flag_value given ''d'' ''/etc/kubernetes'',
        dryRun := dry,
        configPath := flag_value given ''f'' ''deploy/extender-configuration/scheduler-config.yaml'',
        deploymentPathGAS := flag_value given ''gas-depl'' [],
        certKeyFile := flag_value given ''key'' ''/etc/kubernetes/pki/ca.key'',
        manifestPath := flag_value given ''m'' ''/etc/kubernetes/manifests/kube-scheduler.yaml'',
        deploymentPathTAS := flag_value given ''tas-depl'' ''deploy/tas-deployment.yaml''\<rparr>)
       (case given ''dry-run'' of Some v \<Rightarrow> ParseBool v | None \<Rightarrow> Some False)"

text \<open>The status the process ends with, the error that it logs, and the files.\<close>

definition cfg_main :: "'k os \<Rightarrow> cfg_lib \<Rightarrow> (string \<Rightarrow> string option) \<Rightarrow> 'k \<Rightarrow> nat \<times> cfg_error option \<times> 'k" where
  "cfg_main os lib given k =
     (case defineFlags given createExtenderConfigurator of
        None \<Rightarrow> (2, None, k)
      | Some ec \<Rightarrow> (0, run os lib ec k))"

lemma defineFlags_fields:
  assumes "defineFlags given createExtenderConfigurator = Some ec"
  shows "manifestPath ec = flag_value given ''m'' ''/etc/kubernetes/manifests/kube-scheduler.yaml''"
    and "backupDestination ec = flag_value given ''b'' ''/etc/kubernetes''"
    and "given ''dry-run'' = None \<Longrightarrow> \<not> dryRun ec"
  using assms by (auto simp: defineFlags_def)

text \<open>A run that fails does not show in the status.\<close>

lemma failed_run_ends_with_0:
  assumes "cfg_main os lib given k = (status, Some err, k')"
  shows "status = 0"
  using assms by (auto simp: cfg_main_def split: option.splits)

subsection \<open>Dry runs\<close>

lemma modify_spec_fields:
  "modify_spec ec = Inr ec' \<Longrightarrow> \<exists>m. ec' = set_spec m ec"
proof -
  assume a: "modify_spec ec = Inr ec'"
  have "\<exists>m. x = set_spec m ec" if "SetCommand ec = Inr x" for x ec
    using that by (fastforce simp: SetCommand_def first_container_iff set_container_spec split: sum.splits option.splits yaml.splits)
  moreover have "\<exists>m. x = set_spec m ec" if "SetContainerVolumeMounts ec = Inr x" for x ec
    using that by (fastforce simp: SetContainerVolumeMounts_def first_container_iff set_container_spec
        split: sum.splits option.splits yaml.splits)
  moreover have "\<exists>m. x = set_spec m ec" if "setVolumes ec = Inr x" for x ec
    using that by (auto simp: setVolumes_def Let_def split: sum.splits)
  ultimately show ?thesis using a by (fastforce simp: modify_spec_def split: sum.splits)
qed

lemma set_spec_more [simp]: "dryRun (set_spec m ec) = dryRun ec" "origManifest (set_spec m ec) = origManifest ec"
  by (simp_all add: set_spec_def)

lemma dry_deployments: "snd (modify_deployments os True deployments k) = k"
  by (induction os "True" deployments k rule: modify_deployments.induct) (simp_all add: Let_def split: sum.split)

lemma dry_steps:
  assumes "dryRun ec"
  shows "snd (createConfig os lib ec v n k) = k" "snd (modifyDeployments os ec v k) = k"
    "snd (writeManifest os lib ec n k) = k" "prepare os ec k = (Inr [], k)"
  using assms by (simp_all add: createConfig_def modifyDeployments_def dry_deployments writeManifest_def prepare_def Let_def
      split: sum.split)

lemma checked_fields: "checkFileAccesses os ec k = (Inr ec', k') \<Longrightarrow> ec' = ec\<lparr>configDestPath := destination ec\<rparr>"
  by (auto simp: checkFileAccesses_def split: prod.splits if_splits)

lemma read_fields: "readManifest os lib ec k = Inr ec' \<Longrightarrow> \<exists>m s. ec' = ec\<lparr>origManifest := s, manifestData := m\<rparr>"
  by (auto simp: readManifest_def parse_manifest_def split: sum.splits option.splits yaml.splits)

lemma dry_write_files:
  assumes "dryRun ec"
  shows "snd (write_files os lib ec v b k) = k"
proof -
  obtain x y where 1: "createConfig os lib ec v 0 k = (x, k)" "modifyDeployments os ec v k = (y, k)"
    using dry_steps(1,2) [OF assms] by (metis prod.collapse)
  have "\<exists>z. writeManifest os lib (set_dnsPolicy ec) n k = (z, k)" for n
    using dry_steps(3) [of "set_dnsPolicy ec"] assms by (metis prod.collapse set_dnsPolicy_def set_spec_more(1))
  then obtain z where 2: "writeManifest os lib (set_dnsPolicy ec) n k = (z n, k)" for n by metis
  show ?thesis by (simp add: write_files_def 1 2 assms split: sum.split option.split)
qed

lemma dry_run_steps:
  assumes "dryRun ec"
  shows "snd (run os lib ec k) = snd (checkFileAccesses os ec k)"
proof -
  have "snd (run os lib ec k) = k'" if c: "checkFileAccesses os ec k = (Inr ec', k')" for ec' k'
  proof -
    have dry: "dryRun ec1" if "readManifest os lib ec' k' = Inr ec1" for ec1
      using read_fields [OF that] checked_fields [OF c] assms by auto
    then have dry2: "dryRun ec2" if "readManifest os lib ec' k' = Inr ec1" "modify_spec ec1 = Inr ec2" for ec1 ec2
      using modify_spec_fields [OF that(2)] that(1) by auto
    show ?thesis
      by (auto simp: run_def c dry_steps(4) dry dry_write_files dry2 split: sum.split)
  qed
  then show ?thesis by (cases "checkFileAccesses os ec k"; cases "fst (checkFileAccesses os ec k)") (auto simp: run_def)
qed

lemma probes_keep:
  assumes "OpenFile os (destination ec) O_RDWR perm0644 k \<noteq> Some NotExist" "Access os (certDir ec) k \<noteq> Some NotExist"
  shows "snd (checkFileAccesses os ec k) = k"
proof -
  have f: "snd (checkFileAccess os path flag perm False k) = k" for path flag perm
    by (simp add: checkFileAccess_def split: option.split open_error.split)
  have d: "snd (checkFileAccess os (destination ec) O_RDWR perm0644 True k) = k"
    using assms(1) by (auto simp: checkFileAccess_def split: option.split open_error.split)
  have step: "snd (fold (\<lambda>(path, flag, perm, tryCreate) (errLog, k).
      case checkFileAccess os path flag perm tryCreate k of (None, k) \<Rightarrow> (errLog, k) | (Some err, k) \<Rightarrow> (errLog @ [err], k))
      files (errs, k)) = k" if "\<forall>(path, flag, perm, tryCreate) \<in> set files. snd (checkFileAccess os path flag perm tryCreate k) = k"
    for files errs
    using that
  proof (induction files arbitrary: errs)
    case (Cons e files)
    obtain path flag perm c where e: "e = (path, flag, perm, c)" by (metis prod_cases4)
    with Cons.prems obtain r where "checkFileAccess os path flag perm c k = (r, k)" by (cases "checkFileAccess os path flag perm c k") auto
    then show ?case using Cons e by (cases r) auto
  qed simp
  have "snd (check_files os (checkedFiles ec) k) = k"
    unfolding check_files_def by (rule step) (simp add: checkedFiles_def f d)
  moreover have "snd (check_certDir os (certDir ec) k) = k"
    using assms(2) by (auto simp: check_certDir_def split: option.split open_error.split)
  ultimately show ?thesis by (auto simp: checkFileAccesses_def split: prod.split)
qed

text \<open>C22: a dry run writes nothing. Whatever the files hold and whichever step fails, all that a dry run does to the
  file system are the probes of the access checks; and if the destination of the configuration and the certificate directory
  exist, it does nothing at all.\<close>

theorem dry_run_only_probes:
  assumes "dryRun ec"
  shows "snd (run os lib ec k) = snd (checkFileAccesses os ec k) \<and>
    (OpenFile os (destination ec) O_RDWR perm0644 k \<noteq> Some NotExist \<longrightarrow> Access os (certDir ec) k \<noteq> Some NotExist \<longrightarrow>
     snd (run os lib ec k) = k)"
  using dry_run_steps [OF assms] probes_keep by metis

subsection \<open>Running twice\<close>

text \<open>The manifest's new text: reading, modifying and writing it.\<close>

definition manifest_text :: "cfg_lib \<Rightarrow> configurator \<Rightarrow> string \<Rightarrow> cfg_error + string" where
  "manifest_text lib ec text =
     (case parse_manifest lib ec text of
        Inl err \<Rightarrow> Inl err
      | Inr ec \<Rightarrow>
          (case modify_manifest ec of
             Inl err \<Rightarrow> Inl err
           | Inr ec \<Rightarrow> map_sum YamlError id (Marshal lib (manifestData ec))))"

text \<open>
  The YAML library reads back what it wrote, as \<open>reread\<close> gives it, and writes data alike that it reads back alike; the
  distance of a text to itself is 0.
\<close>

definition lib_ok :: "cfg_lib \<Rightarrow> bool" where
  "lib_ok lib \<longleftrightarrow>
     (\<forall>m s. Marshal lib m = Inr s \<longrightarrow> Unmarshal lib s = Inr (reread_map m)) \<and>
     (\<forall>m m'. reread_map m = reread_map m' \<longrightarrow> Marshal lib m = Marshal lib m') \<and>
     (\<forall>s. DiffLevenshtein lib s s = 0)"

lemma lib_okD:
  assumes "lib_ok lib"
  shows "Marshal lib m = Inr s \<Longrightarrow> Unmarshal lib s = Inr (reread_map m)"
    "reread_map m = reread_map m' \<Longrightarrow> Marshal lib m = Marshal lib m'" "DiffLevenshtein lib s s = 0"
  using assms unfolding lib_ok_def by blast+

lemma map_sum_Inr: "map_sum f g x = Inr b \<longleftrightarrow> (\<exists>a. x = Inr a \<and> b = g a)"
  by (cases x) auto

lemma manifest_text_twice:
  assumes "lib_ok lib" "manifest_text lib ec text = Inr text'"
  obtains ec1 ec2 where "parse_manifest lib ec text' = Inr ec1" "modify_spec ec1 = Inr ec2" "origManifest ec2 = text'"
    "Marshal lib (manifestData (set_dnsPolicy ec2)) = Inr text'"
proof -
  from assms(2) obtain a b where a: "parse_manifest lib ec text = Inr a" "modify_manifest a = Inr b"
    "Marshal lib (manifestData b) = Inr text'"
    by (auto simp: manifest_text_def map_sum_Inr split: sum.splits)
  from a(1) obtain data where "a = ec\<lparr>origManifest := text, manifestData := data\<rparr>"
    by (auto simp: parse_manifest_def split: sum.splits option.splits yaml.splits)
  then have fields: "configDestPath a = configDestPath ec" "certDir a = certDir ec" by simp_all
  from a(2) obtain m where "b = set_spec m a" unfolding modify_manifest_iff by blast
  then have s: "manifestData b ''spec'' = Some (YMap m)" by simp
  have u: "Unmarshal lib text' = Inr (reread_map (manifestData b))" by (rule lib_okD(1) [OF assms(1) a(3)])
  define ec1 where "ec1 = ec\<lparr>origManifest := text', manifestData := reread_map (manifestData b)\<rparr>"
  have p: "parse_manifest lib ec text' = Inr ec1"
    by (simp add: parse_manifest_def u reread_map_app s ec1_def)
  have "manifestData ec1 = reread_map (manifestData b)" "configDestPath ec1 = configDestPath a" "certDir ec1 = certDir a"
    by (simp_all add: ec1_def fields)
  from modify_twice [OF a(2) this] obtain m2 where m2: "modify_manifest ec1 = Inr (set_spec m2 ec1)"
    "reread_map (manifestData (set_spec m2 ec1)) = reread_map (manifestData b)" by blast
  from m2(1) obtain ec2 where ec2: "modify_spec ec1 = Inr ec2" "set_dnsPolicy ec2 = set_spec m2 ec1"
    by (auto simp: modify_manifest_def split: sum.splits)
  have "Marshal lib (manifestData (set_dnsPolicy ec2)) = Inr text'"
    using lib_okD(2) [OF assms(1) m2(2)] a(3) unfolding ec2(2) by simp
  moreover have "origManifest ec2 = text'" using modify_spec_fields [OF ec2(1)] by (auto simp: ec1_def)
  ultimately show thesis using that p ec2(1) by blast
qed

text \<open>C21: configuring twice is configuring once. What a run makes of its own manifest is that manifest: command,
  mounts, volumes and DNS policy are as the first run left them, the second run counts no change and does not write the file.\<close>

theorem configure_twice:
  assumes "lib_ok lib" "manifest_text lib ec text = Inr text'"
  shows "manifest_text lib ec text' = Inr text' \<and>
    (\<exists>ec1 ec2. parse_manifest lib ec text' = Inr ec1 \<and> modify_spec ec1 = Inr ec2 \<and>
       writeManifest os lib (set_dnsPolicy ec2) n k = (Inr n, k))"
proof -
  obtain ec1 ec2 where e: "parse_manifest lib ec text' = Inr ec1" "modify_spec ec1 = Inr ec2" "origManifest ec2 = text'"
    "Marshal lib (manifestData (set_dnsPolicy ec2)) = Inr text'"
    by (rule manifest_text_twice [OF assms])
  have "origManifest (set_dnsPolicy ec2) = text'" by (simp add: set_dnsPolicy_def e(3))
  then have "writeManifest os lib (set_dnsPolicy ec2) n k = (Inr n, k)"
    by (simp add: writeManifest_def e(4) lib_okD(3) [OF assms(1)] Let_def)
  with e show ?thesis by (auto simp: manifest_text_def modify_manifest_def)
qed

subsection \<open>Examples\<close>

definition demo_os :: "(string, string) gomap os" where
  "demo_os =
     \<lparr>ReadFile = (\<lambda>p k. case map_of k p of None \<Rightarrow> Inl ''no such file'' | Some data \<Rightarrow> Inr data),
      WriteFile = (\<lambda>p data perm k. (None, AList.update p data k)),
      OpenFile = (\<lambda>p flag perm k. if map_of k p = None then Some NotExist else None),
      CreateFile = (\<lambda>p k. (None, AList.update p [] k)), RemoveFile = (\<lambda>p k. (None, AList.delete p k)),
      MkdirAll = (\<lambda>p perm k. (None, k)), RemoveAll = (\<lambda>p k. filter (\<lambda>(q, data). \<not> prefix (p @ ''/'') q) k),
      MkdirTemp = (\<lambda>dir name k. (Inr (dir @ ''/'' @ name @ ''1''), k)),
      Stat = (\<lambda>p k. map_of k p \<noteq> None), Access = (\<lambda>p k. None), Today = ''2024-01-01''\<rparr>"

definition demo_args :: "string list" where
  "demo_args = [''kube-scheduler'', ''--config'', ''old.yaml'', ''-v=2'']"

definition demo_result :: yaml_map where
  "demo_result = reread_map (manifestData (set_spec (new_spec (demo_ec demo_args)
     [''image'' \<mapsto> YStr ''k8s/kube-scheduler:v1.26.3'', ''command'' \<mapsto> YList (map YStr demo_args)] []
     [''kube-scheduler'', ''-v=2''] [] []) (demo_ec demo_args)))"

definition demo_lib :: cfg_lib where
  "demo_lib =
     \<lparr>Unmarshal = (\<lambda>s. if s = ''old'' then Inr (demo_manifest demo_args) else if s = ''new'' then Inr demo_result else Inl ''syntax''),
      Marshal = (\<lambda>m. if reread_map m = demo_result then Inr ''new'' else Inl ''unexpected''),
      DiffLevenshtein = (\<lambda>a b. if a = b then 0 else 1)\<rparr>"

lemma dry_run_only_probes_witness:
  "snd (run demo_os demo_lib (demo_ec demo_args\<lparr>dryRun := True\<rparr>) [(''/etc/config.yaml'', ''old'')]) = [(''/etc/config.yaml'', ''old'')]"
proof -
  have d: "dryRun (demo_ec demo_args\<lparr>dryRun := True\<rparr>)" by simp
  have "destination (demo_ec demo_args\<lparr>dryRun := True\<rparr>) = ''/etc/config.yaml''" by code_simp
  then have "OpenFile demo_os (destination (demo_ec demo_args\<lparr>dryRun := True\<rparr>)) O_RDWR perm0644 [(''/etc/config.yaml'', ''old'')] \<noteq> Some NotExist"
    "Access demo_os (certDir (demo_ec demo_args\<lparr>dryRun := True\<rparr>)) [(''/etc/config.yaml'', ''old'')] \<noteq> Some NotExist"
    by (simp_all add: demo_os_def)
  with dry_run_only_probes [OF d, of demo_os demo_lib "[(''/etc/config.yaml'', ''old'')]"] show ?thesis by blast
qed

lemma demo_lib_ok: "lib_ok demo_lib"
proof -
  have "reread_map demo_result = demo_result" by (simp only: demo_result_def reread_map_simps(3))
  then show ?thesis by (simp add: lib_ok_def demo_lib_def)
qed

lemma demo_text: "manifest_text demo_lib (demo_ec demo_args) ''old'' = Inr ''new''"
proof -
  let ?c = "[''image'' \<mapsto> YStr ''k8s/kube-scheduler:v1.26.3'', ''command'' \<mapsto> YList (map YStr demo_args)]"
  have ec: "manifestData (demo_ec demo_args) = demo_manifest demo_args" by (simp add: demo_ec_def)
  let ?ec = "(demo_ec demo_args)\<lparr>origManifest := ''old'', manifestData := demo_manifest demo_args\<rparr>"
  have p: "parse_manifest demo_lib (demo_ec demo_args) ''old'' = Inr ?ec"
    by (simp add: parse_manifest_def demo_lib_def demo_manifest_def)
  have args: "drop_args False (map YStr demo_args) = Inr [''kube-scheduler'', ''-v=2'']"
    by (simp add: demo_args_def skipArg_def flag_names_def)
  have "manifest_shape ?ec ?c [] [''kube-scheduler'', ''-v=2''] [] []"
    using args by (simp add: manifest_shape_def spec_def demo_manifest_def mounts_of_def volumes_of_def)
  then have "modify_manifest ?ec = Inr (set_spec (new_spec ?ec ?c [] [''kube-scheduler'', ''-v=2''] [] []) ?ec)"
    unfolding modify_manifest_iff by blast
  moreover have "new_spec ?ec ?c [] [''kube-scheduler'', ''-v=2''] [] [] =
      new_spec (demo_ec demo_args) ?c [] [''kube-scheduler'', ''-v=2''] [] []"
    by (simp add: new_spec_def new_container_def own_mounts_def own_volumes_def spec_def ec)
  ultimately have m: "modify_manifest ?ec = Inr (set_spec (new_spec (demo_ec demo_args) ?c [] [''kube-scheduler'', ''-v=2''] [] []) ?ec)"
    by simp
  have "Marshal demo_lib (manifestData (set_spec (new_spec (demo_ec demo_args) ?c [] [''kube-scheduler'', ''-v=2''] [] []) ?ec))
      = Inr ''new''"
    by (simp add: demo_lib_def demo_result_def set_spec_def ec)
  then show ?thesis unfolding manifest_text_def p sum.case m by simp
qed

lemma configure_twice_witness: "manifest_text demo_lib (demo_ec demo_args) ''new'' = Inr ''new''"
  using configure_twice [OF demo_lib_ok demo_text, of demo_os 0 "[]"] by blast

end
