(* ===== verification/Cfg_Files.thy ===== *)
theory Cfg_Files
  imports Cfg_Run
begin

text \<open>
  What a run of the configurator does to the files (\<^verbatim>\<open>configurator/internal/cmd/main.go\<close>): it leaves the manifest
  as it was, or writes the new one, and the old one is not lost.
\<close>

subsection \<open>A file system\<close>

text \<open>
  Two paths may lead to one file: \<open>ident\<close> gives the file of a path, \<open>inside\<close> says whether a path leads into a
  directory. Writing a file leaves all other files alone, and if it succeeds the file holds the data; creating and removing a
  file touch no other; making directories touches none; removing a directory only those inside of it.
\<close>

definition leaves :: "'k os \<Rightarrow> 'k \<Rightarrow> 'k \<Rightarrow> string set \<Rightarrow> bool" where
  "leaves os k k' paths \<longleftrightarrow> (\<forall>p \<in> paths. ReadFile os p k' = ReadFile os p k)"

definition file_system :: "'k os \<Rightarrow> (string \<Rightarrow> 'f) \<Rightarrow> (string \<Rightarrow> string \<Rightarrow> bool) \<Rightarrow> bool" where
  "file_system os ident inside \<longleftrightarrow>
     (\<forall>q data perm k e k'. WriteFile os q data perm k = (e, k') \<longrightarrow> leaves os k k' {p. ident p \<noteq> ident q} \<and>
        (e = None \<longrightarrow> (\<forall>p. ident p = ident q \<longrightarrow> ReadFile os p k' = Inr data))) \<and>
     (\<forall>q k e k'. CreateFile os q k = (e, k') \<or> RemoveFile os q k = (e, k') \<longrightarrow> leaves os k k' {p. ident p \<noteq> ident q}) \<and>
     (\<forall>d perm k e k'. MkdirAll os d perm k = (e, k') \<longrightarrow> leaves os k k' UNIV) \<and>
     (\<forall>d name k r k'. MkdirTemp os d name k = (r, k') \<longrightarrow> leaves os k k' UNIV) \<and>
     (\<forall>d k. leaves os k (RemoveAll os d k) {p. \<not> inside d p})"

lemma file_system_rules:
  assumes "file_system os ident inside"
  shows write_leaves: "WriteFile os q data perm k = (e, k') \<Longrightarrow> ident p \<noteq> ident q \<Longrightarrow> ReadFile os p k' = ReadFile os p k"
    and write_holds: "WriteFile os q data perm k = (None, k') \<Longrightarrow> ReadFile os q k' = Inr data"
    and create_leaves: "CreateFile os q k = (e, k') \<Longrightarrow> ident p \<noteq> ident q \<Longrightarrow> ReadFile os p k' = ReadFile os p k"
    and remove_leaves: "RemoveFile os q k = (e, k') \<Longrightarrow> ident p \<noteq> ident q \<Longrightarrow> ReadFile os p k' = ReadFile os p k"
    and mkdir_leaves: "MkdirAll os d perm k = (e, k') \<Longrightarrow> ReadFile os p k' = ReadFile os p k"
    and temp_leaves: "MkdirTemp os d name k = (r, k') \<Longrightarrow> ReadFile os p k' = ReadFile os p k"
    and removal_leaves: "\<not> inside d p \<Longrightarrow> ReadFile os p (RemoveAll os d k) = ReadFile os p k"
  using assms unfolding file_system_def leaves_def by simp_all

subsection \<open>What the steps leave alone\<close>

lemma checkFileAccess_leaves:
  assumes fs: "file_system os ident inside" and p: "tryCreate \<longrightarrow> ident p \<noteq> ident path"
    and "checkFileAccess os path flag perm tryCreate k = (e, k')"
  shows "ReadFile os p k' = ReadFile os p k"
proof (cases "tryCreate \<and> OpenFile os path flag perm k = Some NotExist")
  case True
  obtain e1 k1 where c: "CreateFile os path k = (e1, k1)" by fastforce
  obtain e2 k2 where r: "RemoveFile os path k1 = (e2, k2)" by fastforce
  from True p have "ident p \<noteq> ident path" by simp
  with create_leaves [OF fs c] remove_leaves [OF fs r] True assms(3) c r show ?thesis
    by (cases e1; cases e2) (auto simp: checkFileAccess_def)
qed (use assms(3) in \<open>auto simp: checkFileAccess_def split: option.splits open_error.splits if_splits\<close>)

lemma check_files_leaves:
  assumes fs: "file_system os ident inside"
    and "\<forall>(path, flag, perm, tryCreate) \<in> set files. tryCreate \<longrightarrow> ident p \<noteq> ident path"
  shows "ReadFile os p (snd (check_files os files k)) = ReadFile os p k"
proof -
  let ?step = "\<lambda>(path, flag, perm, tryCreate) (errLog, k).
    case checkFileAccess os path flag perm tryCreate k of (None, k) \<Rightarrow> (errLog, k) | (Some err, k) \<Rightarrow> (errLog @ [err], k)"
  have "ReadFile os p (snd (fold ?step files (errs, k))) = ReadFile os p k" for errs k
    using assms(2)
  proof (induction files arbitrary: errs k)
    case (Cons x files)
    obtain path flag perm tryCreate where x: "x = (path, flag, perm, tryCreate)" by (cases x)
    obtain e k1 where c: "checkFileAccess os path flag perm tryCreate k = (e, k1)" by fastforce
    have "ReadFile os p k1 = ReadFile os p k"
      using Cons.prems x by (intro checkFileAccess_leaves [OF fs _ c]) auto
    with Cons.IH [of _ k1] Cons.prems show ?case by (cases e) (simp_all add: x c)
  qed simp
  then show ?thesis by (simp add: check_files_def)
qed

lemma check_certDir_leaves:
  assumes fs: "file_system os ident inside" and "\<not> inside dir p"
  shows "ReadFile os p (snd (check_certDir os dir k)) = ReadFile os p k"
proof -
  obtain e k1 where m: "MkdirAll os dir perm0755 k = (e, k1)" by fastforce
  from mkdir_leaves [OF fs m] removal_leaves [OF fs assms(2)] show ?thesis
    by (cases e) (simp_all add: check_certDir_def m split: option.split open_error.split)
qed

lemma checkFileAccesses_leaves:
  assumes fs: "file_system os ident inside" and "checkFileAccesses os ec k = (r, k')"
    and "ident p \<noteq> ident (destination ec)" "\<not> inside (certDir ec) p"
  shows "ReadFile os p k' = ReadFile os p k"
proof -
  obtain errLog k1 where c: "check_files os (checkedFiles ec) k = (errLog, k1)" by fastforce
  have "ReadFile os p k1 = ReadFile os p k"
    using check_files_leaves [OF fs, of "checkedFiles ec" p k] assms(3) c by (simp add: checkedFiles_def)
  with check_certDir_leaves [OF fs assms(4), of k1] assms(2) c show ?thesis
    by (auto simp: checkFileAccesses_def split: prod.splits)
qed

lemma copyFiles_leaves:
  assumes fs: "file_system os ident inside"
  shows "\<forall>(i, out, perm) \<in> set copies. ident p \<noteq> ident out \<Longrightarrow> ReadFile os p (snd (copyFiles os copies k)) = ReadFile os p k"
proof (induction copies arbitrary: k)
  case (Cons x copies)
  obtain i out perm where x: "x = (i, out, perm)" by (cases x)
  show ?case
  proof (cases "ReadFile os i k")
    case (Inr input)
    obtain e k1 where w: "WriteFile os out input perm k = (e, k1)" by fastforce
    from write_leaves [OF fs w] Cons.prems have "ReadFile os p k1 = ReadFile os p k" by (simp add: x)
    with Cons.IH [of k1] Cons.prems show ?thesis by (cases e) (simp_all add: x Inr w)
  qed (simp add: x)
qed simp

lemma copyCerts_leaves:
  assumes fs: "file_system os ident inside"
    and "ident p \<noteq> ident (filepath_Join (certDir ec) ''client.key'')" "ident p \<noteq> ident (filepath_Join (certDir ec) ''client.crt'')"
  shows "ReadFile os p (snd (copyCerts os ec k)) = ReadFile os p k"
proof -
  obtain e k1 where m: "MkdirAll os (certDir ec) perm0755 k = (e, k1)" by fastforce
  from mkdir_leaves [OF fs m] copyFiles_leaves [OF fs, of
      "[(certKeyFile ec, filepath_Join (certDir ec) ''client.key'', perm0600), (certCrtFile ec, filepath_Join (certDir ec) ''client.crt'', perm0644)]"
      p k1] assms(2,3) show ?thesis
    by (cases e) (simp_all add: copyCerts_def m)
qed

lemma createConfig_leaves:
  assumes fs: "file_system os ident inside" and "ident p \<noteq> ident (configDestPath ec)"
  shows "ReadFile os p (snd (createConfig os lib ec v n k)) = ReadFile os p k"
  using write_leaves [OF fs _ assms(2)] by (auto simp: createConfig_def Let_def split: sum.split option.split prod.split)

lemma modify_deployments_leaves:
  assumes fs: "file_system os ident inside"
  shows "\<forall>d \<in> set deployments. ident p \<noteq> ident d \<Longrightarrow>
    ReadFile os p (snd (modify_deployments os dry deployments k)) = ReadFile os p k"
proof (induction deployments arbitrary: k)
  case (Cons d deployments)
  show ?case
  proof (cases "ReadFile os d k")
    case (Inr read)
    obtain e k1 where w: "WriteFile os d (replace_all ''control-plane'' ''master'' read) perm0644 k = (e, k1)" by fastforce
    from write_leaves [OF fs w] Cons.prems have "ReadFile os p k1 = ReadFile os p k" by simp
    with Cons.IH [of k1] Cons.IH [of k] Cons.prems show ?thesis by (cases e; cases dry) (simp_all add: Inr w Let_def)
  qed (use Cons in simp)
qed simp

lemma modifyDeployments_leaves:
  assumes fs: "file_system os ident inside" and "ident p \<noteq> ident (deploymentPathTAS ec)" "ident p \<noteq> ident (deploymentPathGAS ec)"
  shows "ReadFile os p (snd (modifyDeployments os ec v k)) = ReadFile os p k"
  using modify_deployments_leaves [OF fs, of "[deploymentPathTAS ec, deploymentPathGAS ec]"] assms(2,3)
  by (simp add: modifyDeployments_def)

subsection \<open>Backups\<close>

definition backup_path :: "configurator \<Rightarrow> string \<Rightarrow> string" where
  "backup_path ec folder = filepath_Join folder (filepath_Base (manifestPath ec))"

text \<open>
  The paths of a run lead to different files: what the run writes beside the manifest is not the manifest, and a
  new folder for backups holds none of these files, nor are the manifest and the configuration of one name there.
\<close>

definition other_files :: "configurator \<Rightarrow> string set" where
  "other_files ec = {destination ec, filepath_Join (certDir ec) ''client.key'', filepath_Join (certDir ec) ''client.crt'',
     deploymentPathTAS ec, deploymentPathGAS ec}"

definition folder_apart :: "(string \<Rightarrow> 'f) \<Rightarrow> (string \<Rightarrow> string \<Rightarrow> bool) \<Rightarrow> configurator \<Rightarrow> string \<Rightarrow> bool" where
  "folder_apart ident inside ec folder \<longleftrightarrow> \<not> inside folder (manifestPath ec) \<and>
     ident (backup_path ec folder) \<notin> ident ` insert (manifestPath ec) (other_files ec) \<and>
     ident (filepath_Join folder (filepath_Base (destination ec))) \<notin> {ident (manifestPath ec), ident (backup_path ec folder)}"

definition paths_apart :: "'k os \<Rightarrow> (string \<Rightarrow> 'f) \<Rightarrow> (string \<Rightarrow> string \<Rightarrow> bool) \<Rightarrow> configurator \<Rightarrow> bool" where
  "paths_apart os ident inside ec \<longleftrightarrow>
     ident (manifestPath ec) \<notin> ident ` other_files ec \<and> \<not> inside (certDir ec) (manifestPath ec) \<and>
     (\<forall>folder k k'. MkdirTemp os (backupDestination ec) (''backup_'' @ Today os @ ''_'') k = (Inr folder, k') \<longrightarrow>
        folder_apart ident inside ec folder)"

text \<open>The state of the manifest and its backup before anything is written over.\<close>

lemma createBackups_copies:
  assumes fs: "file_system os ident inside" and apart: "paths_apart os ident inside ec"
    and ec: "configDestPath ec = destination ec" and old: "ReadFile os (manifestPath ec) k = Inr text"
    and b: "createBackups os ec k = (r, k')"
  shows "ReadFile os (manifestPath ec) k' = Inr text \<and>
    (\<forall>folder. r = Inr folder \<longrightarrow> (folder \<noteq> [] \<longrightarrow> \<not> inside folder (manifestPath ec)) \<and>
       (backupDestination ec \<noteq> ''/dev/null'' \<longrightarrow> ReadFile os (backup_path ec folder) k' = Inr text \<and>
          ident (backup_path ec folder) \<notin> ident ` insert (manifestPath ec) (other_files ec)))"
proof (cases "backupDestination ec = ''/dev/null''")
  case False
  obtain rt k1 where t: "MkdirTemp os (backupDestination ec) (''backup_'' @ Today os @ ''_'') k = (rt, k1)" by fastforce
  from temp_leaves [OF fs t] old have text1: "ReadFile os (manifestPath ec) k1 = Inr text" by simp
  show ?thesis
  proof (cases rt)
    case (Inr folder)
    let ?m = "(manifestPath ec, backup_path ec folder, perm0644)"
    let ?c = "(destination ec, filepath_Join folder (filepath_Base (destination ec)), perm0644)"
    let ?rest = "if Stat os (destination ec) k1 then [?c] else []"
    from apart t Inr have "folder_apart ident inside ec folder" unfolding paths_apart_def by blast
    then have a: "\<not> inside folder (manifestPath ec)"
      "ident (backup_path ec folder) \<notin> ident ` insert (manifestPath ec) (other_files ec)"
      "ident (manifestPath ec) \<noteq> ident (backup_path ec folder)"
      "ident (manifestPath ec) \<noteq> ident (filepath_Join folder (filepath_Base (destination ec)))"
      "ident (backup_path ec folder) \<noteq> ident (filepath_Join folder (filepath_Base (destination ec)))"
      unfolding folder_apart_def by auto
    have copies: "createBackups os ec k = (case copyFiles os (?m # ?rest) k1 of (Some err, k) \<Rightarrow> (Inl err, k) | (None, k) \<Rightarrow> (Inr folder, k))"
      using False t Inr by (simp add: createBackups_def ec backup_path_def)
    obtain e k2 where w: "WriteFile os (backup_path ec folder) text perm0644 k1 = (e, k2)" by fastforce
    have m2: "ReadFile os (manifestPath ec) k2 = Inr text" using write_leaves [OF fs w a(3)] text1 by simp
    show ?thesis
    proof (cases e)
      case None
      from write_holds [OF fs w [unfolded None]] have b2: "ReadFile os (backup_path ec folder) k2 = Inr text" .
      have left: "ReadFile os p (snd (copyFiles os ?rest k2)) = ReadFile os p k2" if "p \<in> {manifestPath ec, backup_path ec folder}" for p
        using that a(4,5) by (intro copyFiles_leaves [OF fs]) auto
      obtain e' k3 where rest: "copyFiles os ?rest k2 = (e', k3)" by fastforce
      have "copyFiles os (?m # ?rest) k1 = (e', k3)" using text1 w None rest by simp
      with copies b have r: "(case e' of Some err \<Rightarrow> (Inl err, k3) | None \<Rightarrow> (Inr folder, k3)) = (r, k')" by (cases e') simp_all
      then have "k' = k3" "\<And>f. r = Inr f \<Longrightarrow> f = folder" by (cases e'; auto)+
      with left [of "manifestPath ec"] left [of "backup_path ec folder"] rest m2 b2 a(1,2) show ?thesis by auto
    next
      case (Some err)
      have "copyFiles os (?m # ?rest) k1 = (Some (FileError (backup_path ec folder) err), k2)" using text1 w Some by simp
      with copies b m2 show ?thesis by auto
    qed
  qed (use b False t text1 in \<open>auto simp: createBackups_def\<close>)
qed (use b old in \<open>auto simp: createBackups_def\<close>)

definition backed_up :: "'k os \<Rightarrow> (string \<Rightarrow> 'f) \<Rightarrow> (string \<Rightarrow> string \<Rightarrow> bool) \<Rightarrow> configurator \<Rightarrow> string \<Rightarrow> string \<Rightarrow> 'k \<Rightarrow> bool" where
  "backed_up os ident inside ec old folder k \<longleftrightarrow> (folder \<noteq> [] \<longrightarrow> \<not> inside folder (manifestPath ec)) \<and>
     (backupDestination ec \<noteq> ''/dev/null'' \<longrightarrow> ReadFile os (backup_path ec folder) k = Inr old \<and>
        ident (backup_path ec folder) \<notin> ident ` insert (manifestPath ec) (other_files ec))"

lemma prepare_backs_up:
  assumes fs: "file_system os ident inside" and apart: "paths_apart os ident inside ec" and "\<not> dryRun ec"
    and ec: "configDestPath ec = destination ec" and old: "ReadFile os (manifestPath ec) k = Inr old"
    and p: "prepare os ec k = (r, k')"
  shows "ReadFile os (manifestPath ec) k' = Inr old \<and> (\<forall>folder. r = Inr folder \<longrightarrow> backed_up os ident inside ec old folder k')"
proof -
  obtain rb k1 where b: "createBackups os ec k = (rb, k1)" by fastforce
  from createBackups_copies [OF fs apart ec old b] have k1: "ReadFile os (manifestPath ec) k1 = Inr old"
    "\<And>folder. rb = Inr folder \<Longrightarrow> backed_up os ident inside ec old folder k1" by (auto simp: backed_up_def)
  obtain e k2 where c: "copyCerts os ec k1 = (e, k2)" by fastforce
  have certs: "ReadFile os q k2 = ReadFile os q k1" if "ident q \<notin> ident ` other_files ec" for q
    using copyCerts_leaves [OF fs, of q ec k1] that c by (auto simp: other_files_def)
  have "ident (manifestPath ec) \<notin> ident ` other_files ec" using apart by (simp add: paths_apart_def)
  with certs k1 have "ReadFile os (manifestPath ec) k2 = Inr old"
    "\<And>folder. rb = Inr folder \<Longrightarrow> backed_up os ident inside ec old folder k2" by (auto simp: backed_up_def)
  with k1 p b c assms(3) show ?thesis by (cases rb; cases e) (auto simp: prepare_def)
qed

subsection \<open>Writing the files\<close>

lemma createConfig_counts:
  assumes "\<And>a b. 0 \<le> DiffLevenshtein lib a b" "createConfig os lib ec v 0 k = (Inr n, k')"
  shows "0 \<le> n"
  using assms(2) assms(1)
  by (auto simp: createConfig_def Let_def not_less split: sum.splits option.splits prod.splits if_splits intro!: antisym)

lemma set_dnsPolicy_fields [simp]:
  "manifestPath (set_dnsPolicy ec) = manifestPath ec" "origManifest (set_dnsPolicy ec) = origManifest ec"
  "dryRun (set_dnsPolicy ec) = dryRun ec"
  by (simp_all add: set_dnsPolicy_def set_spec_def)

lemma write_files_manifest:
  assumes fs: "file_system os ident inside" and nonneg: "\<And>a b. 0 \<le> DiffLevenshtein lib a b" and dry: "\<not> dryRun ec"
    and ec: "configDestPath ec = destination ec" and old: "ReadFile os (manifestPath ec) k = Inr old" "origManifest ec = old"
    and m: "ident (manifestPath ec) \<notin> ident ` other_files ec" "folder \<noteq> [] \<longrightarrow> \<not> inside folder (manifestPath ec)"
    and w: "write_files os lib ec v folder k = (err, k')"
  shows "(err = None \<longrightarrow> (\<exists>new. Marshal lib (manifestData (set_dnsPolicy ec)) = Inr new \<and>
      ReadFile os (manifestPath ec) k' = Inr (if 0 < DiffLevenshtein lib old new then new else old))) \<and>
    (ReadFile os (manifestPath ec) k' = Inr old \<or>
     (\<forall>p. ident p \<notin> ident ` insert (manifestPath ec) (other_files ec) \<longrightarrow> ReadFile os p k' = ReadFile os p k))"
proof -
  obtain rc k1 where c: "createConfig os lib ec v 0 k = (rc, k1)" by fastforce
  obtain e2 k2 where d: "modifyDeployments os ec v k1 = (e2, k2)" by fastforce
  have k1: "ReadFile os p k1 = ReadFile os p k" if "ident p \<notin> ident ` other_files ec" for p
    using createConfig_leaves [OF fs, of p ec lib v 0 k] that c ec by (auto simp: other_files_def)
  have k2: "ReadFile os p k2 = ReadFile os p k" if "ident p \<notin> ident ` other_files ec" for p
    using modifyDeployments_leaves [OF fs, of p ec v k1] k1 [OF that] that d by (auto simp: other_files_def)
  note old1 = k1 [OF m(1)] and old2 = k2 [OF m(1)]
  show ?thesis
  proof (cases "\<exists>n new. rc = Inr n \<and> e2 = None \<and> Marshal lib (manifestData (set_dnsPolicy ec)) = Inr new")
    case True
    then obtain n new where n: "rc = Inr n" "e2 = None" "Marshal lib (manifestData (set_dnsPolicy ec)) = Inr new" by blast
    have "0 \<le> n" using c unfolding n(1) by (rule createConfig_counts [OF nonneg])
    show ?thesis
    proof (cases "0 < DiffLevenshtein lib old new")
      case True
      obtain e3 k3 where wm: "WriteFile os (manifestPath ec) new perm0644 k2 = (e3, k3)" by fastforce
      have k3: "ReadFile os p k3 = ReadFile os p k" if "ident p \<notin> ident ` insert (manifestPath ec) (other_files ec)" for p
        using write_leaves [OF fs wm] k2 [of p] that by simp
      have "e3 = None \<Longrightarrow> ReadFile os (manifestPath ec) k3 = Inr new" using write_holds [OF fs] wm by blast
      moreover have "k' = k3 \<and> (err = None \<longrightarrow> e3 = None)"
        using w c d n dry True wm \<open>0 \<le> n\<close> old(2) by (cases e3) (auto simp: write_files_def writeManifest_def Let_def split: if_splits)
      ultimately show ?thesis using k3 n(3) True by auto
    next
      case False
      with w c d n dry old(2) have "k' = k2 \<or> k' = RemoveAll os folder k2 \<and> folder \<noteq> []"
        by (auto simp: write_files_def writeManifest_def Let_def split: if_splits)
      then have "ReadFile os (manifestPath ec) k' = Inr old" using old2 old(1) m(2) removal_leaves [OF fs] by auto
      with n(3) False show ?thesis by simp
    qed
  next
    case False
    then have "k' \<in> {k1, k2} \<and> err \<noteq> None"
      using w c d by (cases rc; cases e2; cases "Marshal lib (manifestData (set_dnsPolicy ec))")
        (auto simp: write_files_def writeManifest_def)
    with old1 old2 old(1) show ?thesis by auto
  qed
qed

subsection \<open>The run\<close>

lemma apart_fields [simp]:
  "paths_apart os ident inside (ec\<lparr>configDestPath := d\<rparr>) = paths_apart os ident inside ec"
  "backed_up os ident inside (ec\<lparr>configDestPath := d\<rparr>) = backed_up os ident inside ec"
  "paths_apart os ident inside (ec\<lparr>origManifest := s, manifestData := m\<rparr>) = paths_apart os ident inside ec"
  "backed_up os ident inside (ec\<lparr>origManifest := s, manifestData := m\<rparr>) = backed_up os ident inside ec"
  "other_files (set_spec sp ec) = other_files ec" "destination (set_spec sp ec) = destination ec"
  "manifestPath (set_spec sp ec) = manifestPath ec" "configDestPath (set_spec sp ec) = configDestPath ec"
  by (simp_all add: fun_eq_iff paths_apart_def backed_up_def folder_apart_def other_files_def backup_path_def destination_def set_spec_def)


subsection \<open>An example\<close>

definition demo_inside :: "string \<Rightarrow> string \<Rightarrow> bool" where
  "demo_inside d p \<longleftrightarrow> prefix (d @ ''/'') p"

lemma map_of_filter_keys: "P p \<Longrightarrow> map_of (filter (\<lambda>(q, v). P q) m) p = map_of m p"
  by (induction m) auto

lemma demo_file_system: "file_system demo_os id demo_inside"
proof -
  have "map_of (filter (\<lambda>(q, data). \<not> prefix (d @ ''/'') q) k) p = map_of k p" if "\<not> prefix (d @ ''/'') p"
    for d p and k :: "(string, string) gomap"
    using that by (rule map_of_filter_keys [where P = "\<lambda>q. \<not> prefix (d @ ''/'') q"])
  then show ?thesis by (auto simp: file_system_def leaves_def demo_os_def demo_inside_def)
qed

definition backup_ec :: configurator where
  "backup_ec = (demo_ec demo_args)\<lparr>backupDestination := ''/backup'', deploymentPathTAS := ''/tas.yaml'', deploymentPathGAS := ''/gas.yaml''\<rparr>"

lemma backup_ec_apart: "paths_apart demo_os id demo_inside backup_ec"
proof -
  have "folder_apart id demo_inside backup_ec (''/backup/'' @ ''backup_2024-01-01_'' @ ''1'')" by code_simp
  moreover have "manifestPath backup_ec \<notin> other_files backup_ec" "\<not> demo_inside (certDir backup_ec) (manifestPath backup_ec)"
    by code_simp+
  ultimately show ?thesis by (simp add: paths_apart_def demo_os_def backup_ec_def)
qed


end
