(* ===== verification/Spec2Isabelle.thy ===== *)
theory Spec2Isabelle
  imports Gpu_Fit Gpu_XeLink Gpu_Main Tas_Main Tas_DeepCopy Tas_Cleanup Cfg_Files
begin

text \<open>
  A verification development for Platform Aware Scheduling: two extenders of the Kubernetes scheduler, the HTTP
  server that they share, and the tool that configures the scheduler for them. Everything below names files under \<^verbatim>\<open>src/\<close>.

  \<^descr> The program. \<^emph>\<open>GPU Aware Scheduling\<close> (GAS, \<^verbatim>\<open>gpu-aware-scheduling/\<close>) keeps a cache of the GPU
  resources that pods use, filters the nodes that a pod fits on and binds pods to nodes, choosing GPUs and tiles and
  writing them into the pod's annotations. \<^emph>\<open>Telemetry Aware Scheduling\<close> (TAS,
  \<^verbatim>\<open>telemetry-aware-scheduling/\<close>) reads policies whose strategies are rules over metrics: it filters and ranks
  nodes for the scheduler, and labels the nodes that violate a policy. Both answer HTTP requests through
  \<^verbatim>\<open>extender/\<close>. The \<^emph>\<open>configurator\<close> (\<^verbatim>\<open>configurator/\<close>) edits the files of the kube-scheduler so that
  it calls the extenders.

  \<^descr> How the parts interact. In GAS informer events and workers (\<^verbatim>\<open>node_resource_cache.go\<close>) and bind requests
  (\<^verbatim>\<open>scheduler.go\<close>) change one cache; the scheduler reaches it through the interface \<^verbatim>\<open>CacheAPI\<close>. In TAS the
  policy controller writes policies and metric names into the cache and strategies into the enforcer; the periodic update
  fills in the metrics; the enforcer evaluates the strategies and patches the nodes' labels; the extender only reads the
  cache. The server decides which handler a request reaches. The main functions put the parts together: a started command
  is modelled as its listener and the state that its informers, tickers, signals and connections change.

  \<^descr> Theories and code, common part.
    \<^item> \<^verbatim>\<open>PAS_Prelude\<close>: Go maps as association lists with one entry per key (\<open>wf_map\<close>), maps that may be nil,
      loops that may panic (\<open>ofold\<close>) or fail (\<open>efold\<close>), and \<open>range_order\<close>, the contract of an arbitrary order in
      which a Go map is ranged over. \<^verbatim>\<open>Go_Strings\<close>: strings, numbers and splitting. \<^verbatim>\<open>Kube_Objects\<close>: the
      fields of pods and nodes that are read.
    \<^item> \<^verbatim>\<open>Http\<close>: the response writer. \<^verbatim>\<open>Http_Server\<close> (\<^verbatim>\<open>extender/scheduler.go\<close>, \<^verbatim>\<open>types.go\<close>): the
      middleware, the routes, and the locale \<open>scheduler_service\<close>, the contract of the Go interface
      \<^verbatim>\<open>Scheduler\<close>; \<^verbatim>\<open>Gpu_Server\<close> and \<^verbatim>\<open>Tas_Server\<close> interpret it on the two extenders. \<^verbatim>\<open>Http_Start\<close>: starting
      the server, its TLS configuration, which clients a handshake accepts and how a connection is served.
    \<^item> \<^verbatim>\<open>Kube_Client\<close> (\<^verbatim>\<open>extender/client.go\<close>): the configuration from the cluster or a file. \<^verbatim>\<open>Go_Time\<close>:
      durations read from text, as the flags of TAS give them.

  \<^descr> Theories and code, GAS (\<^verbatim>\<open>gpu-aware-scheduling/pkg/gpuscheduler/\<close>).
    \<^item> \<^verbatim>\<open>Resource_Map\<close> (\<^verbatim>\<open>resource_map.go\<close>): int64 amounts by name, with overflow; the locales \<open>rm_step\<close> and
      \<open>rm_operation\<close> state what adding and subtracting share.
    \<^item> \<^verbatim>\<open>Gpu_Labels\<close> (\<^verbatim>\<open>utils.go\<close>): labels, tile mappings, Xe links and annotations read and written.
    \<^item> \<^verbatim>\<open>Gpu_Cache\<close>, \<^verbatim>\<open>Gpu_Events\<close> (\<^verbatim>\<open>node_resource_cache.go\<close>): the record \<open>cache\<close> (node and tile
      statuses, counted pods, descheduling state, work queues), the adjustment for a pod, the event handlers and workers,
      and the step relation \<open>cache_step\<close> with its reachable states.
    \<^item> \<^verbatim>\<open>Gpu_Scheduler\<close>, \<^verbatim>\<open>Gpu_Alloc\<close>, \<^verbatim>\<open>Gpu_Tiles\<close>, \<^verbatim>\<open>Gpu_Fit\<close>, \<^verbatim>\<open>Gpu_XeLink\<close> (\<^verbatim>\<open>scheduler.go\<close>):
      choosing GPUs for a container, for a pod, and as linked pairs; tiles and annotations.
    \<^item> \<^verbatim>\<open>Gpu_Bind\<close>, \<^verbatim>\<open>Gpu_Safety\<close>, \<^verbatim>\<open>Gpu_Requests\<close> (\<^verbatim>\<open>scheduler.go\<close>, \<^verbatim>\<open>types.go\<close>,
      \<^verbatim>\<open>cache_api.go\<close>): filter and bind requests over the locale \<open>cache_api\<close>, interpreted on the cache.
    \<^item> \<^verbatim>\<open>Gpu_Informers\<close> (\<^verbatim>\<open>node_resource_cache.go\<close>): which notifications of the informers reach the handlers, and the
      construction of the cache. \<^verbatim>\<open>Gpu_Main\<close> (\<^verbatim>\<open>cmd/gas-scheduler-extender/main.go\<close>): the flags, the command, its
      signals, and one step function for everything that can happen to the started process.

  \<^descr> Theories and code, TAS (\<^verbatim>\<open>telemetry-aware-scheduling/pkg/\<close>).
    \<^item> \<^verbatim>\<open>Tas_Policy\<close> (\<^verbatim>\<open>telemetrypolicy/api/v1alpha1/types.go\<close>, \<^verbatim>\<open>metrics/client.go\<close>,
      \<^verbatim>\<open>strategies/core/operator.go\<close>): policies, quantities as exact rationals, metrics, rules, ordering.
    \<^item> \<^verbatim>\<open>Tas_Strategies\<close> (\<^verbatim>\<open>strategies/*/strategy.go\<close>): the four strategy types as a datatype and the methods of
      their Go interface.
    \<^item> \<^verbatim>\<open>Tas_Cache\<close> (\<^verbatim>\<open>cache/\<close>): the store behind the channel, the count of uses per metric under its mutex (a second
      \<open>Lock\<close> is \<open>None\<close>: a deadlock), the periodic update; locale \<open>metric_counts\<close>.
    \<^item> \<^verbatim>\<open>Tas_Registry\<close>, \<^verbatim>\<open>Tas_Deschedule\<close>, \<^verbatim>\<open>Tas_Labels\<close>, \<^verbatim>\<open>Tas_Enforcer\<close>
      (\<^verbatim>\<open>strategies/core/enforcer.go\<close>, \<^verbatim>\<open>strategies/*/enforce.go\<close>): the registry, what enforcing and cleaning up
      patch, and \<open>apply_patch\<close>, the semantics of JSON patches that they are judged by; locale
      \<open>strategy_interface\<close>.
    \<^item> \<^verbatim>\<open>Tas_Controller\<close> (\<^verbatim>\<open>controller/\<close>, \<^verbatim>\<open>cmd/main.go\<close>): the policy events and their reachable states.
      \<^verbatim>\<open>Tas_Cleanup\<close>: what deleting a policy leaves on the nodes.
    \<^item> \<^verbatim>\<open>Tas_Client\<close> (\<^verbatim>\<open>telemetrypolicy/client/\<close>): the requests of the policy client and the laws of a server of
      policies. \<^verbatim>\<open>Tas_DeepCopy\<close> (\<^verbatim>\<open>zz_generated_deepcopy.go\<close>): the copies over a store of objects with addresses.
    \<^item> \<^verbatim>\<open>Tas_Scheduler\<close> (\<^verbatim>\<open>telemetryscheduler/\<close>): the answers to filter and prioritize requests.
      \<^verbatim>\<open>Tas_Main\<close> (\<^verbatim>\<open>cmd/main.go\<close>): the flags, the clients and tickers, and the states of the started process.

  \<^descr> Theories and code, configurator (\<^verbatim>\<open>configurator/internal/cmd/main.go\<close>).
    \<^item> \<^verbatim>\<open>Cfg_Manifest\<close>: the manifest as a tree of Go values, the version of the scheduler read from it, and the
      edits of its command, mounts and volumes.
    \<^item> \<^verbatim>\<open>Cfg_Run\<close>: the access checks, backups and writes over a record of operating system calls, the flags, the run and the command. \<^verbatim>\<open>Cfg_Files\<close>: the laws of a file system, and what a run does to the
      files under them.

  \<^descr> What is shown. For GAS: binding never takes a GPU beyond its capacity, a failed bind leaves no trace, a successful
  one is counted exactly; allocation is sound and complete; the cache counts a pod once and releases it in full; no event or
  request makes an amount negative. For TAS: violation, equality and ranking are what the policies say; enforcing labels exactly
  the right nodes, and deleting a policy takes its labels back; the controller keeps cache and registry in step with the
  live policies through any sequence of events; so a filter request is answered by the live policy, and a live metric is
  refreshed. For the server: which requests reach a handler, and that the handlers keep the state's invariant. For the
  configurator: configuring twice is configuring once, a dry run writes nothing, and however a run ends the old manifest is
  in its place or in the backups. For the commands: without the unsafe option only clients with a certificate of the given
  authority are served; whatever happens to the process of GAS no amount becomes negative, and every connection to the process of
  TAS is answered by the live policies; the period is the one of the flag. For the policy client: what it stores is what it reads.
  Theorems about defects of the code state what the code does.

  \<^descr> Conventions. A Go \<^verbatim>\<open>error\<close> is the left side of a sum, a panic is \<open>None\<close> (in the configurator, whose
  panics carry errors, the left side of a sum). int64 is a 64-bit word. The order of a ranged map is a parameter under
  \<open>range_order\<close>. Calls to Kubernetes, the custom metrics API, the file system, and the JSON, YAML and diff libraries
  are parameters. A Go method that holds the lock of its object is one step; a request or a round sees one state.

  \<^descr> Fuel. No definition uses fuel: loops run over lists that are known when they start. The search for continuation
  labels ends because each label is looked up at most once (\<open>concat_split_loop\<close>), replacing a text because the
  rest gets shorter (\<open>replace_all\<close>), both by a measure. Endless loops (the workers, the periodic update, the
  enforcer's ticks) are modelled by their rounds, any number of them.

  \<^descr> Not modelled, and why. The inside of informers, work queues with rate limits, tickers, the TLS protocol and
  listening are libraries: the model has the calls, and what arrives from them as events in any order. Goroutines are
  scheduled between the steps, not within one. Splitting a command line into flags is the library's. Logging and printing
  have no effect that the code reads. Mocks serve the tests only. Requests to a GAS whose cache could not be made, and is nil,
  are described but not modelled: they panic.
\<close>

end
